(* ===== verification/Prelude.thy ===== *)
theory Prelude
  imports Complex_Main "HOL-Library.Word" "HOL-Library.Signed_Division" "HOL-Library.Monad_Syntax"
begin

text \<open>
  Shared material: the names of the machine types, the type of a method call that may not
  return, two's-complement arithmetic on \<open>int64\<close>, and the generic facts on lists and
  options that the component theories use.

  \<^item> \<open>int64\<close>, \<open>int32\<close>, \<open>uint32\<close>, \<open>byte\<close> are words; \<open>sint\<close> reads a word as signed. Signed
    overflow, undefined in C++, is the two's-complement wrap-around that the compiled code
    has; a theorem that claims an exact result carries the range condition that excludes it.
  \<^item> \<open>('w, 'a) call\<close> is a call in state \<open>'w\<close>: \<open>Some (result, new state)\<close>, or \<open>None\<close> when
    the call does not return (the process called \<open>exit\<close>, or it blocks for ever).
\<close>

type_synonym int64 = "64 word"
type_synonym int32 = "32 word"
type_synonym uint32 = "32 word"
type_synonym uint16 = "16 word"
type_synonym byte = "8 word"

type_synonym ('w, 'a) call = "'w \<Rightarrow> ('a \<times> 'w) option"

named_theorems int64_simps \<open>signed reading of 64-bit arithmetic that does not overflow\<close>
named_theorems codec_simps \<open>reading back what was written\<close>
named_theorems call_simps \<open>evaluation of method calls\<close>

section \<open>Signed 64-bit arithmetic\<close>

definition in_int64 :: "int \<Rightarrow> bool" where
  "in_int64 k \<longleftrightarrow> - (2 ^ 63) \<le> k \<and> k < 2 ^ 63"

lemma sint_int64_bounds: "- (2 ^ 63) \<le> sint (a :: int64)" "sint (a :: int64) < 2 ^ 63"
  using sint_greater_eq [of a] sint_less [of a] by simp_all

lemma in_int64_sint [simp]: "in_int64 (sint (a :: int64))"
  using sint_int64_bounds [of a] by (simp add: in_int64_def)

lemma in_int64I: "\<bar>k\<bar> < 2 ^ 63 \<Longrightarrow> in_int64 k"
  by (simp add: in_int64_def abs_less_iff)

lemma in_int64_between: "a \<le> k \<Longrightarrow> k < b \<Longrightarrow> - (2 ^ 63) \<le> a \<Longrightarrow> b \<le> 2 ^ 63 \<Longrightarrow> in_int64 k"
  by (simp only: in_int64_def) linarith

lemma sint_of_int64 [int64_simps]: "in_int64 k \<Longrightarrow> sint (word_of_int k :: int64) = k"
  unfolding in_int64_def
  by (simp add: sint_sbintrunc' signed_take_bit_int_eq_self)

lemma sint_add_int64 [int64_simps]:
  "in_int64 (sint a + sint b) \<Longrightarrow> sint (a + b :: int64) = sint a + sint b"
  using sint_of_int64 [of "sint a + sint b"] by (simp add: of_int_add)

lemma sint_diff_int64 [int64_simps]:
  "in_int64 (sint a - sint b) \<Longrightarrow> sint (a - b :: int64) = sint a - sint b"
  using sint_of_int64 [of "sint a - sint b"] by (simp add: of_int_diff)

lemma sint_minus_int64 [int64_simps]:
  "in_int64 (- sint a) \<Longrightarrow> sint (- a :: int64) = - sint a"
  using sint_of_int64 [of "- sint a"] by simp

lemma sint_mult_int64 [int64_simps]:
  "in_int64 (sint a * sint b) \<Longrightarrow> sint (a * b :: int64) = sint a * sint b"
  using sint_of_int64 [of "sint a * sint b"] by (simp add: of_int_mult)

lemma int64_eq_iff: "(a :: int64) = b \<longleftrightarrow> sint a = sint b"
  by (metis word_int_cases signed_word_eqI of_int_sint)

text \<open>C++ division of signed integers rounds towards zero (\<open>sdiv\<close>, \<open>smod\<close> on \<open>int\<close>).\<close>

definition cdiv :: "int64 \<Rightarrow> int64 \<Rightarrow> int64" where
  "cdiv a b = word_of_int (sint a sdiv sint b)"

definition cmod :: "int64 \<Rightarrow> int64 \<Rightarrow> int64" where
  "cmod a b = word_of_int (sint a smod sint b)"

lemma sdiv_pos_cases: "0 < b \<Longrightarrow> a sdiv b = (if 0 \<le> a then a div b else - ((- a) div b))" for a b :: int
  by (auto simp: signed_divide_int_def sgn_if)

lemma div_between: "0 < b \<Longrightarrow> 0 \<le> c \<Longrightarrow> 0 \<le> c div b \<and> c div b \<le> c" for b c :: int
  using zdiv_mono2 [of c 1 b] by (simp add: pos_imp_zdiv_nonneg_iff)

lemma abs_sdiv_le: "0 < b \<Longrightarrow> \<bar>a sdiv b\<bar> \<le> \<bar>a\<bar>" for a b :: int
  using div_between [of b a] div_between [of b "- a"] by (auto simp: sdiv_pos_cases)

lemma in_int64_sdiv: "0 < b \<Longrightarrow> in_int64 (sint (a :: int64) sdiv b)"
  using sint_int64_bounds [of a] div_between [of b "sint a"] div_between [of b "- sint a"]
  by (auto simp: in_int64_def sdiv_pos_cases)

lemma sint_cdiv [int64_simps]: "0 < sint b \<Longrightarrow> sint (cdiv a b) = sint a sdiv sint b"
  by (simp add: cdiv_def in_int64_sdiv sint_of_int64)

end
