(* ===== verification/Codec.thy ===== *)
theory Codec
  imports Prelude
begin

text \<open>
  The interface of a fixed-width byte encoding: what is written is read back, what is read is
  what was written, and every encoding has the same length. A field of a datagram is such a
  codec, and two fields side by side are one again (\<open>codec_pair\<close>), so that the layout of a
  packet is the composition of its fields' codecs. \<open>ok\<close> are the values that a reader can produce.
\<close>

unbundle bit_operations_syntax

locale fixed_codec =
  fixes enc :: "'a \<Rightarrow> byte list"
    and dec :: "byte list \<Rightarrow> 'a"
    and width :: nat
    and ok :: "'a \<Rightarrow> bool"
  assumes length_enc: "length (enc x) = width"
    and dec_enc: "ok x \<Longrightarrow> dec (enc x) = x"
    and dec_ok: "length bs = width \<Longrightarrow> ok (dec bs)"
    and enc_dec: "length bs = width \<Longrightarrow> enc (dec bs) = bs"
begin

lemma enc_inject: "ok x \<Longrightarrow> ok y \<Longrightarrow> enc x = enc y \<longleftrightarrow> x = y"
  by (metis dec_enc)

lemma dec_inject: "length bs = width \<Longrightarrow> length cs = width \<Longrightarrow> dec bs = dec cs \<longleftrightarrow> bs = cs"
  by (metis enc_dec)

lemma dec_field: "ok x \<Longrightarrow> k = length pre \<Longrightarrow> dec (take width (drop k (pre @ enc x @ post))) = x"
  by (simp add: length_enc dec_enc)

end

locale codec_pair = a: fixed_codec enca deca wa oka + b: fixed_codec encb decb wb okb
  for enca :: "'a \<Rightarrow> byte list" and deca and wa and oka
    and encb :: "'b \<Rightarrow> byte list" and decb and wb and okb

sublocale codec_pair \<subseteq> pair: fixed_codec
  "\<lambda>p. enca (fst p) @ encb (snd p)" "\<lambda>bs. (deca (take wa bs), decb (drop wa bs))" "wa + wb"
  "\<lambda>p. oka (fst p) \<and> okb (snd p)"
  by unfold_locales
    (simp_all add: a.length_enc b.length_enc a.dec_enc b.dec_enc a.enc_dec b.enc_dec a.dec_ok b.dec_ok)

section \<open>64-bit words as eight bytes\<close>

definition be_bytes :: "int64 \<Rightarrow> byte list" where
  "be_bytes w = map (\<lambda>i. ucast (drop_bit (8 * i) w)) [7, 6, 5, 4, 3, 2, 1, 0]"

definition of_be_bytes :: "byte list \<Rightarrow> int64" where
  "of_be_bytes bs = foldl (\<lambda>a b. push_bit 8 a OR ucast b) 0 bs"

lemma length_be_bytes [simp]: "length (be_bytes w) = 8"
  by (simp add: be_bytes_def)

lemma list8_cases:
  assumes "length bs = 8"
  obtains a b c d e f g h where "bs = [a, b, c, d, e, f, g, h]"
  using assms by (auto simp: length_Suc_conv eval_nat_numeral)

lemma bit_byte_beyond: "8 \<le> m \<Longrightarrow> bit (b :: byte) m \<longleftrightarrow> False"
  using bit_imp_le_length [of b m] by auto

lemma be_bytes_of_be_bytes [codec_simps]:
  assumes "length bs = 8"
  shows "be_bytes (of_be_bytes bs) = bs"
proof -
  obtain a b c d e f g h where bs: "bs = [a, b, c, d, e, f, g, h]"
    using list8_cases [OF assms] .
  show ?thesis
    unfolding bs be_bytes_def of_be_bytes_def
    by (auto intro!: bit_eqI simp: bit_simps bit_byte_beyond)
qed

lemma nth_be_bytes: "k < 8 \<Longrightarrow> be_bytes w ! (7 - k) = ucast (drop_bit (8 * k) w)"
proof -
  assume "k < 8"
  then consider "k = 0" | "k = 1" | "k = 2" | "k = 3" | "k = 4" | "k = 5" | "k = 6" | "k = 7"
    by linarith
  then show ?thesis by cases (simp_all add: be_bytes_def)
qed

lemma bit_be_bytes:
  assumes "n < 64"
  shows "bit (be_bytes w ! (7 - n div 8)) (n mod 8) = bit w n"
proof -
  from assms have "n div 8 < 8" by simp
  then show ?thesis by (simp add: nth_be_bytes bit_simps)
qed

lemma be_bytes_inject: "be_bytes w = be_bytes v \<Longrightarrow> w = v"
proof (rule bit_eqI)
  fix n
  assume eq: "be_bytes w = be_bytes v" and "possible_bit TYPE(64 word) n"
  then have n: "n < 64" by (simp add: possible_bit_def)
  show "bit w n = bit v n"
    using bit_be_bytes [OF n, of w] bit_be_bytes [OF n, of v] eq by simp
qed

lemma of_be_bytes_be_bytes [codec_simps]: "of_be_bytes (be_bytes w) = w"
  by (rule be_bytes_inject) (simp add: be_bytes_of_be_bytes)

interpretation be64: fixed_codec be_bytes of_be_bytes 8 "\<lambda>_. True"
  by unfold_locales (simp_all add: codec_simps)

end
