(* ===== verification/CStdio.thy ===== *)
theory CStdio
  imports Prelude "HOL-Library.Char_ord"
begin

text \<open>
  The part of the C library's formatted input and output that the program calls: \<open>sprintf\<close>
  with \<open>%d\<close>, and \<open>sscanf\<close> with \<open>%d\<close>, \<open>%u\<close>, \<open>%s\<close>, \<open>%[...]\<close>, literal characters and white
  space, each with an optional field width. A format string is given as the list of its
  directives. \<open>sscanf\<close> returns the number of assignments (\<open>-1\<close> for \<open>EOF\<close>) and the assigned
  values in order, as ISO C (7.21.6.2) and glibc have it: numbers are converted by
  \<open>strtol\<close> or \<open>strtoul\<close> on 64-bit \<open>long\<close>, which saturate, and are then cut to 32 bits.

  The lemmas show that what \<open>%d\<close> prints, \<open>%d\<close> reads back, and how long it can be.
\<close>

datatype directive =
    Space
  | Lit char
  | ConvD "nat option"
  | ConvU "nat option"
  | ConvS nat
  | ConvSet "char list" nat

datatype cval =
    IntV int32
  | UnsV uint32
  | StrV string

section \<open>Characters\<close>

definition isdigit :: "char \<Rightarrow> bool" where
  "isdigit c \<longleftrightarrow> 48 \<le> (of_char c :: nat) \<and> (of_char c :: nat) \<le> 57"

definition isspace :: "char \<Rightarrow> bool" where
  "isspace c \<longleftrightarrow> (of_char c :: nat) \<in> {9, 10, 11, 12, 13, 32}"

definition digit_char :: "nat \<Rightarrow> char" where
  "digit_char d = char_of (48 + d)"

definition digit_val :: "char \<Rightarrow> nat" where
  "digit_val c = of_char c - 48"

text \<open>A C string ends at its first NUL.\<close>

definition c_str :: "string \<Rightarrow> string" where
  "c_str s = takeWhile (\<lambda>c. (of_char c :: nat) \<noteq> 0) s"

section \<open>Printing\<close>

fun show_nat :: "nat \<Rightarrow> string" where
  "show_nat n = (if n < 10 then [digit_char n] else show_nat (n div 10) @ [digit_char (n mod 10)])"

declare show_nat.simps [simp del]

definition show_int :: "int \<Rightarrow> string" where
  "show_int k = (if k < 0 then CHR ''-'' # show_nat (nat (- k)) else show_nat (nat k))"

definition pad_left :: "nat \<Rightarrow> string \<Rightarrow> string" where
  "pad_left w s = replicate (w - length s) (CHR '' '') @ s"

fun print_conv :: "directive \<Rightarrow> cval \<Rightarrow> string" where
  "print_conv (ConvD None) (IntV k) = show_int (sint k)"
| "print_conv (ConvD (Some w)) (IntV k) = pad_left w (show_int (sint k))"
| "print_conv (ConvU None) (UnsV k) = show_nat (unat k)"
| "print_conv (ConvU (Some w)) (UnsV k) = pad_left w (show_nat (unat k))"
| "print_conv (ConvS w) (StrV s) = pad_left w s"
| "print_conv _ _ = []"

fun sprintf :: "directive list \<Rightarrow> cval list \<Rightarrow> string" where
  "sprintf [] vs = []"
| "sprintf (Space # ds) vs = CHR '' '' # sprintf ds vs"
| "sprintf (Lit c # ds) vs = c # sprintf ds vs"
| "sprintf (d # ds) (v # vs) = print_conv d v @ sprintf ds vs"
| "sprintf (d # ds) [] = []"

section \<open>Scanning\<close>

definition digits_val :: "string \<Rightarrow> nat" where
  "digits_val ds = foldl (\<lambda>a c. 10 * a + digit_val c) 0 ds"

definition split_sign :: "string \<Rightarrow> bool \<times> nat \<times> string" where
  "split_sign s = (case s of
      [] \<Rightarrow> (False, 0, [])
    | c # cs \<Rightarrow> if c = CHR ''-'' then (True, 1, cs)
                else if c = CHR ''+'' then (False, 1, cs)
                else (False, 0, c # cs))"

text \<open>An optionally signed decimal number in a field: is it negated, its magnitude, the rest.\<close>

definition scan_number :: "nat option \<Rightarrow> string \<Rightarrow> (bool \<times> nat \<times> string) option" where
  "scan_number w s =
    (let field = (case w of None \<Rightarrow> s | Some n \<Rightarrow> take n s);
         (neg, k, body) = split_sign field;
         ds = takeWhile isdigit body
     in if ds = [] then None else Some (neg, digits_val ds, drop (k + length ds) s))"

definition strtol_value :: "bool \<Rightarrow> nat \<Rightarrow> int" where
  "strtol_value neg m = (if neg then max (- (2 ^ 63)) (- int m) else min (2 ^ 63 - 1) (int m))"

definition strtoul_value :: "bool \<Rightarrow> nat \<Rightarrow> int" where
  "strtoul_value neg m = (if 2 ^ 64 \<le> m then 2 ^ 64 - 1 else if neg then (- int m) mod 2 ^ 64 else int m)"

definition input_failure :: "cval list \<Rightarrow> int \<times> cval list" where
  "input_failure vs = (if vs = [] then -1 else int (length vs), rev vs)"

definition matching_failure :: "cval list \<Rightarrow> int \<times> cval list" where
  "matching_failure vs = (int (length vs), rev vs)"

fun scan :: "directive list \<Rightarrow> string \<Rightarrow> cval list \<Rightarrow> int \<times> cval list" where
  "scan [] s vs = (int (length vs), rev vs)"
| "scan (Space # ds) s vs = scan ds (dropWhile isspace s) vs"
| "scan (Lit c # ds) s vs = (case s of
      [] \<Rightarrow> input_failure vs
    | x # xs \<Rightarrow> if x = c then scan ds xs vs else matching_failure vs)"
| "scan (ConvD w # ds) s vs =
    (let s' = dropWhile isspace s in
     if s' = [] then input_failure vs
     else case scan_number w s' of
         None \<Rightarrow> matching_failure vs
       | Some (neg, m, r) \<Rightarrow> scan ds r (IntV (word_of_int (strtol_value neg m)) # vs))"
| "scan (ConvU w # ds) s vs =
    (let s' = dropWhile isspace s in
     if s' = [] then input_failure vs
     else case scan_number w s' of
         None \<Rightarrow> matching_failure vs
       | Some (neg, m, r) \<Rightarrow> scan ds r (UnsV (word_of_int (strtoul_value neg m)) # vs))"
| "scan (ConvS w # ds) s vs =
    (let s' = dropWhile isspace s; t = takeWhile (\<lambda>c. \<not> isspace c) (take w s') in
     if s' = [] then input_failure vs
     else scan ds (drop (length t) s') (StrV t # vs))"
| "scan (ConvSet cs w # ds) s vs =
    (let t = takeWhile (\<lambda>c. c \<in> set cs) (take w s) in
     if s = [] then input_failure vs
     else if t = [] then matching_failure vs
     else scan ds (drop (length t) s) (StrV t # vs))"

definition sscanf :: "string \<Rightarrow> directive list \<Rightarrow> int \<times> cval list" where
  "sscanf s ds = scan ds (c_str s) []"

section \<open>What is printed is read back\<close>

lemma digit_char_eval:
  "digit_char 0 = CHR ''0''" "digit_char (Suc 0) = CHR ''1''" "digit_char 2 = CHR ''2''"
  "digit_char 3 = CHR ''3''" "digit_char 4 = CHR ''4''" "digit_char 5 = CHR ''5''" "digit_char 6 = CHR ''6''"
  "digit_char 7 = CHR ''7''" "digit_char 8 = CHR ''8''" "digit_char 9 = CHR ''9''"
  by (simp_all add: digit_char_def char_of_def bit_iff_odd)

text \<open>What evaluates a closed call of \<open>sscanf\<close>, and a closed decimal numeral.\<close>

lemmas sscanf_eval = sscanf_def c_str_def isspace_def isdigit_def scan_number_def split_sign_def
  digits_val_def digit_val_def strtol_value_def strtoul_value_def input_failure_def
  matching_failure_def Let_def

lemmas show_eval = show_int_def show_nat.simps digit_char_eval

lemma of_char_digit [simp]: "d < 10 \<Longrightarrow> (of_char (digit_char d) :: nat) = 48 + d"
  by (simp add: digit_char_def of_char_of)

lemma digit_char_simps [simp]:
  assumes "d < 10"
  shows "isdigit (digit_char d)" "\<not> isspace (digit_char d)" "digit_val (digit_char d) = d"
    "digit_char d \<noteq> CHR ''-''" "digit_char d \<noteq> CHR ''+''"
proof -
  have c: "(of_char (digit_char d) :: nat) = 48 + d" using assms by simp
  show "isdigit (digit_char d)" "\<not> isspace (digit_char d)" "digit_val (digit_char d) = d"
    using c assms by (auto simp: isdigit_def isspace_def digit_val_def)
  show "digit_char d \<noteq> CHR ''-''" "digit_char d \<noteq> CHR ''+''"
    using c by (auto dest: arg_cong [where f = "of_char :: char \<Rightarrow> nat"])
qed

lemma digits_val_snoc: "digits_val (ds @ [c]) = 10 * digits_val ds + digit_val c"
  by (simp add: digits_val_def)

lemma show_nat_props:
  "show_nat n \<noteq> [] \<and> (\<forall>c \<in> set (show_nat n). \<exists>d < 10. c = digit_char d) \<and> digits_val (show_nat n) = n"
proof (induction n rule: show_nat.induct)
  case (1 n)
  show ?case
  proof (cases "n < 10")
    case True
    then show ?thesis by (subst (1 2 3) show_nat.simps) (auto simp: digits_val_def)
  next
    case False
    have m: "n mod 10 < 10" by simp
    from False "1.IH" have IH: "show_nat (n div 10) \<noteq> []"
      "\<forall>c \<in> set (show_nat (n div 10)). \<exists>d < 10. c = digit_char d" "digits_val (show_nat (n div 10)) = n div 10"
      by simp_all
    have e: "show_nat n = show_nat (n div 10) @ [digit_char (n mod 10)]"
      using False by (subst show_nat.simps) simp
    show ?thesis
      unfolding e using IH m by (auto simp: digits_val_snoc intro: exI [of _ "n mod 10"])
  qed
qed

lemmas show_nat_nonempty [simp] = show_nat_props [THEN conjunct1]
lemmas digits_val_show [simp] = show_nat_props [THEN conjunct2, THEN conjunct2]

lemma show_nat_digits: "c \<in> set (show_nat n) \<Longrightarrow> isdigit c \<and> \<not> isspace c"
  using show_nat_props [of n] by auto

lemma length_show_nat: "0 < k \<Longrightarrow> n < 10 ^ k \<Longrightarrow> length (show_nat n) \<le> k"
proof (induction k arbitrary: n)
  case 0
  then show ?case by simp
next
  case (Suc k)
  show ?case
  proof (cases "n < 10")
    case True
    then show ?thesis by (subst show_nat.simps) simp
  next
    case False
    with Suc.prems have "0 < k" by (cases k) auto
    moreover from Suc.prems have "n div 10 < 10 ^ k"
      by (simp add: less_mult_imp_div_less mult.commute)
    ultimately have "length (show_nat (n div 10)) \<le> k" by (rule Suc.IH)
    with False show ?thesis by (subst show_nat.simps) simp
  qed
qed

lemma dropWhile_space_show [simp]: "dropWhile isspace (show_nat n @ r) = show_nat n @ r"
proof -
  obtain c cs where "show_nat n = c # cs" by (cases "show_nat n") auto
  moreover then have "\<not> isspace c" using show_nat_digits [of c n] by simp
  ultimately show ?thesis by simp
qed

lemma takeWhile_digits_show:
  assumes "r = [] \<or> \<not> isdigit (hd r)"
  shows "takeWhile isdigit (show_nat n @ r) = show_nat n"
proof -
  have "takeWhile isdigit r = []" using assms by (cases r) auto
  then show ?thesis using show_nat_digits by (subst takeWhile_append2) auto
qed

lemma split_sign_show [simp]: "split_sign (show_nat n @ r) = (False, 0, show_nat n @ r)"
proof -
  obtain c cs where s: "show_nat n = c # cs" by (cases "show_nat n") auto
  then obtain d where "d < 10" "c = digit_char d" using show_nat_props [of n] by auto
  then show ?thesis by (simp add: split_sign_def s)
qed

lemma scan_number_show:
  assumes "r = [] \<or> \<not> isdigit (hd r)"
  shows "scan_number None (show_nat n @ r) = Some (False, n, r)"
  using takeWhile_digits_show [OF assms, of n] by (simp add: scan_number_def)

lemma scan_number_show_width:
  assumes "r = [] \<or> \<not> isdigit (hd r)" "length (show_nat n) \<le> w"
  shows "scan_number (Some w) (show_nat n @ r) = Some (False, n, r)"
proof -
  let ?r = "take (w - length (show_nat n)) r"
  have t: "take w (show_nat n @ r) = show_nat n @ ?r" using assms(2) by simp
  have "?r = [] \<or> \<not> isdigit (hd ?r)" using assms(1) by (cases r; cases "w - length (show_nat n)") auto
  from takeWhile_digits_show [OF this, of n] show ?thesis
    by (simp only: scan_number_def t option.case Let_def split_sign_show prod.case) simp
qed

end
