(* ===== verification/Timestamp.thy ===== *)
theory Timestamp
  imports Codec CStdio
begin

text \<open>
  \<open>Timestamp.h\<close> and \<open>Timestamp.cpp\<close>: durations and time points in microseconds, both an
  \<open>int64\<close> count, their distinguished invalid value, their textual form
  \<open><time SEC USEC>\<close> and their eight bytes on the wire.

  A host is described by its byte order \<open>be\<close> (the macro \<open>__BYTE_ORDER\<close>), a parameter of the
  two byte conversions; the union of \<open>Timestamp.cpp\<close> is \<open>host_bytes\<close> and \<open>host_word\<close>.
\<close>

type_synonym dur = int64
type_synonym tp = int64

definition TpFromUsec :: "int64 \<Rightarrow> tp" where
  "TpFromUsec t = t"

definition DurFromUsec :: "int64 \<Rightarrow> dur" where
  "DurFromUsec t = t"

text \<open>A duration divided by the duration of one microsecond: an integer division by one.\<close>

definition UsecFromTp :: "tp \<Rightarrow> int64" where
  "UsecFromTp t = cdiv t 1"

definition UsecFromDur :: "dur \<Rightarrow> int64" where
  "UsecFromDur t = UsecFromTp t"

definition usecInvalid :: int64 where
  "usecInvalid = 0x7FFFFFFFFFFFFFFF"

definition tpInvalid :: tp where
  "tpInvalid = TpFromUsec usecInvalid"

definition durInvalid :: dur where
  "durInvalid = DurFromUsec usecInvalid"

definition tp0 :: tp where
  "tp0 = TpFromUsec 0"

definition diff :: "tp \<Rightarrow> tp \<Rightarrow> dur" where
  "diff a b = (if a = tpInvalid \<or> b = tpInvalid then durInvalid else a - b)"

section \<open>Text\<close>

text \<open>The format string \<^verbatim>\<open>"<time %d %6d>"\<close>, used both to print and to scan.\<close>

definition format :: "directive list" where
  "format = map Lit ''<time'' @ [Space, ConvD None, Space, ConvD (Some 6), Lit (CHR ''>'')]"

definition StringFromTp :: "tp \<Rightarrow> string" where
  "StringFromTp point =
    (let t = UsecFromTp point;
         sec = ucast (cdiv t 1000000) :: int32;
         usec = ucast (cmod t 1000000) :: int32
     in sprintf format [IntV sec, IntV usec])"

text \<open>The sum \<open>sec * 1000000 + usec\<close> is of type \<open>int\<close>, 32 bits wide, before it is widened.\<close>

definition TpFromString :: "string \<Rightarrow> tp" where
  "TpFromString s = (case sscanf s format of
      (n, [IntV sec, IntV usec]) \<Rightarrow>
        if n \<noteq> 2 then tpInvalid else TpFromUsec (scast (sec * 1000000 + usec))
    | _ \<Rightarrow> tpInvalid)"

section \<open>Bytes\<close>

definition bswap64 :: "int64 \<Rightarrow> int64" where
  "bswap64 x = of_be_bytes (rev (be_bytes x))"

definition REORDER :: "bool \<Rightarrow> int64 \<Rightarrow> int64" where
  "REORDER be x = (if be then x else bswap64 x)"

definition host_bytes :: "bool \<Rightarrow> int64 \<Rightarrow> byte list" where
  "host_bytes be t = (if be then be_bytes t else rev (be_bytes t))"

definition host_word :: "bool \<Rightarrow> byte list \<Rightarrow> int64" where
  "host_word be bs = of_be_bytes (if be then bs else rev bs)"

definition BytesFromTp :: "bool \<Rightarrow> tp \<Rightarrow> byte list" where
  "BytesFromTp be point = host_bytes be (REORDER be (UsecFromTp point))"

definition TpFromBytes :: "bool \<Rightarrow> byte list \<Rightarrow> tp" where
  "TpFromBytes be buffer = TpFromUsec (REORDER be (host_word be (take 8 buffer)))"

section \<open>The converters\<close>

lemma cdiv_1 [simp]: "cdiv t 1 = t"
  by (simp add: int64_eq_iff sint_cdiv signed_divide_int_def) (simp add: abs_mult_sgn sgn_mult mult_sgn_abs)

lemma Usec_conv [simp]:
  "UsecFromTp t = t" "UsecFromDur t = t" "TpFromUsec t = t" "DurFromUsec t = t"
  by (simp_all add: UsecFromTp_def UsecFromDur_def TpFromUsec_def DurFromUsec_def)

lemma invalid_eq: "tpInvalid = usecInvalid" "durInvalid = usecInvalid"
  by (simp_all add: tpInvalid_def durInvalid_def)

lemma sint_usecInvalid [simp]: "sint usecInvalid = 2 ^ 63 - 1"
  by (simp add: usecInvalid_def)

lemma sint_invalid [simp]: "sint tpInvalid = 2 ^ 63 - 1" "sint durInvalid = 2 ^ 63 - 1"
  by (simp_all add: invalid_eq)

lemma valid_iff: "a \<noteq> tpInvalid \<longleftrightarrow> sint a < 2 ^ 63 - 1" "d \<noteq> durInvalid \<longleftrightarrow> sint d < 2 ^ 63 - 1"
  using sint_int64_bounds [of a] sint_int64_bounds [of d] by (auto simp: int64_eq_iff)

lemma diff_invalid [simp]: "diff tpInvalid b = durInvalid" "diff a tpInvalid = durInvalid"
  by (simp_all add: diff_def)

lemma sint_diff:
  assumes "a \<noteq> tpInvalid" "b \<noteq> tpInvalid" "in_int64 (sint a - sint b)"
  shows "sint (diff a b) = sint a - sint b"
  using assms by (simp add: diff_def sint_diff_int64)

text \<open>The difference of two valid time points is itself mistaken for invalid only when they are
  nearly \<open>2 ^ 63\<close> microseconds apart.\<close>

lemma diff_invalid_iff:
  assumes "in_int64 (sint a - sint b)" "sint a - sint b < 2 ^ 63 - 1"
  shows "diff a b = durInvalid \<longleftrightarrow> a = tpInvalid \<or> b = tpInvalid"
proof (cases "a = tpInvalid \<or> b = tpInvalid")
  case False
  then have "sint (diff a b) = sint a - sint b" using assms(1) by (simp add: sint_diff)
  with assms(2) False show ?thesis by (auto simp: int64_eq_iff [of "diff a b"])
qed auto

lemma diff_forward:
  assumes "m \<noteq> tpInvalid" "r \<noteq> tpInvalid" "sint m \<le> sint r" "in_int64 (sint r - sint m + 1)"
  shows "diff r m = r - m" "sint (r - m) = sint r - sint m" "diff r m \<noteq> durInvalid" "\<not> diff r m <s 0"
proof -
  have i: "in_int64 (sint r - sint m)" using assms(3,4) by (simp add: in_int64_def)
  show d: "diff r m = r - m" using assms by (simp add: diff_def)
  show e: "sint (r - m) = sint r - sint m" by (rule sint_diff_int64 [OF i])
  show "diff r m \<noteq> durInvalid" using assms(4) by (simp add: d e valid_iff in_int64_def)
  show "\<not> diff r m <s 0" using assms(3) by (simp add: d e word_sless_alt)
qed

section \<open>The wire form does not depend on the host\<close>

lemma rev_rev_be: "be_bytes (bswap64 x) = rev (be_bytes x)"
  by (simp add: bswap64_def be_bytes_of_be_bytes)

lemma BytesFromTp_be: "BytesFromTp be t = be_bytes t"
  by (simp add: BytesFromTp_def host_bytes_def REORDER_def rev_rev_be)

lemma TpFromBytes_be: "length bs = 8 \<Longrightarrow> TpFromBytes be bs = of_be_bytes bs"
  by (simp add: TpFromBytes_def host_word_def REORDER_def bswap64_def be_bytes_of_be_bytes)

interpretation tp_wire: fixed_codec "BytesFromTp be" "TpFromBytes be" 8 "\<lambda>_. True"
  for be
  by unfold_locales (simp_all add: BytesFromTp_be TpFromBytes_be codec_simps)

lemma TpFromBytes_take: "TpFromBytes be (take 8 bs) = TpFromBytes be bs"
  by (simp add: TpFromBytes_def)

text \<open>C35: Whatever the byte order of the host that wrote a timestamp and of the host that reads
  it, the reader gets the timestamp back, and the bytes in between are big endian.\<close>

theorem timestamp_wire_roundtrip:
  "TpFromBytes be' (BytesFromTp be t) = t \<and> BytesFromTp be t = be_bytes t"
  by (simp add: BytesFromTp_be TpFromBytes_be codec_simps)

section \<open>The textual form\<close>

lemma sdiv_smod_usec:
  assumes "0 \<le> sint t"
  shows "cdiv t 1000000 = word_of_int (sint t div 1000000)" "cmod t 1000000 = word_of_int (sint t mod 1000000)"
  using assms by (simp_all add: cdiv_def cmod_def signed_divide_int_def signed_modulo_int_def minus_mult_div_eq_mod
      sgn_if mult.commute)

lemma sint_int32_of: "- (2 ^ 31) \<le> k \<Longrightarrow> k < 2 ^ 31 \<Longrightarrow> sint (word_of_int k :: int32) = k"
  by (simp add: sint_sbintrunc' signed_take_bit_int_eq_self)

lemma ucast_of_int64 [simp]: "(ucast (word_of_int k :: int64) :: int32) = word_of_int k"
  by (simp add: unsigned_of_int word_of_int_eq_iff take_bit_take_bit min_def)

lemma format_scan:
  "scan format (''<time '' @ s) [] = scan [ConvD None, Space, ConvD (Some 6), Lit (CHR ''>'')] (dropWhile isspace s) []"
  by (simp add: format_def del: scan.simps(4)) (simp add: isspace_def del: scan.simps(4))

lemma dropWhile_space_pad: "dropWhile isspace (pad_left w s @ r) = dropWhile isspace (s @ r)"
proof -
  have "dropWhile isspace (replicate n (CHR '' '') @ s @ r) = dropWhile isspace (s @ r)" for n
    by (induction n) (simp_all add: isspace_def)
  then show ?thesis by (simp add: pad_left_def)
qed

lemma StringFromTp_nonneg:
  assumes "0 \<le> sint t" "sint t < 2 ^ 31 * 1000000"
  shows "StringFromTp t = ''<time '' @ show_nat (nat (sint t div 1000000)) @ '' '' @
    pad_left 6 (show_nat (nat (sint t mod 1000000))) @ ''>''"
proof -
  have "0 \<le> sint t div 1000000" "sint t div 1000000 < 2 ^ 31"
    using assms by simp_all
  moreover have "sint t mod 1000000 < 2 ^ 31" by (rule less_trans [OF pos_mod_bound]) simp_all
  moreover have "\<not> sint t mod 1000000 < 0" using pos_mod_sign [of 1000000 "sint t"] by linarith
  ultimately show ?thesis
    using assms(1) by (simp add: StringFromTp_def format_def sdiv_smod_usec sint_int32_of show_int_def Let_def)
qed

lemma no_nul_show: "c \<in> set (show_nat n) \<Longrightarrow> 0 < (of_char c :: nat)"
  using show_nat_digits [of c n] by (auto simp: isdigit_def)

lemma c_str_append: "\<forall>c \<in> set s. (of_char c :: nat) \<noteq> 0 \<Longrightarrow> c_str (s @ r) = s @ c_str r"
  by (simp add: c_str_def)

lemma c_str_id: "\<forall>c \<in> set s. (of_char c :: nat) \<noteq> 0 \<Longrightarrow> c_str s = s"
  using c_str_append [of s "[]"] by (simp add: c_str_def)

lemma scan_time:
  assumes "n < 2 ^ 31" "m < 1000000"
  shows "sscanf (''<time '' @ show_nat n @ '' '' @ pad_left 6 (show_nat m) @ ''>'') format
    = (2, [IntV (word_of_int (int n)), IntV (word_of_int (int m))])"
proof -
  let ?s = "''<time '' @ show_nat n @ '' '' @ pad_left 6 (show_nat m) @ ''>''"
  have "c_str ?s = ?s"
    by (rule c_str_id) (auto simp: pad_left_def no_nul_show)
  moreover have "length (show_nat m) \<le> 6" using assms(2) by (intro length_show_nat) simp_all
  moreover have "\<not> isdigit (CHR '' '')" "\<not> isdigit (CHR ''>'')" "isspace (CHR '' '')" "\<not> isspace (CHR ''>'')"
    by (simp_all add: isdigit_def isspace_def)
  ultimately show ?thesis
    using assms by (simp only: sscanf_def format_scan append_assoc dropWhile_space_show)
      (simp add: dropWhile_space_pad scan_number_show scan_number_show_width strtol_value_def min_def Let_def)
qed

text \<open>Reading back goes through a 32-bit \<open>int\<close>: of a time before 2038 only the low 32 bits of
  its microseconds survive.\<close>

lemma TpFromString_StringFromTp:
  assumes "0 \<le> sint t" "sint t < 2 ^ 31 * 1000000"
  shows "TpFromString (StringFromTp t) = scast (ucast t :: int32)"
proof -
  let ?n = "nat (sint t div 1000000)" and ?m = "nat (sint t mod 1000000)"
  have n: "?n < 2 ^ 31" "?m < 1000000" "int ?n = sint t div 1000000" "int ?m = sint t mod 1000000"
    using assms by (simp_all add: nat_less_iff)
  have "(word_of_int (sint t div 1000000) :: int32) * 1000000 + word_of_int (sint t mod 1000000)
      = word_of_int (sint t div 1000000 * 1000000 + sint t mod 1000000)"
    by (simp only: of_int_add of_int_mult of_int_numeral)
  also have "\<dots> = (ucast (word_of_int (sint t) :: int64) :: int32)"
    by (simp only: div_mult_mod_eq ucast_of_int64)
  finally show ?thesis
    using scan_time [OF n(1,2)] n(3,4) assms
    by (simp only: StringFromTp_nonneg TpFromString_def) (simp only: prod.case list.case cval.case, simp)
qed

lemma sint_ucast_small:
  assumes "- (2 ^ 31) \<le> sint t" "sint t < 2 ^ 31"
  shows "sint (ucast (t :: int64) :: int32) = sint t"
proof -
  have a: "(word_of_int (sint t) :: int64) = t" by simp
  have "(ucast t :: int32) = word_of_int (sint t)"
    using ucast_of_int64 [of "sint t"] by (simp only: a)
  then show ?thesis using assms by (simp only: sint_int32_of)
qed

lemma scast_ucast_small:
  assumes "- (2 ^ 31) \<le> sint t" "sint t < 2 ^ 31"
  shows "scast (ucast (t :: int64) :: int32) = t"
proof -
  have a: "(word_of_int (sint t) :: int64) = t" by simp
  from sint_ucast_small [OF assms] have "scast (ucast t :: int32) = (word_of_int (sint t) :: int64)"
    by (simp only: scast_eq)
  then show ?thesis by (simp only: a)
qed

text \<open>A timestamp of the first 2147 seconds after the epoch is printed and read back unchanged.
  This is as far as it goes: \<open>timestamp_string_truncates\<close>.\<close>

theorem timestamp_string_roundtrip:
  assumes "0 \<le> sint t" "sint t < 2 ^ 31"
  shows "TpFromString (StringFromTp t) = t"
  using assms by (simp add: TpFromString_StringFromTp scast_ucast_small)

theorem timestamp_string_roundtrip_witness:
  "TpFromString (StringFromTp 1234567) = 1234567"
  by (rule timestamp_string_roundtrip) simp_all

text \<open>For every time up to 2038, printing and reading back keeps only the low 32 bits of the
  microseconds, because \<^verbatim>\<open>sec * 1000000 + usec\<close> is computed in \<^verbatim>\<open>int\<close>: the time comes back
  exactly when it lies within 2147 seconds of the epoch.\<close>

theorem timestamp_string_truncates:
  assumes "0 \<le> sint t" "sint t < 2 ^ 31 * 1000000"
  shows "TpFromString (StringFromTp t) = scast (ucast t :: int32) \<and>
    (TpFromString (StringFromTp t) = t \<longleftrightarrow> sint t < 2 ^ 31)"
proof -
  have e: "TpFromString (StringFromTp t) = scast (ucast t :: int32)"
    by (rule TpFromString_StringFromTp [OF assms])
  have "sint (scast (ucast t :: int32) :: int64) < 2 ^ 31"
    using sint_less [of "ucast t :: int32"] by (simp add: sint_up_scast is_up_def source_size target_size)
  then show ?thesis
    using e assms scast_ucast_small [of t] by (auto simp: int64_eq_iff)
qed

theorem timestamp_string_truncates_witness:
  "TpFromString (StringFromTp 1616703831040503) \<noteq> 1616703831040503"
  using timestamp_string_truncates [of 1616703831040503] by simp

lemma length_show_int: "0 < k \<Longrightarrow> \<bar>n\<bar> < 10 ^ k \<Longrightarrow> length (show_int n) \<le> Suc k"
  using length_show_nat [of k "nat n"] length_show_nat [of k "nat (- n)"]
  by (auto simp: show_int_def nat_less_iff)

lemma sint_ucast_cmod:
  "\<bar>sint (ucast (cmod t 1000000) :: int32)\<bar> < 10 ^ 6"
proof -
  have b: "\<bar>sint t smod 1000000\<bar> < 1000000"
    using pos_mod_bound [of 1000000 "\<bar>sint t\<bar>"] pos_mod_sign [of 1000000 "\<bar>sint t\<bar>"]
    by (simp add: smod_int_alt_def abs_mult sgn_if)
  then show ?thesis
    by (simp add: cmod_def) (subst sint_int32_of; simp add: abs_less_iff)
qed

text \<open>Whatever the time, the text and its terminating NUL fit in the 33 bytes of the buffer
  that \<open>StringFromTp\<close> prints into.\<close>

theorem timestamp_string_fits_buffer: "length (StringFromTp t) + 1 \<le> 10 + (22 - 6) + 7"
proof -
  let ?s = "ucast (cdiv t 1000000) :: int32" and ?u = "ucast (cmod t 1000000) :: int32"
  have "\<bar>sint ?s\<bar> < 10 ^ 10"
    using sint_greater_eq [of ?s] sint_less [of ?s] by simp
  then have "length (show_int (sint ?s)) \<le> 11" using length_show_int [of 10 "sint ?s"] by simp
  moreover have "length (show_int (sint ?u)) \<le> 7"
    using length_show_int [of 6 "sint ?u"] sint_ucast_cmod [of t] by simp
  ultimately show ?thesis
    by (simp add: StringFromTp_def format_def pad_left_def Let_def)
qed

text \<open>Of a time before the epoch, a six-digit microsecond part loses its last digit when it is
  read back, because the sign takes one of the six columns of \<^verbatim>\<open>%6d\<close>.\<close>

theorem timestamp_string_negative: "TpFromString (StringFromTp (- 1123456)) = - 1012345"
proof -
  have c: "cdiv (- 1123456) 1000000 = - 1" "cmod (- 1123456) 1000000 = - 123456"
    by (simp_all add: cdiv_def cmod_def signed_modulo_int_def signed_divide_int_def)
  have e: "sint (ucast (- 1 :: int64) :: int32) = - 1"
    using ucast_of_int64 [of "- 1"] by simp
  have d: "show_int (- 1) = ''-1''" "show_int (- 123456) = ''-123456''"
    by (simp_all add: show_eval)
  have "StringFromTp (- 1123456) = ''<time -1 -123456>''"
    by (simp add: StringFromTp_def format_def c d e pad_left_def)
  moreover have "sscanf ''<time -1 -123456>'' format = (2, [IntV (- 1), IntV (- 12345)])"
    by (simp add: sscanf_eval format_def)
  ultimately show ?thesis by (simp add: TpFromString_def)
qed

end
