(* ===== verification/Platform.thy ===== *)
theory Platform
  imports Timestamp
begin

text \<open>
  What surrounds the process and is not under \<open>src/\<close>: the system's clock, the datagrams the
  kernel has for its socket, what its system calls return, and what it has sent and printed.
  All of it is input to the model: the fields \<open>sys_now\<close>, \<open>selects\<close>, \<open>recvs\<close> and \<open>sendtos\<close> are
  scripts that the environment chooses freely, and every theorem quantifies over them.

  \<^item> \<open>sys_now n\<close> is what the \<open>n\<close>th call of \<^verbatim>\<open>std::chrono::system_clock::now()\<close> returns, in the
    nanoseconds since the epoch that the C++ library on Linux counts; nothing makes it monotone.
  \<^item> \<open>selects\<close> are the next results of \<open>select(2)\<close>; an exhausted list is silence, a time-out.
    \<open>waited\<close> records the time-outs, in seconds and microseconds, that were passed to it.
  \<^item> \<open>recvs\<close> are the next results of \<open>recvfrom(2)\<close>; when it is exhausted the call blocks for ever.
  \<^item> \<open>sendtos\<close> are the next results of \<open>sendto(2)\<close>; an exhausted list accepts every datagram.

  A method that the program calls on an object is a \<open>call\<close> on the whole state, so that reading a
  clock can change the state, as it does for a \<open>ClockClient\<close>.
\<close>

text \<open>A socket address as \<open>recvfrom\<close> stores it: family, the text of its host, and its port in
  network byte order.\<close>

datatype family = AF_INET | AF_INET6 | AF_OTHER

record sockaddr =
  sa_family :: family
  sa_host :: string
  sa_port :: uint16

datatype recvfrom_result = Datagram "byte list" sockaddr | RecvFail int

datatype sendto_result = Accepted nat | SendFail int

record os =
  sys_now :: "nat \<Rightarrow> int64"
  sys_reads :: nat
  selects :: "int list"
  waited :: "(int64 \<times> int64) list"
  recvs :: "recvfrom_result list"
  sendtos :: "sendto_result list"
  sent :: "(byte list \<times> sockaddr option) list"
  cout :: "string list"

section \<open>Clocks\<close>

text \<open>The operations of the abstract class \<open>Clock\<close>, as an object of a derived class has them.\<close>

record 'w Clock =
  getValue :: "('w, tp) call"
  getPhase :: "('w, tp) call \<Rightarrow> ('w, dur) call"
  die :: "('w, unit) call"

text \<open>\<open>Clock::getPhase\<close>. C++ leaves the order in which \<open>diff\<close>'s two arguments are read open; the
  model reads this clock first.\<close>

definition Clock_getPhase :: "('w, tp) call \<Rightarrow> ('w, tp) call \<Rightarrow> ('w, dur) call" where
  "Clock_getPhase this c w = do {
     (a, w) \<leftarrow> this w;
     (b, w) \<leftarrow> c w;
     Some (diff a b, w)
   }"

definition Clock_die :: "('w, unit) call" where
  "Clock_die w = Some ((), w)"

text \<open>\<open>SystemClock::getValue\<close>: the nanoseconds of \<open>now()\<close>, rounded towards zero to microseconds.\<close>

definition SystemClock_getValue :: "('a os_scheme, tp) call" where
  "SystemClock_getValue w =
    (let now = sys_now w (sys_reads w)
     in Some (TpFromUsec (cdiv now 1000), w\<lparr>sys_reads := Suc (sys_reads w)\<rparr>))"

definition SystemClock :: "'a os_scheme Clock" where
  "SystemClock = \<lparr>getValue = SystemClock_getValue, getPhase = Clock_getPhase SystemClock_getValue,
     die = Clock_die\<rparr>"

text \<open>The value of the next reading.\<close>

definition sys_time :: "'a os_scheme \<Rightarrow> tp" where
  "sys_time w = cdiv (sys_now w (sys_reads w)) 1000"

lemma SystemClock_getValue_eq [call_simps]:
  "SystemClock_getValue w = Some (sys_time w, w\<lparr>sys_reads := Suc (sys_reads w)\<rparr>)"
  by (simp add: SystemClock_getValue_def sys_time_def)

lemma SystemClock_simps [call_simps]:
  "getValue SystemClock = SystemClock_getValue"
  "getPhase SystemClock = Clock_getPhase SystemClock_getValue"
  "die SystemClock = Clock_die"
  by (simp_all add: SystemClock_def)

lemma sint_sys_time: "sint (sys_time w) = sint (sys_now w (sys_reads w)) sdiv 1000"
  by (simp add: sys_time_def sint_cdiv)

lemma sys_time_bounds: "\<bar>sint (sys_time w)\<bar> \<le> 2 ^ 63 div 1000"
proof -
  let ?n = "sint (sys_now w (sys_reads w))"
  have "\<bar>?n\<bar> \<le> 2 ^ 63" using sint_int64_bounds [of "sys_now w (sys_reads w)"] by linarith
  moreover have "\<bar>?n sdiv 1000\<bar> = \<bar>?n\<bar> div 1000"
    by (auto simp: sdiv_pos_cases pos_imp_zdiv_nonneg_iff)
  ultimately show ?thesis
    unfolding sint_sys_time by (simp add: zdiv_mono1 del: div_le_dividend)
qed

lemma sys_time_valid [simp]: "sys_time w \<noteq> tpInvalid"
  using sys_time_bounds [of w] by (auto simp: valid_iff)

text \<open>The system clock never reads as the invalid time, and its readings are so small (less
  than \<open>2 ^ 63 / 1000\<close>) that no difference of two of them overflows or is mistaken for the invalid
  duration.\<close>

theorem system_clock_valid:
  "SystemClock_getValue w = Some (sys_time w, w\<lparr>sys_reads := Suc (sys_reads w)\<rparr>)
   \<and> sys_time w \<noteq> tpInvalid
   \<and> sint (diff (sys_time w) (sys_time w')) = sint (sys_time w) - sint (sys_time w')
   \<and> diff (sys_time w) (sys_time w') \<noteq> durInvalid"
proof -
  have b: "\<bar>sint (sys_time w)\<bar> \<le> 2 ^ 63 div 1000" "\<bar>sint (sys_time w')\<bar> \<le> 2 ^ 63 div 1000"
    by (rule sys_time_bounds)+
  then have v: "sys_time w \<noteq> tpInvalid" "sys_time w' \<noteq> tpInvalid"
    by (auto simp: valid_iff)
  have "in_int64 (sint (sys_time w) - sint (sys_time w'))"
    by (rule in_int64I) (use b in \<open>simp add: abs_le_iff abs_less_iff\<close>)
  then have d: "sint (diff (sys_time w) (sys_time w')) = sint (sys_time w) - sint (sys_time w')"
    using v by (simp add: sint_diff)
  moreover have "diff (sys_time w) (sys_time w') \<noteq> durInvalid"
    unfolding valid_iff d using b by (simp add: abs_le_iff)
  ultimately show ?thesis using v by (simp add: SystemClock_getValue_eq)
qed

text \<open>The interface of a clock's readings: its methods return, and reading it leaves alone the part
  of the state that \<open>view\<close> selects.\<close>

locale readable =
  fixes read :: "('w, tp) call" and view :: "'w \<Rightarrow> 'v"
  assumes reads: "\<exists>t w'. read w = Some (t, w')"
    and read_view: "read w = Some (t, w') \<Longrightarrow> view w' = view w"
begin

lemma readE:
  obtains t w' where "read w = Some (t, w')" "view w' = view w"
  using reads read_view by metis

lemma Clock_getPhase_view:
  "Clock_getPhase read read w = Some (d, w') \<Longrightarrow> view w' = view w"
  by (auto simp: Clock_getPhase_def Option.bind_eq_Some_conv dest!: read_view)

lemma Clock_getPhase_reads: "\<exists>d w'. Clock_getPhase read read w = Some (d, w')"
  by (metis (no_types, lifting) Clock_getPhase_def bind.bind_lunit case_prod_conv reads)

end

text \<open>The system clock is readable, and reading it consumes nothing but its own script.\<close>

interpretation sys: readable SystemClock_getValue "\<lambda>w. w\<lparr>sys_reads := 0\<rparr>"
  by unfold_locales (auto simp: SystemClock_getValue_eq)

end
