(* ===== verification/Kissnet.thy ===== *)
theory Kissnet
  imports Platform
begin

text \<open>
  The part of \<open>kissnet.hpp\<close> that the program runs: error handling without exceptions, endpoints,
  socket status, and the UDP socket with its constructor, \<open>bind\<close>, \<open>select\<close>, \<open>send\<close>, \<open>recv\<close>, \<open>close\<close>
  and \<open>get_recv_endpoint\<close>, over the system calls of \<open>Platform\<close>. \<open>getaddrinfo\<close> and \<open>socket(2)\<close> are
  arguments of the constructor. \<open>Sockets\<close>, \<open>Connect\<close>, \<open>SocketIO\<close> and \<open>Multicast\<close> have the parts that ClockKit does not call.

  A fatal error ends in the error handler: \<open>on_fatal\<close> says how the process stops, if it does.

  The lemmas give the results of \<open>send\<close>, \<open>recv\<close> and \<open>select\<close> on every branch, and what an
  endpoint's text is parsed to.
\<close>

section \<open>Errors\<close>

datatype stop = Exit int | Abort

record error_state =
  callback :: bool
  abortOnFatalError :: bool

definition error_initial :: error_state where
  "error_initial = \<lparr>callback = False, abortOnFatalError = True\<rparr>"

text \<open>\<open>kissnet_init\<close> installs \<open>kissnet_error\<close>, which prints a message and exits.\<close>

definition kissnet_init :: "error_state \<Rightarrow> error_state" where
  "kissnet_init e = e\<lparr>abortOnFatalError := False, callback := True\<rparr>"

definition kissnet_error :: "string \<Rightarrow> string \<times> stop" where
  "kissnet_error s =
    (if s = ''bind() failed'' @ [CHR 0x0A]
     then ''bind() failed: bad port number, or another ckserver might be running on that port.'' @ [CHR 0x0A]
     else s @ [CHR 0x0A], Exit 1)"

text \<open>\<open>error::handle\<close>: the message on stderr, and how the process stops (\<open>None\<close>: it goes on).\<close>

definition handle :: "error_state \<Rightarrow> string \<Rightarrow> string \<times> stop option" where
  "handle e str =
    (if callback e then (fst (kissnet_error str), Some (snd (kissnet_error str)))
     else (str, if abortOnFatalError e then Some Abort else None))"

definition on_fatal :: "error_state \<Rightarrow> string \<Rightarrow> stop option" where
  "on_fatal e str = snd (handle e str)"

section \<open>Endpoints\<close>

record endpoint =
  address :: string
  port :: uint16

definition is_valid_port_number :: "nat \<Rightarrow> bool" where
  "is_valid_port_number n \<longleftrightarrow> n < 2 ^ 16"

definition endpoint_new :: "string \<Rightarrow> uint16 \<Rightarrow> endpoint" where
  "endpoint_new addr prt = \<lparr>address = addr, port = prt\<rparr>"

text \<open>\<open>std::string::find_last_of\<close> for one character: the last position, if any.\<close>

fun find_last_of :: "char \<Rightarrow> string \<Rightarrow> nat option" where
  "find_last_of c [] = None"
| "find_last_of c (x # xs) = (case find_last_of c xs of
      Some i \<Rightarrow> Some (Suc i)
    | None \<Rightarrow> if x = c then Some 0 else None)"

text \<open>\<open>strtoul\<close> in base ten: 0 when there is no number.\<close>

definition strtoul10 :: "string \<Rightarrow> nat" where
  "strtoul10 s = (case scan_number None (dropWhile isspace (c_str s)) of
      None \<Rightarrow> 0
    | Some (neg, m, _) \<Rightarrow> nat (strtoul_value neg m))"

text \<open>The endpoint of \<^verbatim>\<open>"address:port"\<close>, or the message of the fatal error.\<close>

definition endpoint_of_string :: "string \<Rightarrow> string + endpoint" where
  "endpoint_of_string addr = (case find_last_of (CHR '':'') addr of
      None \<Rightarrow> Inl ''string is not of address:port form''
    | Some separator \<Rightarrow>
        if separator = length addr - 1
        then Inl ''string has : as last character. Expected port number here''
        else let parsed_port = strtoul10 (drop (separator + 1) addr) in
          if \<not> is_valid_port_number parsed_port
          then Inl (''Invalid port number '' @ show_nat parsed_port)
          else Inr \<lparr>address = take separator addr, port = of_nat parsed_port\<rparr>)"

definition ntohs :: "uint16 \<Rightarrow> uint16" where
  "ntohs p = push_bit 8 p OR drop_bit 8 p"

definition endpoint_of_sockaddr :: "sockaddr \<Rightarrow> string + endpoint" where
  "endpoint_of_sockaddr a =
    (let made = (case sa_family a of
          AF_INET \<Rightarrow> Some (endpoint_new (sa_host a) (ntohs (sa_port a)))
        | AF_INET6 \<Rightarrow> Some (endpoint_new (sa_host a) (ntohs (sa_port a)))
        | AF_OTHER \<Rightarrow> None)
     in case made of
          None \<Rightarrow> Inl ''Trying to construct an endpoint for a protocol familly that is neither AF_INET or AF_INET6''
        | Some e \<Rightarrow> if address e = [] then Inl ''Couldn't construct endpoint from sockaddr(_storage) struct'' else Inr e)"

section \<open>Socket status\<close>

datatype socket_status = errored | valid | cleanly_disconnected | non_blocking_would_have_blocked | timed_out

fun status_value :: "socket_status \<Rightarrow> int" where
  "status_value errored = 0"
| "status_value valid = 1"
| "status_value cleanly_disconnected = 2"
| "status_value non_blocking_would_have_blocked = 3"
| "status_value timed_out = 4"

definition status_bool :: "socket_status \<Rightarrow> bool" where
  "status_bool s \<longleftrightarrow> 0 < status_value s"

text \<open>The enumeration's values order it; every status above \<open>errored\<close> converts to true.\<close>

lemma status_value_inject: "status_value s = status_value t \<longleftrightarrow> s = t"
  by (cases s; cases t) simp_all

instantiation socket_status :: linorder
begin

definition less_eq_socket_status :: "socket_status \<Rightarrow> socket_status \<Rightarrow> bool" where
  "less_eq_socket_status s t \<longleftrightarrow> status_value s \<le> status_value t"

definition less_socket_status :: "socket_status \<Rightarrow> socket_status \<Rightarrow> bool" where
  "less_socket_status s t \<longleftrightarrow> status_value s < status_value t"

instance
  by standard (auto simp: less_eq_socket_status_def less_socket_status_def status_value_inject)

end

lemma status_bool_iff: "status_bool s \<longleftrightarrow> errored < s"
  by (simp add: status_bool_def less_socket_status_def)

type_synonym bytes_with_status = "nat \<times> socket_status"

section \<open>The UDP socket\<close>

text \<open>A candidate address of \<open>getaddrinfo\<close> is the address to send to.\<close>

definition INVALID_SOCKET :: int where
  "INVALID_SOCKET = - 1"

record udp_socket =
  sock :: int
  bind_loc :: endpoint
  getaddrinfo_results :: "sockaddr list"
  socket_addrinfo :: "sockaddr option"
  socket_input :: sockaddr

definition no_sockaddr :: sockaddr where
  "no_sockaddr = \<lparr>sa_family = AF_OTHER, sa_host = [], sa_port = 0\<rparr>"

text \<open>The first candidate for which \<open>socket(2)\<close> succeeds.\<close>

fun first_socket :: "(sockaddr \<Rightarrow> int) \<Rightarrow> sockaddr list \<Rightarrow> int \<times> sockaddr option" where
  "first_socket syscall_socket [] = (INVALID_SOCKET, None)"
| "first_socket syscall_socket (a # as) =
    (let s = syscall_socket a in
     if s \<noteq> INVALID_SOCKET then (s, Some a) else first_socket syscall_socket as)"

text \<open>The constructor: the message of the fatal error, or the socket. \<open>getaddrinfo\<close> gives \<open>None\<close>
  when it fails.\<close>

definition udp_socket_new ::
  "(string \<Rightarrow> string \<Rightarrow> sockaddr list option) \<Rightarrow> (sockaddr \<Rightarrow> int) \<Rightarrow> endpoint \<Rightarrow> string + udp_socket" where
  "udp_socket_new getaddrinfo syscall_socket bind_to =
    (case getaddrinfo (address bind_to) (show_nat (unat (port bind_to))) of
      None \<Rightarrow> Inl ''getaddrinfo failed!''
    | Some results \<Rightarrow>
        let (s, info) = first_socket syscall_socket results in
        if s = INVALID_SOCKET then Inl ''unable to create socket!''
        else Inr \<lparr>sock = s, bind_loc = bind_to, getaddrinfo_results = results, socket_addrinfo = info,
          socket_input = no_sockaddr\<rparr>)"

text \<open>\<open>bind\<close>: \<open>syscall_bind\<close> gives whether \<open>bind(2)\<close> succeeds on the socket's own address. Without
  an address it would follow a null pointer; the constructor leaves none without (\<open>udp_socket_new_Inr\<close>).\<close>

definition udp_bind :: "(int \<Rightarrow> sockaddr \<Rightarrow> bool) \<Rightarrow> udp_socket \<Rightarrow> string + unit" where
  "udp_bind syscall_bind s = (case socket_addrinfo s of
      None \<Rightarrow> Inl ''null socket_addrinfo''
    | Some a \<Rightarrow> if syscall_bind (sock s) a then Inr () else Inl (''bind() failed'' @ [CHR 0x0A]))"

definition udp_close :: "udp_socket \<Rightarrow> udp_socket" where
  "udp_close s = s\<lparr>sock := INVALID_SOCKET\<rparr>"

definition EWOULDBLOCK :: int where
  "EWOULDBLOCK = 11"

definition EAGAIN :: int where
  "EAGAIN = 11"

text \<open>The time-out of \<open>select(2)\<close> in seconds and microseconds.\<close>

definition select_timeval :: "int64 \<Rightarrow> int64 \<times> int64" where
  "select_timeval timeout = (cdiv timeout 1000, 1000 * cmod timeout 1000)"

definition udp_select :: "int64 \<Rightarrow> ('a os_scheme, socket_status) call" where
  "udp_select timeout w =
    (let w = w\<lparr>waited := waited w @ [select_timeval timeout]\<rparr>
     in case selects w of
          [] \<Rightarrow> Some (timed_out, w)
        | ret # rest \<Rightarrow>
            Some (if ret = - 1 then errored else if ret = 0 then timed_out else valid, w\<lparr>selects := rest\<rparr>))"

definition udp_send :: "udp_socket \<Rightarrow> byte list \<Rightarrow> sockaddr option \<Rightarrow> ('a os_scheme, bytes_with_status) call" where
  "udp_send s buff addr w =
    (let dest = (case addr of Some a \<Rightarrow> Some a | None \<Rightarrow> socket_addrinfo s);
         (ret, rest) = (case sendtos w of [] \<Rightarrow> (Accepted (length buff), []) | r # rs \<Rightarrow> (r, rs));
         w = w\<lparr>sendtos := rest\<rparr>
     in case ret of
          SendFail e \<Rightarrow> Some ((0, if e = EWOULDBLOCK then non_blocking_would_have_blocked else errored), w)
        | Accepted n \<Rightarrow> Some ((n, valid), w\<lparr>sent := sent w @ [(buff, dest)]\<rparr>))"

text \<open>\<open>recv\<close> into a buffer: the kernel copies as much of the datagram as fits and drops the rest.
  The result is the byte count and status, the buffer's new contents and the socket, which
  remembers who sent it.\<close>

definition copy_into :: "byte list \<Rightarrow> byte list \<Rightarrow> byte list" where
  "copy_into data buffer = take (length buffer) data @ drop (length data) buffer"

definition udp_recv ::
  "udp_socket \<Rightarrow> byte list \<Rightarrow> ('a os_scheme, bytes_with_status \<times> byte list \<times> udp_socket) call" where
  "udp_recv s write_buff w = (case recvs w of
      [] \<Rightarrow> None
    | r # rest \<Rightarrow>
        let w = w\<lparr>recvs := rest\<rparr> in
        case r of
          RecvFail e \<Rightarrow>
            Some (((0, if e = EWOULDBLOCK then non_blocking_would_have_blocked
                       else if e = EAGAIN then non_blocking_would_have_blocked else errored), write_buff, s), w)
        | Datagram data from \<Rightarrow>
            let received_bytes = min (length data) (length write_buff); s = s\<lparr>socket_input := from\<rparr> in
            Some (((received_bytes, if received_bytes = 0 then cleanly_disconnected else valid),
              copy_into data write_buff, s), w))"

definition get_recv_endpoint :: "udp_socket \<Rightarrow> string + endpoint" where
  "get_recv_endpoint s = endpoint_of_sockaddr (socket_input s)"

section \<open>Errors and endpoints\<close>

text \<open>Until \<open>kissnet_init\<close> has run, a fatal socket error aborts the process; afterwards it exits
  with status 1, with the hint about the port when it was \<open>bind\<close> that failed.\<close>

theorem fatal_error_stops:
  "on_fatal error_initial msg = Some Abort
   \<and> on_fatal (kissnet_init e) msg = Some (Exit 1)
   \<and> kissnet_init (kissnet_init e) = kissnet_init e
   \<and> fst (handle (kissnet_init e) (''bind() failed'' @ [CHR 0x0A]))
       = ''bind() failed: bad port number, or another ckserver might be running on that port.'' @ [CHR 0x0A]"
  by (simp add: on_fatal_def handle_def error_initial_def kissnet_init_def kissnet_error_def)

lemma find_last_of_append:
  "c \<notin> set ys \<Longrightarrow> find_last_of c (xs @ c # ys) = Some (length xs)"
proof (induction xs)
  case Nil
  have "c \<notin> set ys \<Longrightarrow> find_last_of c ys = None" by (induction ys) auto
  with Nil show ?case by simp
next
  case (Cons x xs)
  then show ?case by simp
qed

lemma show_nat_no_colon: "CHR '':'' \<notin> set (show_nat n)"
  using show_nat_digits [of "CHR '':''" n] by (auto simp: isdigit_def)

lemma c_str_show [simp]: "c_str (show_nat n) = show_nat n"
  by (rule c_str_id) (simp add: no_nul_show)

lemma strtoul10_show: "n < 2 ^ 64 \<Longrightarrow> strtoul10 (show_nat n) = n"
  using scan_number_show [of "[]" n] dropWhile_space_show [of n "[]"]
  by (simp add: strtoul10_def strtoul_value_def)

text \<open>An endpoint's text, its host (in which colons may occur) and its port joined by a colon, is
  parsed back to the host and the port when the port fits 16 bits, and refused when it does not.\<close>

theorem endpoint_of_string_roundtrip:
  assumes "n < 2 ^ 64"
  shows "endpoint_of_string (host @ CHR '':'' # show_nat n) =
    (if n < 2 ^ 16 then Inr \<lparr>address = host, port = of_nat n\<rparr> else Inl (''Invalid port number '' @ show_nat n))"
proof -
  have f: "find_last_of (CHR '':'') (host @ CHR '':'' # show_nat n) = Some (length host)"
    by (rule find_last_of_append [OF show_nat_no_colon])
  have "length (show_nat n) \<noteq> 0" by simp
  with f assms show ?thesis
    by (simp add: endpoint_of_string_def strtoul10_show is_valid_port_number_def Let_def)
qed

theorem endpoint_of_string_roundtrip_witness:
  "endpoint_of_string (''::1'' @ CHR '':'' # show_nat 4444) = Inr \<lparr>address = ''::1'', port = 4444\<rparr>"
  by (subst endpoint_of_string_roundtrip) simp_all

lemma ntohs_ntohs: "ntohs (ntohs p) = p"
  by (rule bit_word_eqI) (auto simp: ntohs_def bit_simps not_le not_less)

section \<open>The socket's calls\<close>

lemma first_socket_props:
  "first_socket sys as = (s, info) \<Longrightarrow> s \<noteq> INVALID_SOCKET \<Longrightarrow> \<exists>a. info = Some a \<and> a \<in> set as \<and> sys a = s"
  by (induction as) (auto simp: Let_def split: if_splits)

lemma udp_socket_new_Inr:
  assumes "udp_socket_new gai sys e = Inr s"
  shows "sock s \<noteq> INVALID_SOCKET \<and> bind_loc s = e \<and> (\<exists>a. socket_addrinfo s = Some a \<and> a \<in> set (getaddrinfo_results s))"
  using assms
  by (fastforce simp: udp_socket_new_def split: option.splits prod.splits if_splits dest: first_socket_props)

lemma length_copy_into [simp]: "length (copy_into data buf) = length buf"
  by (simp add: copy_into_def)

lemma copy_into_full: "length buf \<le> length data \<Longrightarrow> copy_into data buf = take (length buf) data"
  by (simp add: copy_into_def)

lemma udp_recv_Some:
  assumes "udp_recv s buf w = Some (((n, st), buf', s'), w')"
  shows "length buf' = length buf" "n \<le> length buf"
    "\<exists>r. recvs w = r # recvs w' \<and> w' = w\<lparr>recvs := recvs w'\<rparr>
      \<and> (st = valid \<longrightarrow> (\<exists>data from. r = Datagram data from \<and> n = min (length data) (length buf) \<and> 0 < n
            \<and> buf' = copy_into data buf \<and> s' = s\<lparr>socket_input := from\<rparr>))
      \<and> (n = 0 \<longleftrightarrow> st \<noteq> valid)"
  using assms
  by (auto simp: udp_recv_def Let_def split: list.splits recvfrom_result.splits if_splits)

text \<open>A datagram longer than the buffer is not told from one that fills it: both are received as a
  full buffer with a valid status, so that the callers' test for the packet length lets through
  every datagram of at least 26 bytes.\<close>

theorem udp_recv_truncates:
  assumes "recvs w = Datagram data peer # rest" "length buf = n" "n \<le> length data" "0 < n"
  shows "udp_recv s buf w = Some (((n, valid), take n data, s\<lparr>socket_input := peer\<rparr>), w\<lparr>recvs := rest\<rparr>)"
  using assms by (simp add: udp_recv_def copy_into_full)

theorem udp_recv_truncates_witness:
  "udp_recv \<lparr>sock = 3, bind_loc = \<lparr>address = [], port = 0\<rparr>, getaddrinfo_results = [], socket_addrinfo = None,
     socket_input = no_sockaddr\<rparr> [0, 0] \<lparr>sys_now = (\<lambda>_. 0), sys_reads = 0, selects = [], waited = [],
     recvs = [Datagram [1, 2, 3] no_sockaddr], sendtos = [], sent = [], cout = []\<rparr>
   = Some (((2, valid), [1, 2], \<lparr>sock = 3, bind_loc = \<lparr>address = [], port = 0\<rparr>, getaddrinfo_results = [],
       socket_addrinfo = None, socket_input = no_sockaddr\<rparr>),
     \<lparr>sys_now = (\<lambda>_. 0), sys_reads = 0, selects = [], waited = [], recvs = [], sendtos = [], sent = [], cout = []\<rparr>)"
  by (subst udp_recv_truncates [where data = "[1, 2, 3]" and n = 2 and peer = no_sockaddr and rest = "[]"]) simp_all

lemma udp_send_eq:
  "udp_send s buf addr w = (case sendtos w of
      [] \<Rightarrow> Some ((length buf, valid),
        w\<lparr>sendtos := [], sent := sent w @ [(buf, case addr of Some a \<Rightarrow> Some a | None \<Rightarrow> socket_addrinfo s)]\<rparr>)
    | SendFail e # rs \<Rightarrow> Some ((0, if e = EWOULDBLOCK then non_blocking_would_have_blocked else errored), w\<lparr>sendtos := rs\<rparr>)
    | Accepted n # rs \<Rightarrow> Some ((n, valid),
        w\<lparr>sendtos := rs, sent := sent w @ [(buf, case addr of Some a \<Rightarrow> Some a | None \<Rightarrow> socket_addrinfo s)]\<rparr>))"
  by (auto simp: udp_send_def Let_def split: list.splits sendto_result.splits)

lemma select_timeval_eq:
  assumes "0 \<le> sint t"
  shows "sint (fst (select_timeval t)) * 1000000 + sint (snd (select_timeval t)) = sint t * 1000"
    "sint (snd (select_timeval t)) < 1000000"
proof -
  have a: "sint (cdiv t 1000) = sint t div 1000" using assms by (simp add: sint_cdiv sdiv_pos_cases)
  have r: "0 \<le> sint t mod 1000" "sint t mod 1000 < 1000" by simp_all
  have i: "in_int64 (sint t mod 1000)"
    by (rule in_int64_between [OF r]) simp_all
  have m: "sint (cmod t 1000) = sint t mod 1000"
    using assms sint_of_int64 [OF i]
    by (simp add: cmod_def signed_modulo_int_def signed_divide_int_def sgn_if minus_mult_div_eq_mod mult.commute)
  have "sint (1000 * cmod t 1000) = 1000 * (sint t mod 1000)"
    using in_int64_between [of 0 "1000 * (sint t mod 1000)" 1000000] sint_mult_int64 [of 1000 "cmod t 1000"]
    by (simp add: m)
  then have s: "sint (snd (select_timeval t)) = 1000 * (sint t mod 1000)"
    and f: "sint (fst (select_timeval t)) = sint t div 1000"
    by (simp_all add: select_timeval_def a)
  show "sint (fst (select_timeval t)) * 1000000 + sint (snd (select_timeval t)) = sint t * 1000"
    unfolding s f by presburger
  show "sint (snd (select_timeval t)) < 1000000" unfolding s using r by linarith
qed

end
