(* ===== verification/ClockPacket.thy ===== *)
theory ClockPacket
  imports Timestamp
begin

text \<open>
  \<open>ClockPacket\<close>: the 26-byte datagram of the protocol, its construction, its reading from and
  writing to a buffer, and the round-trip time, error bound and clock offset that are computed
  from its three timestamps.

  A type byte that is none of the five enumerators is kept as it is (\<open>CORRUPT\<close>), as the cast of a
  byte to the enumeration does; \<open>packet_ok\<close> says that a type is the one its byte stands for. The
  buffer is a list of 26 bytes. Hosts are little endian; \<open>timestamp_wire_roundtrip\<close> says that
  this makes no difference.

  The lemmas give the wire format as a codec, and bound the error of the offset.
\<close>

type_synonym seqnum = byte

datatype packet_type = INVALID | REQUEST | REPLY | ACKNOWLEDGE | KILL | CORRUPT byte

definition type_of_byte :: "byte \<Rightarrow> packet_type" where
  "type_of_byte b =
    (if b = 0 then INVALID else if b = 1 then REQUEST else if b = 2 then REPLY
     else if b = 3 then ACKNOWLEDGE else if b = 4 then KILL else CORRUPT b)"

fun byte_of_type :: "packet_type \<Rightarrow> byte" where
  "byte_of_type INVALID = 0"
| "byte_of_type REQUEST = 1"
| "byte_of_type REPLY = 2"
| "byte_of_type ACKNOWLEDGE = 3"
| "byte_of_type KILL = 4"
| "byte_of_type (CORRUPT b) = b"

record packet =
  type :: packet_type
  sequenceNumber :: seqnum
  clientRequestTime :: tp
  serverReplyTime :: tp
  clientReceiveTime :: tp

definition PACKET_LENGTH :: nat where
  "PACKET_LENGTH = 26"

definition ClockPacket_default :: packet where
  "ClockPacket_default = \<lparr>type = INVALID, sequenceNumber = 0, clientRequestTime = tpInvalid,
     serverReplyTime = tpInvalid, clientReceiveTime = tpInvalid\<rparr>"

definition ClockPacket_new :: "packet_type \<Rightarrow> seqnum \<Rightarrow> tp \<Rightarrow> packet" where
  "ClockPacket_new t n crt = \<lparr>type = t, sequenceNumber = n, clientRequestTime = crt,
     serverReplyTime = tpInvalid, clientReceiveTime = tpInvalid\<rparr>"

definition ClockPacket_read :: "byte list \<Rightarrow> packet" where
  "ClockPacket_read buffer =
    \<lparr>type = type_of_byte (buffer ! 0),
     sequenceNumber = buffer ! 1,
     clientRequestTime = TpFromBytes False (drop 2 buffer),
     serverReplyTime = TpFromBytes False (drop 10 buffer),
     clientReceiveTime = TpFromBytes False (drop 18 buffer)\<rparr>"

definition ClockPacket_write :: "packet \<Rightarrow> byte list" where
  "ClockPacket_write p =
    [byte_of_type (type p), sequenceNumber p]
    @ BytesFromTp False (clientRequestTime p)
    @ BytesFromTp False (serverReplyTime p)
    @ BytesFromTp False (clientReceiveTime p)"

fun getTypeName :: "packet_type \<Rightarrow> string" where
  "getTypeName INVALID = ''INVALID''"
| "getTypeName REQUEST = ''REQUEST''"
| "getTypeName REPLY = ''REPLY''"
| "getTypeName ACKNOWLEDGE = ''ACKNOWLEDGE''"
| "getTypeName KILL = ''KILL''"
| "getTypeName (CORRUPT b) = ''CORRUPT''"

definition invalid :: "packet \<Rightarrow> bool" where
  "invalid p \<longleftrightarrow> type p = INVALID"

definition setType :: "packet_type \<Rightarrow> packet \<Rightarrow> packet" where
  "setType t p = p\<lparr>type := t\<rparr>"

definition setServerReplyTime :: "tp \<Rightarrow> packet \<Rightarrow> packet" where
  "setServerReplyTime t p = p\<lparr>serverReplyTime := t\<rparr>"

definition setClientReceiveTime :: "tp \<Rightarrow> packet \<Rightarrow> packet" where
  "setClientReceiveTime t p = p\<lparr>clientReceiveTime := t\<rparr>"

definition rtt :: "packet \<Rightarrow> dur" where
  "rtt p = diff (clientReceiveTime p) (clientRequestTime p)"

definition getErrorBound :: "packet \<Rightarrow> dur" where
  "getErrorBound p = (let t = rtt p in if t = durInvalid then durInvalid else cdiv t 2)"

definition getClockOffset :: "packet \<Rightarrow> dur" where
  "getClockOffset p =
    (let bound = getErrorBound p
     in if serverReplyTime p = tpInvalid \<or> clientReceiveTime p = tpInvalid \<or> bound = durInvalid
        then durInvalid
        else serverReplyTime p - clientReceiveTime p + bound)"

text \<open>What \<open>print\<close> writes to standard output.\<close>

definition ClockPacket_print :: "packet \<Rightarrow> string list" where
  "ClockPacket_print p =
    [''--- Packet '' @ getTypeName (type p) @ '' ---'',
     ''  clientRequestTime '' @ StringFromTp (clientRequestTime p),
     ''    serverReplyTime '' @ StringFromTp (serverReplyTime p),
     ''  clientReceiveTime '' @ StringFromTp (clientReceiveTime p)]"

lemmas packet_setters [simp] = setType_def setServerReplyTime_def setClientReceiveTime_def

section \<open>The wire format\<close>

definition packet_ok :: "packet \<Rightarrow> bool" where
  "packet_ok p \<longleftrightarrow> type_of_byte (byte_of_type (type p)) = type p"

lemma byte_of_type_of_byte [codec_simps]: "byte_of_type (type_of_byte b) = b"
  by (simp add: type_of_byte_def)

lemma type_ok [simp]:
  "packet_ok (p\<lparr>type := INVALID\<rparr>)" "packet_ok (p\<lparr>type := REQUEST\<rparr>)" "packet_ok (p\<lparr>type := REPLY\<rparr>)"
  "packet_ok (p\<lparr>type := ACKNOWLEDGE\<rparr>)" "packet_ok (p\<lparr>type := KILL\<rparr>)"
  by (simp_all add: packet_ok_def type_of_byte_def)

interpretation type_wire: fixed_codec "\<lambda>t. [byte_of_type t]" "\<lambda>bs. type_of_byte (hd bs)" 1
  "\<lambda>t. type_of_byte (byte_of_type t) = t"
  by unfold_locales (auto simp: codec_simps length_Suc_conv)

interpretation seqnum_wire: fixed_codec "\<lambda>n :: seqnum. [n]" hd 1 "\<lambda>_. True"
  by unfold_locales (auto simp: length_Suc_conv)

interpretation header_wire: codec_pair "\<lambda>t. [byte_of_type t]" "\<lambda>bs. type_of_byte (hd bs)" 1
  "\<lambda>t. type_of_byte (byte_of_type t) = t" "\<lambda>n :: seqnum. [n]" hd 1 "\<lambda>_. True"
  by unfold_locales

interpretation times2_wire: codec_pair "BytesFromTp False" "TpFromBytes False" 8 "\<lambda>_. True"
  "BytesFromTp False" "TpFromBytes False" 8 "\<lambda>_. True"
  by unfold_locales

interpretation times3_wire: codec_pair "BytesFromTp False" "TpFromBytes False" 8 "\<lambda>_. True"
  "\<lambda>p. BytesFromTp False (fst p) @ BytesFromTp False (snd p)"
  "\<lambda>bs. (TpFromBytes False (take 8 bs), TpFromBytes False (drop 8 bs))" "8 + 8" "\<lambda>_. True \<and> True"
  by (intro codec_pair.intro tp_wire.fixed_codec_axioms times2_wire.pair.fixed_codec_axioms)

text \<open>The whole packet: a header of two bytes and three times.\<close>

interpretation packet_wire: codec_pair
  "\<lambda>p. [byte_of_type (fst p)] @ [snd p]" "\<lambda>bs. (type_of_byte (hd (take 1 bs)), hd (drop 1 bs))" "1 + 1"
  "\<lambda>p :: packet_type \<times> seqnum. type_of_byte (byte_of_type (fst p)) = fst p \<and> True"
  "\<lambda>p. BytesFromTp False (fst p) @ BytesFromTp False (fst (snd p)) @ BytesFromTp False (snd (snd p))"
  "\<lambda>bs. (TpFromBytes False (take 8 bs), TpFromBytes False (take 8 (drop 8 bs)), TpFromBytes False (drop 8 (drop 8 bs)))"
  "8 + (8 + 8)" "\<lambda>_. True \<and> True \<and> True"
  by (intro codec_pair.intro header_wire.pair.fixed_codec_axioms times3_wire.pair.fixed_codec_axioms)

text \<open>A packet as the tuple of its fields.\<close>

definition fields :: "packet \<Rightarrow> (packet_type \<times> seqnum) \<times> tp \<times> tp \<times> tp" where
  "fields p = ((type p, sequenceNumber p), clientRequestTime p, serverReplyTime p, clientReceiveTime p)"

lemma fields_inject: "fields p = fields q \<longleftrightarrow> p = q"
  by (cases p; cases q) (simp add: fields_def)

lemma ClockPacket_write_fields:
  "ClockPacket_write p = [byte_of_type (fst (fst (fields p)))] @ [snd (fst (fields p))] @
     BytesFromTp False (fst (snd (fields p))) @ BytesFromTp False (fst (snd (snd (fields p))))
     @ BytesFromTp False (snd (snd (snd (fields p))))"
  by (simp add: ClockPacket_write_def fields_def)

lemma ClockPacket_read_fields:
  assumes "length bs = PACKET_LENGTH"
  shows "fields (ClockPacket_read bs) =
    ((type_of_byte (hd (take 1 (take 2 bs))), hd (drop 1 (take 2 bs))),
     TpFromBytes False (take 8 (drop 2 bs)), TpFromBytes False (take 8 (drop 8 (drop 2 bs))),
     TpFromBytes False (drop 8 (drop 8 (drop 2 bs))))"
proof -
  from assms obtain a b cs where "bs = a # b # cs" "length cs = 24"
    by (auto simp: PACKET_LENGTH_def length_Suc_conv eval_nat_numeral)
  then show ?thesis
    by (simp add: ClockPacket_read_def fields_def TpFromBytes_take)
qed

lemma length_ClockPacket_write [simp]: "length (ClockPacket_write p) = PACKET_LENGTH"
  by (simp add: ClockPacket_write_def PACKET_LENGTH_def tp_wire.length_enc)

lemma ClockPacket_read_write [codec_simps]:
  assumes "packet_ok p"
  shows "ClockPacket_read (ClockPacket_write p) = p"
proof -
  have "fields (ClockPacket_read (ClockPacket_write p)) = fields p"
    unfolding ClockPacket_read_fields [OF length_ClockPacket_write]
    using packet_wire.pair.dec_enc [of "fields p"] assms
    by (simp add: ClockPacket_write_fields packet_ok_def fields_def)
  then show ?thesis by (simp only: fields_inject)
qed

lemma ClockPacket_write_read:
  assumes "length bs = PACKET_LENGTH"
  shows "ClockPacket_write (ClockPacket_read bs) = bs"
  unfolding ClockPacket_write_fields ClockPacket_read_fields [OF assms]
  using packet_wire.pair.enc_dec [of bs] assms by (simp add: PACKET_LENGTH_def numeral_2_eq_2)

lemma packet_ok_read: "packet_ok (ClockPacket_read bs)"
  by (simp add: packet_ok_def ClockPacket_read_def codec_simps)

text \<open>C34: The wire format: a packet is written to 26 bytes; reading them gives the packet back; and
  reading any 26 bytes and writing the result gives the same 26 bytes, whatever they are.\<close>

theorem packet_wire_roundtrip:
  "length (ClockPacket_write p) = PACKET_LENGTH
   \<and> (packet_ok p \<longrightarrow> ClockPacket_read (ClockPacket_write p) = p)
   \<and> (length bs = PACKET_LENGTH \<longrightarrow> ClockPacket_write (ClockPacket_read bs) = bs \<and> packet_ok (ClockPacket_read bs))"
  by (simp add: codec_simps ClockPacket_write_read packet_ok_read)

theorem packet_wire_roundtrip_witness:
  "ClockPacket_read (ClockPacket_write (ClockPacket_new REQUEST 7 1234567)) = ClockPacket_new REQUEST 7 1234567
   \<and> ClockPacket_write (ClockPacket_read (replicate 26 0xAB)) = replicate 26 0xAB"
  using packet_wire_roundtrip [of "ClockPacket_new REQUEST 7 1234567" "replicate 26 0xAB"]
  by (simp add: packet_ok_def ClockPacket_new_def type_of_byte_def PACKET_LENGTH_def)

section \<open>Offset and error bound\<close>

lemma rtt_fields:
  "rtt (p\<lparr>type := t\<rparr>) = rtt p" "getErrorBound (p\<lparr>type := t\<rparr>) = getErrorBound p"
  "getClockOffset (p\<lparr>type := t\<rparr>) = getClockOffset p"
  by (simp_all add: rtt_def getErrorBound_def getClockOffset_def Let_def)

lemma getErrorBound_valid:
  assumes "rtt p \<noteq> durInvalid"
  shows "sint (getErrorBound p) = sint (rtt p) sdiv 2" "getErrorBound p \<noteq> durInvalid"
proof -
  show e: "sint (getErrorBound p) = sint (rtt p) sdiv 2"
    using assms by (simp add: getErrorBound_def Let_def sint_cdiv)
  have "\<bar>sint (rtt p) sdiv 2\<bar> \<le> \<bar>sint (rtt p)\<bar>" by (rule abs_sdiv_le) simp
  then show "getErrorBound p \<noteq> durInvalid"
    using assms sint_int64_bounds [of "rtt p"] unfolding valid_iff e by (auto simp: sdiv_pos_cases)
qed

lemma getErrorBound_rtt: "getErrorBound p \<noteq> durInvalid \<Longrightarrow> rtt p \<noteq> durInvalid"
  by (auto simp: getErrorBound_def)

lemma getClockOffset_valid:
  assumes "serverReplyTime p \<noteq> tpInvalid" "clientReceiveTime p \<noteq> tpInvalid" "rtt p \<noteq> durInvalid"
    and "in_int64 (sint (serverReplyTime p) - sint (clientReceiveTime p))"
    and "in_int64 (sint (serverReplyTime p) - sint (clientReceiveTime p) + sint (rtt p) sdiv 2)"
  shows "sint (getClockOffset p) = sint (serverReplyTime p) - sint (clientReceiveTime p) + sint (rtt p) sdiv 2"
  using assms getErrorBound_valid [OF assms(3)]
  by (simp add: getClockOffset_def Let_def sint_add_int64 sint_diff_int64)

lemma offset_error:
  assumes "clientRequestTime p = c1" "serverReplyTime p = s" "clientReceiveTime p = c2"
    and "s \<noteq> tpInvalid" "c2 \<noteq> tpInvalid" "sint c1 \<le> x" "x \<le> sint c2"
    and "in_int64 (sint c2 - sint c1 + 1)" "in_int64 (sint s - sint c2)" "in_int64 (sint s - sint c1 + 1)"
  shows "getClockOffset p \<noteq> durInvalid \<and> getErrorBound p \<noteq> durInvalid
    \<and> 2 * sint (getErrorBound p) \<le> sint (rtt p) \<and> sint (rtt p) = sint c2 - sint c1
    \<and> sint (getClockOffset p) - (sint s - x) \<le> sint (getErrorBound p)
    \<and> (sint s - x) - sint (getClockOffset p) \<le> sint (getErrorBound p) + 1"
proof -
  have c1: "c1 \<noteq> tpInvalid" using assms(5,6,7) by (auto simp: valid_iff)
  have le: "sint c1 \<le> sint c2" using assms(6,7) by linarith
  note d = diff_forward [OF c1 assms(5) le assms(8)]
  have r: "sint (rtt p) = sint c2 - sint c1" "rtt p \<noteq> durInvalid"
    using d assms(1,3) by (simp_all add: rtt_def)
  note b = getErrorBound_valid [OF r(2)]
  have h: "sint (rtt p) sdiv 2 = (sint c2 - sint c1) div 2" using le by (simp add: r sdiv_pos_cases)
  have half: "0 \<le> (sint c2 - sint c1) div 2" "(sint c2 - sint c1) div 2 \<le> sint c2 - sint c1"
    using le div_between [of 2 "sint c2 - sint c1"] by simp_all
  have i: "in_int64 (sint s - sint c2 + (sint c2 - sint c1) div 2)"
    using half assms(9,10) by (simp add: in_int64_def)
  have o: "sint (getClockOffset p) = sint s - sint c2 + (sint c2 - sint c1) div 2"
    using getClockOffset_valid [of p] assms(1,2,3,4,5,9) r(2) i by (simp add: h)
  have "sint (getClockOffset p) < 2 ^ 63 - 1"
    unfolding o using half assms(10) by (simp add: in_int64_def)
  then show ?thesis
    using o b r h assms(6,7) by (simp add: valid_iff) linarith
qed

text \<open>C7: The offset that a completed packet gives is that of the two clocks up to half its
  round-trip time: if the client's clock, read as \<open>c1\<close> when the request left and as \<open>c2\<close> when the reply
  came, showed \<open>x\<close> at the moment at which the server's clock showed \<open>s\<close>, and it was monotone meanwhile,
  then the computed offset misses the true one, \<open>s - x\<close>, by at most the reported error bound,
  and by at most one microsecond more on the side to which the halving rounds.\<close>

theorem offset_within_error_bound:
  assumes "clientRequestTime p = c1" "serverReplyTime p = s" "clientReceiveTime p = c2"
    and "s \<noteq> tpInvalid" "c2 \<noteq> tpInvalid" "sint c1 \<le> x" "x \<le> sint c2"
    and "in_int64 (sint c2 - sint c1 + 1)" "in_int64 (sint s - sint c2)" "in_int64 (sint s - sint c1 + 1)"
  shows "getClockOffset p \<noteq> durInvalid \<and> getErrorBound p \<noteq> durInvalid
    \<and> 2 * sint (getErrorBound p) \<le> sint (rtt p) \<and> sint (rtt p) = sint c2 - sint c1
    \<and> sint (getClockOffset p) - (sint s - x) \<le> sint (getErrorBound p)
    \<and> (sint s - x) - sint (getClockOffset p) \<le> sint (getErrorBound p) + 1"
  by (rule offset_error [OF assms])

theorem offset_within_error_bound_witness:
  "\<bar>sint (getClockOffset \<lparr>type = REPLY, sequenceNumber = 1, clientRequestTime = 1000, serverReplyTime = 5100,
     clientReceiveTime = 1201\<rparr>) - 4000\<bar> \<le> 101"
  using offset_within_error_bound [of "\<lparr>type = REPLY, sequenceNumber = 1, clientRequestTime = 1000,
     serverReplyTime = 5100, clientReceiveTime = 1201\<rparr>" 1000 5100 1201 1100]
  by (simp add: invalid_eq usecInvalid_def in_int64_def abs_le_iff)

text \<open>An offset is reported only for a packet with all three of its times valid: if the request
  time, the server's time or the receipt time is missing, the offset is the invalid duration.\<close>

theorem offset_invalid_when_incomplete:
  assumes "clientRequestTime p = tpInvalid \<or> serverReplyTime p = tpInvalid \<or> clientReceiveTime p = tpInvalid"
  shows "getClockOffset p = durInvalid"
  using assms by (auto simp: getClockOffset_def getErrorBound_def rtt_def Let_def)

theorem offset_invalid_when_incomplete_witness:
  "getClockOffset (ClockPacket_new REQUEST 3 1000) = durInvalid"
  by (rule offset_invalid_when_incomplete) (simp add: ClockPacket_new_def)

end
