(* ===== verification/ClockClient.thy ===== *)
theory ClockClient
  imports Kissnet ClockPacket
begin

text \<open>
  \<open>ClockClient\<close>: the clock that asks a \<open>ClockServer\<close> for the time. The object's fields extend the
  state of \<open>Platform\<close>, so that its methods are calls on one state that the clocks it reads share.

  The loop of \<open>receivePacket\<close> waits in \<open>select\<close> before every datagram, so it goes round at most
  once more than \<open>select\<close> reports data: the fuel \<open>Suc (length (selects w))\<close> is enough, which
  \<open>receive_loop_fuel\<close> states. \<open>None\<close> is the \<^verbatim>\<open>exit(0)\<close> that a \<open>KILL\<close> packet causes, or a \<open>recv\<close>
  that blocks because \<open>select\<close> announced a datagram that is not there. Messages on standard error
  are not modelled.

  The lemmas say which packets the loop accepts, drops and gives up on, what the state looks like
  after each method, and that a call of a method of a clock that is read meanwhile cannot disturb it.
\<close>

record client = os +
  timeout :: dur
  client_rtt :: dur
  sequence :: seqnum
  acknowledge :: bool
  socket :: udp_socket

text \<open>The constructor: the socket is made first, under the error handling \<open>e\<close> that is in force
  before \<open>kissnet_init\<close>. A failure is the message and the way in which the process stops.\<close>

definition ClockClient_new ::
  "(string \<Rightarrow> string \<Rightarrow> sockaddr list option) \<Rightarrow> (sockaddr \<Rightarrow> int) \<Rightarrow> error_state \<Rightarrow> os \<Rightarrow> endpoint
   \<Rightarrow> string \<times> stop option + error_state \<times> client" where
  "ClockClient_new getaddrinfo syscall_socket e w addr_port =
    (case udp_socket_new getaddrinfo syscall_socket addr_port of
      Inl msg \<Rightarrow> Inl (handle e msg)
    | Inr s \<Rightarrow> Inr (kissnet_init e, os.extend w
        \<lparr>timeout = 1000, client_rtt = 0, sequence = 0, acknowledge = False, socket = s\<rparr>))"

definition getTimeout :: "'a client_scheme \<Rightarrow> int32" where
  "getTimeout w = ucast (UsecFromDur (timeout w))"

definition setTimeout :: "int64 \<Rightarrow> 'a client_scheme \<Rightarrow> 'a client_scheme" where
  "setTimeout usec w = (if usec \<noteq> usecInvalid then w\<lparr>timeout := DurFromUsec usec\<rparr> else w)"

definition setAcknowledge :: "bool \<Rightarrow> 'a client_scheme \<Rightarrow> 'a client_scheme" where
  "setAcknowledge a w = w\<lparr>acknowledge := a\<rparr>"

definition client_rtt_get :: "'a client_scheme \<Rightarrow> dur" where
  "client_rtt_get w = client_rtt w"

definition sendPacket :: "packet \<Rightarrow> ('a client_scheme, bool) call" where
  "sendPacket p w = do {
     ((num_bytes, status), w) \<leftarrow> udp_send (socket w) (ClockPacket_write p) None w;
     Some (if status \<noteq> valid then False else if num_bytes \<noteq> PACKET_LENGTH then False else True, w)
   }"

text \<open>The milliseconds to wait for each packet: \<^verbatim>\<open>std::max(1, getTimeout() / 1000)\<close>, of type \<open>int\<close>.\<close>

definition timeoutMsec :: "'a client_scheme \<Rightarrow> int32" where
  "timeoutMsec w = word_of_int (max 1 (sint (getTimeout w) sdiv 1000))"

fun receive_loop :: "nat \<Rightarrow> ('a client_scheme, tp) call \<Rightarrow> int32 \<Rightarrow> byte list \<Rightarrow> ('a client_scheme, packet) call" where
  "receive_loop 0 clockGetValue ms buffer w = None"
| "receive_loop (Suc fuel) clockGetValue ms buffer w = do {
     (status, w) \<leftarrow> udp_select (scast ms) w;
     if status = errored then Some (ClockPacket_default, w)
     else if status = timed_out then Some (ClockPacket_default, w)
     else do {
       (((num_bytes, status), buffer, s), w) \<leftarrow> udp_recv (socket w) buffer w;
       let w = w\<lparr>socket := s\<rparr>;
       if status \<noteq> valid then Some (ClockPacket_default, w)
       else if num_bytes \<noteq> PACKET_LENGTH then Some (ClockPacket_default, w)
       else do {
         (now, w) \<leftarrow> clockGetValue w;
         let packet = ClockPacket_read buffer;
         if type packet = KILL then None
         else if sequenceNumber packet \<noteq> sequence w then receive_loop fuel clockGetValue ms buffer w
         else if type packet \<noteq> REPLY then receive_loop fuel clockGetValue ms buffer w
         else let packet = setClientReceiveTime now packet; r = rtt packet in
           if r = durInvalid \<or> timeout w <s r then Some (ClockPacket_default, w)
           else Some (packet, w\<lparr>client_rtt := r\<rparr>)
       }
     }
   }"

text \<open>The buffer starts with arbitrary bytes; \<open>receive_loop_buffer\<close> says that they do not matter.\<close>

definition receivePacket :: "('a client_scheme, tp) call \<Rightarrow> ('a client_scheme, packet) call" where
  "receivePacket clockGetValue w =
    receive_loop (Suc (length (selects w))) clockGetValue (timeoutMsec w) (replicate PACKET_LENGTH 0) w"

text \<open>\<^verbatim>\<open>++sequence_ %= 250\<close> on a byte: the increment wraps at 256, then the remainder is taken.\<close>

definition next_sequence :: "seqnum \<Rightarrow> seqnum" where
  "next_sequence n = (n + 1) mod 250"

definition ClockClient_getPhase_ack ::
  "('a client_scheme, tp) call \<Rightarrow> bool \<Rightarrow> ('a client_scheme, dur) call" where
  "ClockClient_getPhase_ack clockGetValue ack w = do {
     let w = w\<lparr>sequence := next_sequence (sequence w)\<rparr>;
     let seq = sequence w;
     (now, w) \<leftarrow> clockGetValue w;
     (ok, w) \<leftarrow> sendPacket (ClockPacket_new REQUEST seq now) w;
     if \<not> ok then Some (durInvalid, w)
     else do {
       (packet, w) \<leftarrow> receivePacket clockGetValue w;
       if invalid packet then Some (durInvalid, w)
       else if ack then do {
         let packet = setType ACKNOWLEDGE packet;
         (ok, w) \<leftarrow> sendPacket packet w;
         if \<not> ok then Some (durInvalid, w) else Some (getClockOffset packet, w)
       }
       else Some (getClockOffset packet, w)
     }
   }"

definition ClockClient_getPhase :: "('a client_scheme, tp) call \<Rightarrow> ('a client_scheme, dur) call" where
  "ClockClient_getPhase clockGetValue w = ClockClient_getPhase_ack clockGetValue (acknowledge w) w"

definition ClockClient_getValue :: "('a client_scheme, tp) call" where
  "ClockClient_getValue w = do {
     (phase, w) \<leftarrow> ClockClient_getPhase_ack SystemClock_getValue False w;
     if phase = durInvalid then Some (tpInvalid, w)
     else do {
       (t, w) \<leftarrow> SystemClock_getValue w;
       Some (t + phase, w)
     }
   }"

definition ClockClient_die :: "('a client_scheme, unit) call" where
  "ClockClient_die w = do { (_, w) \<leftarrow> sendPacket (ClockPacket_new KILL 0 tpInvalid) w; Some ((), w) }"

definition ClockClient :: "'a client_scheme Clock" where
  "ClockClient = \<lparr>getValue = ClockClient_getValue, getPhase = ClockClient_getPhase, die = ClockClient_die\<rparr>"

section \<open>What arrives\<close>

text \<open>Whether \<open>select\<close> announces a datagram, and the state after the wait.\<close>

definition announced :: "'a os_scheme \<Rightarrow> bool" where
  "announced w \<longleftrightarrow> (case selects w of [] \<Rightarrow> False | r # _ \<Rightarrow> r \<noteq> 0 \<and> r \<noteq> - 1)"

definition after_wait :: "int32 \<Rightarrow> 'a os_scheme \<Rightarrow> 'a os_scheme" where
  "after_wait ms w = w\<lparr>waited := waited w @ [select_timeval (scast ms)], selects := tl (selects w)\<rparr>"

text \<open>One wait for a packet: \<open>None\<close> when it blocks, otherwise the packet, if a whole one came.\<close>

definition poll :: "int32 \<Rightarrow> ('a client_scheme, packet option) call" where
  "poll ms w =
    (let w1 = after_wait ms w
     in if \<not> announced w then Some (None, w1)
        else case recvs w of
            [] \<Rightarrow> None
          | RecvFail e # rest \<Rightarrow> Some (None, w1\<lparr>recvs := rest\<rparr>)
          | Datagram d peer # rest \<Rightarrow>
              Some (if PACKET_LENGTH \<le> length d then Some (ClockPacket_read (take PACKET_LENGTH d)) else None,
                w1\<lparr>recvs := rest, socket := (socket w)\<lparr>socket_input := peer\<rparr>\<rparr>))"

abbreviation buffer0 :: "byte list" where
  "buffer0 \<equiv> replicate PACKET_LENGTH 0"

text \<open>The loop by its waits; what the buffer held does not matter.\<close>

lemma receive_loop_poll:
  assumes "length buffer = PACKET_LENGTH"
    and "\<forall>b v. length b = PACKET_LENGTH \<longrightarrow> receive_loop n clk ms b v = receive_loop n clk ms buffer0 v"
  shows "receive_loop (Suc n) clk ms buffer w = do {
     (x, w1) \<leftarrow> poll ms w;
     (case x of
        None \<Rightarrow> Some (ClockPacket_default, w1)
      | Some p \<Rightarrow> do {
          (now, w2) \<leftarrow> clk w1;
          if type p = KILL then None
          else if sequenceNumber p \<noteq> sequence w2 \<or> type p \<noteq> REPLY then receive_loop n clk ms buffer0 w2
          else let r = rtt (p\<lparr>clientReceiveTime := now\<rparr>) in
            if r = durInvalid \<or> timeout w2 <s r then Some (ClockPacket_default, w2)
            else Some (p\<lparr>clientReceiveTime := now\<rparr>, w2\<lparr>client_rtt := r\<rparr>)
        })
   }"
proof (cases "announced w")
  case False
  then have "selects w = [] \<or> (\<exists>r rs. selects w = r # rs \<and> (r = 0 \<or> r = - 1))"
    by (cases "selects w") (auto simp: announced_def)
  with False show ?thesis
    by (auto simp: udp_select_def poll_def after_wait_def Let_def)
next
  case True
  then obtain r rs where r: "selects w = r # rs" "r \<noteq> 0" "r \<noteq> - 1"
    by (auto simp: announced_def split: list.splits)
  have sel: "udp_select (scast ms) w = Some (valid, after_wait ms w)"
    using r by (simp add: udp_select_def after_wait_def)
  show ?thesis
  proof (cases "recvs w")
    case Nil
    with sel True show ?thesis by (simp add: udp_recv_def poll_def after_wait_def)
  next
    case (Cons x rest)
    show ?thesis
    proof (cases x)
      case (RecvFail e)
      with sel True Cons show ?thesis by (simp add: udp_recv_def poll_def after_wait_def)
    next
      case (Datagram d peer)
      show ?thesis
      proof (cases "PACKET_LENGTH \<le> length d")
        case False
        with sel True Cons Datagram assms(1) show ?thesis
          by (simp add: udp_recv_def poll_def after_wait_def)
      next
        case long: True
        have c: "copy_into d buffer = take PACKET_LENGTH d" using long assms(1) by (simp add: copy_into_full)
        have l: "length (take PACKET_LENGTH d) = PACKET_LENGTH" using long by simp
        have "0 < PACKET_LENGTH" by (simp add: PACKET_LENGTH_def)
        with sel True Cons Datagram assms(1) long show ?thesis
          by (auto simp: udp_recv_def poll_def c assms(2) [rule_format, OF l] after_wait_def Let_def intro!: Option.bind_cong)
      qed
    qed
  qed
qed

lemma receive_loop_buffer:
  "\<forall>b w. length b = PACKET_LENGTH \<longrightarrow> receive_loop n clk ms b w = receive_loop n clk ms buffer0 w"
proof (induction n)
  case (Suc n)
  show ?case
  proof (intro allI impI)
    fix b :: "byte list" and w
    assume "length b = PACKET_LENGTH"
    then show "receive_loop (Suc n) clk ms b w = receive_loop (Suc n) clk ms buffer0 w"
      by (simp only: receive_loop_poll [OF _ Suc.IH] length_replicate)
  qed
qed simp

lemmas receive_loop_step = receive_loop_poll [OF length_replicate receive_loop_buffer]

section \<open>The wait for a reply, as a relation\<close>

text \<open>\<open>receives clk ms w p w'\<close>: from state \<open>w\<close>, the wait for a reply ends in \<open>w'\<close> with packet \<open>p\<close>.\<close>

inductive receives :: "('a client_scheme, tp) call \<Rightarrow> int32 \<Rightarrow> 'a client_scheme \<Rightarrow> packet \<Rightarrow> 'a client_scheme \<Rightarrow> bool"
  for clk ms where
  silence: "poll ms w = Some (None, w1) \<Longrightarrow> receives clk ms w ClockPacket_default w1"
| ignored: "poll ms w = Some (Some p, w1) \<Longrightarrow> clk w1 = Some (now, w2) \<Longrightarrow> type p \<noteq> KILL \<Longrightarrow>
    sequenceNumber p \<noteq> sequence w2 \<or> type p \<noteq> REPLY \<Longrightarrow> receives clk ms w2 q w' \<Longrightarrow> receives clk ms w q w'"
| late: "poll ms w = Some (Some p, w1) \<Longrightarrow> clk w1 = Some (now, w2) \<Longrightarrow> type p = REPLY \<Longrightarrow>
    sequenceNumber p = sequence w2 \<Longrightarrow> r = rtt (p\<lparr>clientReceiveTime := now\<rparr>) \<Longrightarrow>
    r = durInvalid \<or> timeout w2 <s r \<Longrightarrow> receives clk ms w ClockPacket_default w2"
| accepted: "poll ms w = Some (Some p, w1) \<Longrightarrow> clk w1 = Some (now, w2) \<Longrightarrow> type p = REPLY \<Longrightarrow>
    sequenceNumber p = sequence w2 \<Longrightarrow> r = rtt (p\<lparr>clientReceiveTime := now\<rparr>) \<Longrightarrow>
    r \<noteq> durInvalid \<Longrightarrow> \<not> timeout w2 <s r \<Longrightarrow>
    receives clk ms w (p\<lparr>clientReceiveTime := now\<rparr>) (w2\<lparr>client_rtt := r\<rparr>)"

lemma receive_loop_sound:
  "receive_loop n clk ms buffer0 w = Some (p, w') \<Longrightarrow> receives clk ms w p w'"
proof (induction n arbitrary: w)
  case (Suc n)
  from Suc.prems obtain x w1 where x: "poll ms w = Some (x, w1)"
    unfolding receive_loop_step by (cases "poll ms w") auto
  show ?case
  proof (cases x)
    case None
    with Suc.prems x have "p = ClockPacket_default" "w' = w1" unfolding receive_loop_step by simp_all
    with x None show ?thesis using receives.silence [of ms w w1 clk] by simp
  next
    case (Some q)
    from Suc.prems x Some obtain now w2 where c: "clk w1 = Some (now, w2)"
      unfolding receive_loop_step by (cases "clk w1") auto
    have e: "(if type q = KILL then None
        else if sequenceNumber q \<noteq> sequence w2 \<or> type q \<noteq> REPLY then receive_loop n clk ms buffer0 w2
        else let r = rtt (q\<lparr>clientReceiveTime := now\<rparr>) in
          if r = durInvalid \<or> timeout w2 <s r then Some (ClockPacket_default, w2)
          else Some (q\<lparr>clientReceiveTime := now\<rparr>, w2\<lparr>client_rtt := r\<rparr>)) = Some (p, w')"
      using Suc.prems unfolding receive_loop_step by (simp add: x Some c)
    show ?thesis
    proof (cases "sequenceNumber q \<noteq> sequence w2 \<or> type q \<noteq> REPLY")
      case True
      with e have "receive_loop n clk ms buffer0 w2 = Some (p, w')" "type q \<noteq> KILL" by (auto split: if_splits)
      with x Some c True show ?thesis by (blast intro: receives.ignored Suc.IH)
    next
      case False
      with e x Some c show ?thesis
        by (auto simp: Let_def split: if_splits intro: receives.late receives.accepted)
    qed
  qed
qed simp

text \<open>Each datagram that is looked at uses up an announcement of \<open>select\<close>.\<close>

lemma poll_Some:
  assumes "poll ms w = Some (Some p, w1)"
  obtains r rs d peer rest where "selects w = r # rs" "r \<noteq> 0" "r \<noteq> - 1" "recvs w = Datagram d peer # rest"
    "PACKET_LENGTH \<le> length d" "p = ClockPacket_read (take PACKET_LENGTH d)"
    "w1 = w\<lparr>waited := waited w @ [select_timeval (scast ms)], selects := rs, recvs := rest,
       socket := (socket w)\<lparr>socket_input := peer\<rparr>\<rparr>"
  using assms
  by (auto simp: poll_def announced_def after_wait_def Let_def
      split: if_splits list.splits recvfrom_result.splits)

text \<open>What a clock that is read meanwhile must leave alone: all but the readings of the system clock
  and what other objects add to the state.\<close>

definition net_view :: "'a client_scheme \<Rightarrow> client" where
  "net_view w = (client.truncate w)\<lparr>sys_reads := 0\<rparr>"

lemma net_view_eq:
  "net_view w = net_view v \<longleftrightarrow> sys_now w = sys_now v \<and> selects w = selects v \<and> waited w = waited v
    \<and> recvs w = recvs v \<and> sendtos w = sendtos v \<and> sent w = sent v \<and> cout w = cout v
    \<and> timeout w = timeout v \<and> client_rtt w = client_rtt v \<and> sequence w = sequence v
    \<and> acknowledge w = acknowledge v \<and> socket w = socket v"
  by (auto simp: net_view_def client.truncate_def)

lemma net_viewD:
  assumes "net_view w = net_view v"
  shows "selects w = selects v" "recvs w = recvs v" "sendtos w = sendtos v" "sent w = sent v" "cout w = cout v"
    "timeout w = timeout v" "sequence w = sequence v" "acknowledge w = acknowledge v" "socket w = socket v"
    "sys_now w = sys_now v" "waited w = waited v"
  using assms by (simp_all add: net_view_eq)

text \<open>Waiting changes neither the client's settings nor what was sent.\<close>

definition kept :: "'a client_scheme \<Rightarrow> 'a client_scheme \<Rightarrow> bool" where
  "kept w w' \<longleftrightarrow> sequence w' = sequence w \<and> timeout w' = timeout w \<and> acknowledge w' = acknowledge w
    \<and> sent w' = sent w \<and> sendtos w' = sendtos w \<and> cout w' = cout w
    \<and> socket_addrinfo (socket w') = socket_addrinfo (socket w)"

text \<open>A whole packet that the client drops while it waits for a reply to request \<open>n\<close>.\<close>

definition foreign :: "seqnum \<Rightarrow> byte list \<Rightarrow> bool" where
  "foreign n d \<longleftrightarrow> PACKET_LENGTH \<le> length d
    \<and> (let p = ClockPacket_read (take PACKET_LENGTH d)
       in type p \<noteq> KILL \<and> (sequenceNumber p \<noteq> n \<or> type p \<noteq> REPLY))"

definition timely :: "dur \<Rightarrow> packet \<Rightarrow> bool" where
  "timely t p \<longleftrightarrow> rtt p \<noteq> durInvalid \<and> \<not> t <s rtt p"

lemma poll_datagram:
  assumes "selects w = 1 # rs" "recvs w = Datagram d peer # rest" "PACKET_LENGTH \<le> length d"
  obtains w1 where "poll ms w = Some (Some (ClockPacket_read (take PACKET_LENGTH d)), w1)"
    "selects w1 = rs" "recvs w1 = rest" "sequence w1 = sequence w" "timeout w1 = timeout w"
    "length (waited w1) = Suc (length (waited w))"
  using assms by (simp add: poll_def announced_def after_wait_def)

text \<open>What a packet that was sent leaves behind.\<close>

lemma sendPacket_ok:
  assumes "sendPacket p w = Some (True, w')"
  shows "sent w' = sent w @ [(ClockPacket_write p, socket_addrinfo (socket w))]"
    "sequence w' = sequence w" "timeout w' = timeout w" "socket w' = socket w" "recvs w' = recvs w"
    "selects w' = selects w"
  using assms
  by (auto simp: sendPacket_def udp_send_eq split: list.splits sendto_result.splits if_splits)

lemma sendPacket_sequence: "sendPacket p w = Some (ok, w') \<Longrightarrow> sequence w' = sequence w"
  by (auto simp: sendPacket_def udp_send_eq split: list.splits sendto_result.splits if_splits)

text \<open>A whole exchange: the request goes out at \<open>t1\<close>, the reply is waiting and is read at \<open>t2\<close>.\<close>

definition exchanged ::
  "'a client_scheme \<Rightarrow> packet \<Rightarrow> int list \<Rightarrow> recvfrom_result list \<Rightarrow> sockaddr \<Rightarrow> 'a client_scheme" where
  "exchanged w1 request rs rest peer = w1\<lparr>sendtos := [],
     sent := sent w1 @ [(ClockPacket_write request, socket_addrinfo (socket w1))],
     waited := waited w1 @ [select_timeval (scast (timeoutMsec w1))], selects := rs, recvs := rest,
     socket := (socket w1)\<lparr>socket_input := peer\<rparr>\<rparr>"

lemma timeoutMsec_cong: "timeout w' = timeout w \<Longrightarrow> timeoutMsec w' = timeoutMsec w"
  by (simp add: timeoutMsec_def getTimeout_def)

locale net_clock = readable read net_view
  for read :: "('a client_scheme, tp) call"
begin

lemma read_net:
  assumes "read w = Some (t, w')"
  shows "selects w' = selects w" "recvs w' = recvs w" "sendtos w' = sendtos w" "sent w' = sent w" "cout w' = cout w"
    "timeout w' = timeout w" "sequence w' = sequence w" "acknowledge w' = acknowledge w" "socket w' = socket w"
    "sys_now w' = sys_now w" "waited w' = waited w"
  using net_viewD [OF read_view [OF assms]] by simp_all

lemma poll_kept: "poll ms w = Some (x, w1) \<Longrightarrow> kept w w1"
  by (auto simp: poll_def after_wait_def kept_def Let_def split: if_splits list.splits recvfrom_result.splits)

lemma read_kept: "read w = Some (t, w') \<Longrightarrow> kept w w'"
  by (simp add: kept_def read_net)

lemma kept_trans: "kept u v \<Longrightarrow> kept v w \<Longrightarrow> kept u w"
  by (simp add: kept_def)

lemma poll_read_kept: "poll ms w = Some (x, w1) \<Longrightarrow> read w1 = Some (t, w2) \<Longrightarrow> kept w w2"
  by (rule kept_trans [OF poll_kept read_kept])

lemma receives_kept: "receives read ms w p w' \<Longrightarrow> kept w w'"
proof (induction rule: receives.induct)
  case (silence w w1)
  then show ?case by (rule poll_kept)
next
  case (ignored w p w1 now w2 q w')
  then show ?case by (blast intro: kept_trans poll_read_kept)
next
  case (late w p w1 now w2 r)
  then show ?case by (blast intro: poll_read_kept)
next
  case (accepted w p w1 now w2 r)
  then have "kept w w2" by (blast intro: poll_read_kept)
  then show ?case by (simp add: kept_def)
qed

text \<open>A packet that is not the invalid one is a timely reply to the current request.\<close>

lemma receives_reply:
  "receives read ms w p w' \<Longrightarrow> p \<noteq> ClockPacket_default \<Longrightarrow>
    type p = REPLY \<and> sequenceNumber p = sequence w \<and> rtt p \<noteq> durInvalid \<and> sint (rtt p) \<le> sint (timeout w)
    \<and> client_rtt w' = rtt p
    \<and> (\<exists>d peer now. Datagram d peer \<in> set (recvs w) \<and> PACKET_LENGTH \<le> length d
        \<and> p = (ClockPacket_read (take PACKET_LENGTH d))\<lparr>clientReceiveTime := now\<rparr>)"
proof (induction rule: receives.induct)
  case (ignored w p w1 now w2 q w')
  then have "kept w w2" by (blast intro: poll_read_kept)
  moreover from ignored(1) have "set (recvs w1) \<subseteq> set (recvs w)" by (rule poll_Some) auto
  then have "set (recvs w2) \<subseteq> set (recvs w)" using ignored(2) by (simp add: read_net)
  ultimately show ?case using ignored(6) [OF ignored(7)] by (auto simp: kept_def)
next
  case (accepted w p w1 now w2 r)
  then have "kept w w2" by (blast intro: poll_read_kept)
  moreover from accepted(1) have "\<exists>d peer. Datagram d peer \<in> set (recvs w) \<and> PACKET_LENGTH \<le> length d
      \<and> p = ClockPacket_read (take PACKET_LENGTH d)" by (rule poll_Some) auto
  ultimately show ?case using accepted by (auto simp: kept_def word_sless_alt)
qed simp_all

lemma poll_selects:
  assumes "poll ms w = Some (Some p, w1)" "read w1 = Some (now, w2)"
  shows "length (selects w) = Suc (length (selects w2))"
  by (rule poll_Some [OF assms(1)]) (simp add: read_net [OF assms(2)])

text \<open>Any fuel beyond the number of results of \<open>select\<close> gives the same.\<close>

lemma receive_loop_fuel:
  "length (selects w) < n \<Longrightarrow> length (selects w) < m \<Longrightarrow>
    receive_loop n read ms buffer0 w = receive_loop m read ms buffer0 w"
proof (induction n arbitrary: m w)
  case (Suc n)
  then obtain k where k: "m = Suc k" by (cases m) auto
  have "receive_loop n read ms buffer0 w2 = receive_loop k read ms buffer0 w2"
    if "poll ms w = Some (Some p, w1)" "read w1 = Some (now, w2)" for p w1 now w2
    using Suc.prems poll_selects [OF that] by (intro Suc.IH) (simp_all add: k)
  then show ?case
    unfolding k receive_loop_step
    by (intro Option.bind_cong refl) (auto simp: Let_def split: option.splits intro!: Option.bind_cong)
qed simp

lemma receive_loop_complete:
  "receives read ms w p w' \<Longrightarrow> length (selects w) < n \<Longrightarrow> receive_loop n read ms buffer0 w = Some (p, w')"
proof (induction arbitrary: n rule: receives.induct)
  case (silence w w1)
  then obtain k where "n = Suc k" by (cases n) auto
  with silence show ?case by (simp add: receive_loop_step del: receive_loop.simps)
next
  case (ignored w p w1 now w2 q w')
  then obtain k where k: "n = Suc k" by (cases n) auto
  have "receive_loop k read ms buffer0 w2 = Some (q, w')"
    using ignored poll_selects [OF ignored(1,2)] by (intro ignored.IH) (simp add: k)
  with ignored(1-4) show ?case unfolding k receive_loop_step by auto
next
  case (late w p w1 now w2 r)
  then obtain k where "n = Suc k" by (cases n) auto
  with late show ?case by (auto simp add: receive_loop_step Let_def simp del: receive_loop.simps)
next
  case (accepted w p w1 now w2 r)
  then obtain k where "n = Suc k" by (cases n) auto
  with accepted show ?case by (auto simp add: receive_loop_step Let_def simp del: receive_loop.simps)
qed

lemma receivePacket_iff:
  "receivePacket read w = Some (p, w') \<longleftrightarrow> receives read (timeoutMsec w) w p w'"
  unfolding receivePacket_def by (blast intro: receive_loop_sound receive_loop_complete)

text \<open>The wait ends if no \<open>KILL\<close> packet comes and \<open>select\<close> announces only what is there.\<close>

lemma receives_total:
  "length (takeWhile (\<lambda>r. r \<noteq> 0 \<and> r \<noteq> - 1) (selects w)) \<le> length (recvs w) \<Longrightarrow>
   \<forall>d peer. Datagram d peer \<in> set (recvs w) \<longrightarrow> d \<noteq> [] \<longrightarrow> hd d \<noteq> byte_of_type KILL \<Longrightarrow>
   \<exists>p w'. receives read ms w p w'"
proof (induction "length (selects w)" arbitrary: w)
  case (0)
  then have "poll ms w = Some (None, after_wait ms w)" by (simp add: poll_def announced_def)
  then show ?case by (blast intro: receives.silence)
next
  case (Suc n)
  from Suc.prems(1) have "\<not> announced w \<or> recvs w \<noteq> []"
    by (cases "selects w") (auto simp: announced_def)
  then have "poll ms w \<noteq> None"
    by (auto simp: poll_def Let_def split: list.splits recvfrom_result.splits)
  then obtain x w1 where x: "poll ms w = Some (x, w1)" by auto
  show ?case
  proof (cases x)
    case None
    then show ?thesis using x by (blast intro: receives.silence)
  next
    case (Some p)
    obtain now w2 where c: "read w1 = Some (now, w2)" using reads by metis
    from x Some obtain r rs d peer rest where r: "selects w = r # rs" "r \<noteq> 0" "r \<noteq> - 1"
      "recvs w = Datagram d peer # rest" "PACKET_LENGTH \<le> length d"
      "p = ClockPacket_read (take PACKET_LENGTH d)" "selects w1 = rs" "recvs w1 = rest"
      by (auto elim: poll_Some)
    have "d \<noteq> []" using r(5) by (auto simp: PACKET_LENGTH_def)
    then have k: "type p \<noteq> KILL"
      using Suc.prems(2) r(4,6) by (auto simp: ClockPacket_read_def PACKET_LENGTH_def neq_Nil_conv codec_simps
        dest: arg_cong [of _ _ byte_of_type])
    have "\<exists>q w'. receives read ms w2 q w'"
      using Suc.prems r read_net(1,2) [OF c] Suc.hyps(2) by (intro Suc.hyps(1)) auto
    with x Some c k show ?thesis
      by (cases "sequenceNumber p \<noteq> sequence w2 \<or> type p \<noteq> REPLY")
        (blast intro: receives.ignored, blast intro: receives.late [OF _ _ _ _ refl] receives.accepted [OF _ _ _ _ refl])
  qed
qed

text \<open>\<open>answers w ms rest rs k p\<close>: the wait in \<open>w\<close> takes \<open>k\<close> announced datagrams, and \<open>p\<close>, stamped with
  the time of its receipt, ends it, as a reply when it is timely.\<close>

definition answers ::
  "'a client_scheme \<Rightarrow> int32 \<Rightarrow> recvfrom_result list \<Rightarrow> int list \<Rightarrow> nat \<Rightarrow> packet \<Rightarrow> bool" where
  "answers w ms rest rs k p \<longleftrightarrow> (\<exists>now w'. receives read ms w
      (if timely (timeout w) (p\<lparr>clientReceiveTime := now\<rparr>) then p\<lparr>clientReceiveTime := now\<rparr> else ClockPacket_default) w'
    \<and> recvs w' = rest \<and> selects w' = rs \<and> length (waited w') = length (waited w) + k)"

lemma receives_first:
  assumes "selects w = 1 # rs" "recvs w = Datagram d peer # rest" "PACKET_LENGTH \<le> length d"
    and "ClockPacket_read (take PACKET_LENGTH d) = p" "type p = REPLY" "sequenceNumber p = sequence w"
  shows "answers w ms rest rs 1 p"
proof -
  obtain w1 where x: "poll ms w = Some (Some p, w1)" and w1: "selects w1 = rs" "recvs w1 = rest"
    "sequence w1 = sequence w" "timeout w1 = timeout w" "length (waited w1) = Suc (length (waited w))"
    using poll_datagram [OF assms(1-3), of ms] unfolding assms(4) .
  obtain now w2 where c: "read w1 = Some (now, w2)" using reads by metis
  have s: "sequenceNumber p = sequence w2" "timeout w2 = timeout w" using assms(6) w1 read_net [OF c] by simp_all
  let ?r = "rtt (p\<lparr>clientReceiveTime := now\<rparr>)"
  show ?thesis
  proof (cases "timely (timeout w) (p\<lparr>clientReceiveTime := now\<rparr>)")
    case True
    then have "receives read ms w (p\<lparr>clientReceiveTime := now\<rparr>) (w2\<lparr>client_rtt := ?r\<rparr>)"
      using receives.accepted [of ms w p w1 read now w2 ?r] x c assms(5) s by (simp add: timely_def)
    with True read_net [OF c] w1 show ?thesis
      unfolding answers_def by (intro exI [of _ now] exI [of _ "w2\<lparr>client_rtt := ?r\<rparr>"]) simp
  next
    case False
    then have "receives read ms w ClockPacket_default w2"
      using receives.late [of ms w p w1 read now w2 ?r] x c assms(5) s by (auto simp: timely_def)
    with False read_net [OF c] w1 show ?thesis
      unfolding answers_def by (intro exI [of _ now] exI [of _ w2]) simp
  qed
qed

lemma receives_after_foreign:
  assumes "PACKET_LENGTH \<le> length d" "ClockPacket_read (take PACKET_LENGTH d) = p" "type p = REPLY"
  shows "selects w = replicate (length junk) 1 @ 1 # rs \<Longrightarrow>
    recvs w = map (\<lambda>x. Datagram (fst x) (snd x)) junk @ Datagram d peer # rest \<Longrightarrow>
    \<forall>x\<in>set junk. foreign (sequence w) (fst x) \<Longrightarrow> sequenceNumber p = sequence w \<Longrightarrow>
    answers w ms rest rs (Suc (length junk)) p"
proof (induction junk arbitrary: w)
  case Nil
  then show ?case using receives_first [OF _ _ assms, of w rs peer rest] by simp
next
  case (Cons x junk)
  let ?q = "ClockPacket_read (take PACKET_LENGTH (fst x))"
  have f: "PACKET_LENGTH \<le> length (fst x)" "type ?q \<noteq> KILL" "sequenceNumber ?q \<noteq> sequence w \<or> type ?q \<noteq> REPLY"
    using Cons.prems(3) by (auto simp: foreign_def Let_def)
  from Cons.prems(1,2) have q: "selects w = 1 # (replicate (length junk) 1 @ 1 # rs)"
    "recvs w = Datagram (fst x) (snd x) # (map (\<lambda>x. Datagram (fst x) (snd x)) junk @ Datagram d peer # rest)"
    by simp_all
  obtain w1 where p: "poll ms w = Some (Some ?q, w1)" and w1: "selects w1 = replicate (length junk) 1 @ 1 # rs"
    "recvs w1 = map (\<lambda>x. Datagram (fst x) (snd x)) junk @ Datagram d peer # rest"
    "sequence w1 = sequence w" "timeout w1 = timeout w" "length (waited w1) = Suc (length (waited w))"
    using poll_datagram [OF q f(1), of ms] .
  obtain now w2 where c: "read w1 = Some (now, w2)" using reads by metis
  note n = read_net [OF c]
  have "answers w2 ms rest rs (Suc (length junk)) p"
    using Cons.prems(3,4) n w1 by (intro Cons.IH) simp_all
  moreover have "sequenceNumber ?q \<noteq> sequence w2 \<or> type ?q \<noteq> REPLY" using f(3) n w1 by simp
  ultimately show ?case
    using receives.ignored [where clk = read, OF p c f(2)] n w1 unfolding answers_def by fastforce
qed

text \<open>A whole call of \<open>getPhase\<close>.\<close>

lemma getPhase_Some:
  assumes "ClockClient_getPhase_ack read ack w = Some (d, w')" "d \<noteq> durInvalid"
  obtains t1 p w2 where "type p = REPLY" "sequenceNumber p = next_sequence (sequence w)"
    "rtt p \<noteq> durInvalid" "sint (rtt p) \<le> sint (timeout w)" "client_rtt w2 = rtt p"
    "\<exists>b peer now. Datagram b peer \<in> set (recvs w) \<and> PACKET_LENGTH \<le> length b
      \<and> p = (ClockPacket_read (take PACKET_LENGTH b))\<lparr>clientReceiveTime := now\<rparr>"
    "sent w2 = sent w @ [(ClockPacket_write (ClockPacket_new REQUEST (next_sequence (sequence w)) t1),
      socket_addrinfo (socket w))]"
    "sequence w2 = next_sequence (sequence w)" "timeout w2 = timeout w"
    "socket_addrinfo (socket w2) = socket_addrinfo (socket w)" "d = getClockOffset p"
    "if ack then sendPacket (setType ACKNOWLEDGE p) w2 = Some (True, w') else w' = w2"
proof -
  let ?n = "next_sequence (sequence w)"
  from assms obtain t1 wa where c: "read (w\<lparr>sequence := ?n\<rparr>) = Some (t1, wa)"
    by (auto simp: ClockClient_getPhase_ack_def Let_def Option.bind_eq_Some_conv)
  note n = read_net [OF c, simplified]
  from assms c n obtain wb where s: "sendPacket (ClockPacket_new REQUEST ?n t1) wa = Some (True, wb)"
    by (auto simp: ClockClient_getPhase_ack_def Let_def Option.bind_eq_Some_conv split: if_splits)
  from assms c n s obtain p w2 where r: "receivePacket read wb = Some (p, w2)"
    by (auto simp: ClockClient_getPhase_ack_def Let_def Option.bind_eq_Some_conv split: if_splits)
  note e = assms(1) [unfolded ClockClient_getPhase_ack_def Let_def]
  have i: "\<not> invalid p"
    using e c n s r assms(2) by (auto split: if_splits)
  from r have rs: "receives read (timeoutMsec wb) wb p w2" by (simp add: receivePacket_iff)
  have "p \<noteq> ClockPacket_default" using i by (auto simp: invalid_def ClockPacket_default_def)
  note p = receives_reply [OF rs this] and k = receives_kept [OF rs, unfolded kept_def]
  note so = sendPacket_ok [OF s]
  show thesis
  proof (rule that [of p w2 t1])
    show "if ack then sendPacket (setType ACKNOWLEDGE p) w2 = Some (True, w') else w' = w2"
      using e c n s r i assms(2) by (auto simp: Option.bind_eq_Some_conv split: if_splits)
    show "d = getClockOffset p"
      using e c n s r i assms(2) by (auto simp: Option.bind_eq_Some_conv rtt_fields split: if_splits)
  qed (use p k so n in auto)
qed

lemma getPhase_sequence:
  assumes "ClockClient_getPhase_ack read ack w = Some (d, w')"
  shows "sequence w' = next_sequence (sequence w)"
  using assms
  by (auto simp: ClockClient_getPhase_ack_def Let_def Option.bind_eq_Some_conv receivePacket_iff kept_def read_net
      split: if_splits dest!: sendPacket_sequence receives_kept)

lemma exchange:
  assumes "n = next_sequence (sequence w)" "read (w\<lparr>sequence := n\<rparr>) = Some (t1, w1)" "sendtos w = []"
    and "selects w = 1 # rs" "recvs w = Datagram (ClockPacket_write p) peer # rest"
    and "type p = REPLY" "sequenceNumber p = n"
    and "read (exchanged w1 (ClockPacket_new REQUEST n t1) rs rest peer) = Some (t2, w3)"
    and "timely (timeout w) (p\<lparr>clientReceiveTime := t2\<rparr>)"
  shows "ClockClient_getPhase_ack read ack w =
    (let q = p\<lparr>clientReceiveTime := t2\<rparr>; w4 = w3\<lparr>client_rtt := rtt q\<rparr>
     in if ack then do { (ok, w5) \<leftarrow> sendPacket (setType ACKNOWLEDGE q) w4;
                         Some (if ok then getClockOffset q else durInvalid, w5) }
        else Some (getClockOffset q, w4))"
proof -
  let ?r = "ClockPacket_new REQUEST n t1"
  let ?w2 = "w1\<lparr>sendtos := [], sent := sent w1 @ [(ClockPacket_write ?r, socket_addrinfo (socket w1))]\<rparr>"
  note k1 = read_net [OF assms(2), simplified] and k3 = read_net [OF assms(8)]
  have "packet_ok p" using assms(6) type_ok(3) [of p] by (cases p) simp
  then have p: "ClockPacket_read (take PACKET_LENGTH (ClockPacket_write p)) = p" by (simp add: codec_simps)
  have ms: "timeoutMsec ?w2 = timeoutMsec w1" by (rule timeoutMsec_cong) simp
  have s: "sendPacket ?r w1 = Some (True, ?w2)"
    using k1 assms(3) by (simp add: sendPacket_def udp_send_eq)
  have x: "poll (timeoutMsec w1) ?w2 = Some (Some p, exchanged w1 ?r rs rest peer)"
    using k1 assms(4,5) p by (simp add: poll_def announced_def after_wait_def exchanged_def)
  have "receives read (timeoutMsec w1) ?w2 (p\<lparr>clientReceiveTime := t2\<rparr>)
      (w3\<lparr>client_rtt := rtt (p\<lparr>clientReceiveTime := t2\<rparr>)\<rparr>)"
    by (rule receives.accepted [where clk = read, OF x assms(8,6) _ refl])
      (use k1 k3 assms(7,9) in \<open>simp_all add: exchanged_def timely_def\<close>)
  then have "receivePacket read ?w2 = Some (p\<lparr>clientReceiveTime := t2\<rparr>,
      w3\<lparr>client_rtt := rtt (p\<lparr>clientReceiveTime := t2\<rparr>)\<rparr>)"
    by (simp add: receivePacket_iff ms)
  moreover have "\<not> invalid (p\<lparr>clientReceiveTime := t2\<rparr>)" using assms(6) by (simp add: invalid_def)
  ultimately show ?thesis
    using assms(1,2) k1 s
    by (auto simp: ClockClient_getPhase_ack_def Let_def rtt_fields intro!: Option.bind_cong)
qed

end

interpretation sys_net: net_clock SystemClock_getValue
  by unfold_locales (auto simp: SystemClock_getValue_eq net_view_eq)

text \<open>What another object adds to the state, the client does not touch: a view that ignores the fields
  that the client's methods write is changed by them only through the clocks that they read.\<close>

locale client_frame =
  fixes view :: "'a client_scheme \<Rightarrow> 'v"
  assumes view_os: "view (w\<lparr>waited := x1\<rparr>) = view w" "view (w\<lparr>selects := x2\<rparr>) = view w"
      "view (w\<lparr>recvs := x3\<rparr>) = view w" "view (w\<lparr>sendtos := x4\<rparr>) = view w" "view (w\<lparr>sent := x5\<rparr>) = view w"
      "view (w\<lparr>sys_reads := x6\<rparr>) = view w"
    and view_client: "view (w\<lparr>client_rtt := y1\<rparr>) = view w" "view (w\<lparr>sequence := y2\<rparr>) = view w"
      "view (w\<lparr>socket := y3\<rparr>) = view w"
begin

lemma poll_view: "poll ms w = Some (x, w1) \<Longrightarrow> view w1 = view w"
  by (auto simp: poll_def after_wait_def view_os view_client Let_def
      split: if_splits list.splits recvfrom_result.splits)

lemma sendPacket_view: "sendPacket p w = Some (ok, w') \<Longrightarrow> view w' = view w"
  by (auto simp: sendPacket_def udp_send_eq view_os split: list.splits sendto_result.splits)

lemma SystemClock_view: "SystemClock_getValue w = Some (t, w') \<Longrightarrow> view w' = view w"
  by (auto simp: SystemClock_getValue_eq view_os)

lemma receives_view:
  assumes "\<forall>w t w'. clk w = Some (t, w') \<longrightarrow> view w' = view w"
  shows "receives clk ms w p w' \<Longrightarrow> view w' = view w"
  by (induction rule: receives.induct) (use assms in \<open>auto simp: view_client dest!: poll_view\<close>)

lemma getPhase_ack_view:
  assumes "\<forall>w t w'. clk w = Some (t, w') \<longrightarrow> view w' = view w"
    and "ClockClient_getPhase_ack clk ack w = Some (d, w')"
  shows "view w' = view w"
proof -
  let ?n = "next_sequence (sequence w)"
  from assms(2) obtain t1 wa where c: "clk (w\<lparr>sequence := ?n\<rparr>) = Some (t1, wa)"
    by (auto simp: ClockClient_getPhase_ack_def Let_def Option.bind_eq_Some_conv)
  then have a: "view wa = view w" using assms(1) by (metis view_client(2))
  from assms(2) c obtain ok wb where s: "sendPacket (ClockPacket_new REQUEST ?n t1) wa = Some (ok, wb)"
    by (auto simp: ClockClient_getPhase_ack_def Let_def Option.bind_eq_Some_conv)
  from sendPacket_view [OF s] a have b: "view wb = view w" by simp
  show ?thesis
  proof (cases ok)
    case False
    with assms(2) c s b show ?thesis by (simp add: ClockClient_getPhase_ack_def Let_def)
  next
    case True
    with assms(2) c s obtain p w2 where r: "receivePacket clk wb = Some (p, w2)"
      by (auto simp: ClockClient_getPhase_ack_def Let_def Option.bind_eq_Some_conv)
    then have "view w2 = view w"
      using receives_view [OF assms(1)] b receive_loop_sound by (metis receivePacket_def)
    then show ?thesis
      using assms(2) c s r True
      by (auto simp: ClockClient_getPhase_ack_def Let_def Option.bind_eq_Some_conv split: if_splits dest: sendPacket_view)
  qed
qed

lemma getPhase_view:
  "\<forall>w t w'. clk w = Some (t, w') \<longrightarrow> view w' = view w \<Longrightarrow> ClockClient_getPhase clk w = Some (d, w') \<Longrightarrow> view w' = view w"
  unfolding ClockClient_getPhase_def by (rule getPhase_ack_view)

lemma getValue_view:
  assumes "ClockClient_getValue w = Some (t, w')"
  shows "view w' = view w"
  using assms getPhase_ack_view [of SystemClock_getValue False w]
  by (auto simp: ClockClient_getValue_def Option.bind_eq_Some_conv SystemClock_view split: if_splits)

end

text \<open>The client's own settings are such a view.\<close>

interpretation settings: client_frame "\<lambda>w. (timeout w, acknowledge w, sys_now w, cout w)"
  by unfold_locales simp_all

lemmas net_clockI = net_clock.intro

section \<open>The client's promises\<close>

text \<open>A client fresh from its constructor, whose system clock advances 50 microseconds with every
  reading; concrete inputs for the theorems below.\<close>

definition fresh_client :: "int list \<Rightarrow> recvfrom_result list \<Rightarrow> client" where
  "fresh_client ss rs = \<lparr>sys_now = (\<lambda>n. of_nat n * 50000), sys_reads = 0, selects = ss, waited = [], recvs = rs,
     sendtos = [], sent = [], cout = [], timeout = 1000, client_rtt = 0, sequence = 0, acknowledge = False,
     socket = \<lparr>sock = 3, bind_loc = \<lparr>address = ''h'', port = 4444\<rparr>, getaddrinfo_results = [no_sockaddr],
       socket_addrinfo = Some no_sockaddr, socket_input = no_sockaddr\<rparr>\<rparr>"

lemma fresh_client_simps [simp]:
  "selects (fresh_client ss rs) = ss" "recvs (fresh_client ss rs) = rs" "timeout (fresh_client ss rs) = 1000"
  "sequence (fresh_client ss rs) = 0" "sendtos (fresh_client ss rs) = []" "sent (fresh_client ss rs) = []"
  "waited (fresh_client ss rs) = []" "sys_reads (fresh_client ss rs) = 0"
  "sys_now (fresh_client ss rs) = (\<lambda>n. of_nat n * 50000)"
  by (simp_all add: fresh_client_def)

definition stale_reply :: packet where
  "stale_reply = \<lparr>type = REPLY, sequenceNumber = 5, clientRequestTime = 0, serverReplyTime = 1,
     clientReceiveTime = tpInvalid\<rparr>"

definition good_reply :: "seqnum \<Rightarrow> packet" where
  "good_reply n = \<lparr>type = REPLY, sequenceNumber = n, clientRequestTime = 0, serverReplyTime = 5000,
     clientReceiveTime = tpInvalid\<rparr>"

lemma good_reply_simps [simp]:
  "type (good_reply n) = REPLY" "sequenceNumber (good_reply n) = n" "packet_ok (good_reply n)"
  by (simp_all add: good_reply_def packet_ok_def type_of_byte_def)

lemma foreign_stale: "n \<noteq> 5 \<Longrightarrow> foreign n (ClockPacket_write stale_reply)"
proof -
  have "packet_ok stale_reply" by (simp add: packet_ok_def stale_reply_def type_of_byte_def)
  then show "n \<noteq> 5 \<Longrightarrow> ?thesis" by (simp add: foreign_def codec_simps) (simp add: stale_reply_def)
qed

text \<open>C12: The loop of \<open>receivePacket\<close> implements the wait for a reply as a relation between the
  states before and after: it returns exactly what the relation allows, so its fuel never runs out
  early, and never returns otherwise.  The clock that it reads is any that leaves the client's
  fields and the network alone.\<close>

theorem client_wait_refines:
  assumes "readable clk net_view"
  shows "receivePacket clk w = Some (p, w') \<longleftrightarrow> receives clk (timeoutMsec w) w p w'"
  using net_clock.receivePacket_iff [OF net_clockI [OF assms]] .

theorem client_wait_refines_witness:
  "receivePacket SystemClock_getValue (fresh_client [0] []) = Some (ClockPacket_default,
     after_wait (timeoutMsec (fresh_client [0] [])) (fresh_client [0] []))"
  unfolding client_wait_refines [OF sys_net.readable_axioms]
  by (rule receives.silence) (simp add: poll_def announced_def)

text \<open>C14: The wait for a reply ends, however many datagrams come and whatever they hold, provided that
  \<open>select\<close> announces no datagram that is not there and that none of them is a \<open>KILL\<close> packet, on
  which the process exits.\<close>

theorem client_wait_terminates:
  assumes "readable clk net_view"
    and "length (takeWhile (\<lambda>r. r \<noteq> 0 \<and> r \<noteq> - 1) (selects w)) \<le> length (recvs w)"
    and "\<forall>d peer. Datagram d peer \<in> set (recvs w) \<longrightarrow> d \<noteq> [] \<longrightarrow> hd d \<noteq> byte_of_type KILL"
  shows "\<exists>p w'. receivePacket clk w = Some (p, w')"
  using net_clock.receives_total [OF net_clockI [OF assms(1)] assms(2,3)]
    net_clock.receivePacket_iff [OF net_clockI [OF assms(1)]] by blast

theorem client_wait_terminates_witness:
  "\<exists>p w'. receivePacket SystemClock_getValue (fresh_client [1, 1] [Datagram [7, 7] no_sockaddr, RecvFail 4])
    = Some (p, w')"
  by (rule client_wait_terminates [OF sys_net.readable_axioms]) auto

text \<open>C11: The client finds its reply behind any number of stale, duplicate or unexpected packets: it
  reads past all of them, one wait each, and takes the first reply with the current sequence
  number, stamped with the time of its receipt.  When its round trip took longer than the time-out,
  the result is the invalid packet.  What came after the reply is left in the queue.\<close>

theorem client_finds_reply:
  assumes "readable clk net_view"
    and "selects w = replicate (length junk) 1 @ 1 # rs"
    and "recvs w = map (\<lambda>x. Datagram (fst x) (snd x)) junk @ Datagram (ClockPacket_write p) peer # rest"
    and "\<forall>x\<in>set junk. foreign (sequence w) (fst x)"
    and "type p = REPLY" "sequenceNumber p = sequence w"
  shows "\<exists>now w'. receivePacket clk w = Some
      (if timely (timeout w) (p\<lparr>clientReceiveTime := now\<rparr>) then p\<lparr>clientReceiveTime := now\<rparr> else ClockPacket_default, w')
    \<and> recvs w' = rest \<and> selects w' = rs \<and> length (waited w') = length (waited w) + Suc (length junk)"
proof -
  have n: "net_clock clk" by (rule net_clockI [OF assms(1)])
  have "packet_ok p" using assms(5) type_ok(3) [of p] by (cases p) simp
  then have "ClockPacket_read (take PACKET_LENGTH (ClockPacket_write p)) = p" by (simp add: codec_simps)
  from net_clock.receives_after_foreign [OF n _ this assms(5,2,3,4,6)] show ?thesis
    by (simp add: net_clock.answers_def [OF n] net_clock.receivePacket_iff [OF n])
qed

theorem client_finds_reply_witness:
  "\<exists>now w'. receivePacket SystemClock_getValue (fresh_client [1, 1]
      [Datagram (ClockPacket_write stale_reply) no_sockaddr, Datagram (ClockPacket_write (good_reply 0)) no_sockaddr])
    = Some (if timely 1000 ((good_reply 0)\<lparr>clientReceiveTime := now\<rparr>)
        then (good_reply 0)\<lparr>clientReceiveTime := now\<rparr> else ClockPacket_default, w')
    \<and> recvs w' = [] \<and> selects w' = [] \<and> length (waited w') = Suc (Suc 0)"
  using client_finds_reply [OF sys_net.readable_axioms, of "fresh_client [1, 1]
      [Datagram (ClockPacket_write stale_reply) no_sockaddr, Datagram (ClockPacket_write (good_reply 0)) no_sockaddr]"
      "[(ClockPacket_write stale_reply, no_sockaddr)]" "[]" "good_reply 0" no_sockaddr "[]"]
  by (simp add: foreign_stale)

text \<open>C6: A phase that the client reports is the clock offset of a timely reply to the request that
  this very call sent: the reply carries the new sequence number, it was unpacked from a
  datagram of at least 26 bytes, its round trip took no longer than the time-out, and it is
  the one that is acknowledged, with the same three times, when acknowledging is on.\<close>

theorem client_phase_is_offset_of_reply:
  assumes "readable clk net_view"
    and "ClockClient_getPhase_ack clk ack w = Some (d, w')" "d \<noteq> durInvalid"
  shows "\<exists>t1 p. d = getClockOffset p
    \<and> type p = REPLY \<and> sequenceNumber p = next_sequence (sequence w)
    \<and> rtt p \<noteq> durInvalid \<and> sint (rtt p) \<le> sint (timeout w)
    \<and> (\<exists>b peer now. Datagram b peer \<in> set (recvs w) \<and> PACKET_LENGTH \<le> length b
        \<and> p = (ClockPacket_read (take PACKET_LENGTH b))\<lparr>clientReceiveTime := now\<rparr>)
    \<and> sent w' = sent w @
        [(ClockPacket_write (ClockPacket_new REQUEST (next_sequence (sequence w)) t1), socket_addrinfo (socket w))]
        @ (if ack then [(ClockPacket_write (p\<lparr>type := ACKNOWLEDGE\<rparr>), socket_addrinfo (socket w))] else [])"
proof -
  have n: "net_clock clk" by (rule net_clockI [OF assms(1)])
  show ?thesis
  proof (rule net_clock.getPhase_Some [OF n assms(2,3)])
    fix t1 p and w2 :: "'a client_scheme"
    assume "type p = REPLY" "sequenceNumber p = next_sequence (sequence w)"
      "rtt p \<noteq> durInvalid" "sint (rtt p) \<le> sint (timeout w)"
      "\<exists>b peer now. Datagram b peer \<in> set (recvs w) \<and> PACKET_LENGTH \<le> length b
        \<and> p = (ClockPacket_read (take PACKET_LENGTH b))\<lparr>clientReceiveTime := now\<rparr>"
      "d = getClockOffset p"
      and s: "sent w2 = sent w @ [(ClockPacket_write (ClockPacket_new REQUEST (next_sequence (sequence w)) t1),
        socket_addrinfo (socket w))]" "socket_addrinfo (socket w2) = socket_addrinfo (socket w)"
      and a: "if ack then sendPacket (setType ACKNOWLEDGE p) w2 = Some (True, w') else w' = w2"
    moreover have "sent w' = sent w @
        [(ClockPacket_write (ClockPacket_new REQUEST (next_sequence (sequence w)) t1), socket_addrinfo (socket w))]
        @ (if ack then [(ClockPacket_write (p\<lparr>type := ACKNOWLEDGE\<rparr>), socket_addrinfo (socket w))] else [])"
      using a s sendPacket_ok(1) [of "setType ACKNOWLEDGE p" w2 w'] by (auto split: if_splits)
    ultimately show ?thesis by (intro exI [of _ t1] exI [of _ p]) simp
  qed
qed

lemma demo_phase:
  "\<exists>w'. ClockClient_getPhase_ack SystemClock_getValue True
     (fresh_client [1] [Datagram (ClockPacket_write (good_reply 1)) no_sockaddr]) = Some (4975, w')"
proof -
  have n: "next_sequence 0 = 1" by (simp add: next_sequence_def)
  have c: "cdiv 0 1000 = 0" "cdiv 50000 1000 = 50" "cdiv 50 2 = 25"
    by (simp_all add: cdiv_def signed_divide_int_def)
  have p: "invalid ((good_reply 1)\<lparr>clientReceiveTime := 50\<rparr>) = False"
    "rtt ((good_reply 1)\<lparr>clientReceiveTime := 50\<rparr>) = 50"
    "getClockOffset ((good_reply 1)\<lparr>clientReceiveTime := 50\<rparr>) = 4975"
    by (simp_all add: invalid_def good_reply_def rtt_def diff_def getClockOffset_def getErrorBound_def invalid_eq
        usecInvalid_def Let_def c)
  show ?thesis
    by (simp add: ClockClient_getPhase_ack_def Let_def n SystemClock_getValue_eq sendPacket_def udp_send_eq
      receivePacket_def receive_loop_step poll_def announced_def after_wait_def codec_simps
      sys_time_def c p rtt_fields invalid_eq usecInvalid_def word_sless_alt del: receive_loop.simps)
qed

theorem client_phase_is_offset_of_reply_witness:
  "\<exists>p. type p = REPLY \<and> sequenceNumber p = 1 \<and> sint (rtt p) \<le> 1000 \<and> getClockOffset p = 4975"
proof -
  obtain w' where "ClockClient_getPhase_ack SystemClock_getValue True
     (fresh_client [1] [Datagram (ClockPacket_write (good_reply 1)) no_sockaddr]) = Some (4975, w')"
    using demo_phase ..
  from client_phase_is_offset_of_reply [OF sys_net.readable_axioms this] show ?thesis
    by (fastforce simp: invalid_eq usecInvalid_def next_sequence_def)
qed

text \<open>The sequence numbers are 0 to 249.\<close>

lemma unat_next_sequence: "unat n < 250 \<Longrightarrow> unat (next_sequence n) = (unat n + 1) mod 250"
  by (simp add: next_sequence_def unat_mod unat_add_lem [THEN iffD1])

lemma next_sequence_less: "unat (next_sequence n) < 250"
  by (simp add: next_sequence_def unat_mod)

lemma unat_next_sequence_pow: "unat n < 250 \<Longrightarrow> unat ((next_sequence ^^ k) n) = (unat n + k) mod 250"
proof (induction k)
  case (Suc k)
  then have "unat ((next_sequence ^^ k) n) < 250" by simp
  with Suc show ?case by (simp add: unat_next_sequence mod_Suc_eq)
qed simp

text \<open>Every call of \<open>getPhase\<close> moves on to a new sequence number below 250, whatever becomes of the
  call, and a number returns only after a multiple of 250 calls: a late reply is mistaken for a
  current one only if it is that many requests old.\<close>

theorem client_sequence_numbers:
  assumes "readable clk net_view" "ClockClient_getPhase_ack clk ack w = Some (d, w')"
  shows "sequence w' = next_sequence (sequence w) \<and> unat (sequence w') < 250
    \<and> ((next_sequence ^^ k) (sequence w') = sequence w' \<longleftrightarrow> 250 dvd k)"
proof -
  have s: "sequence w' = next_sequence (sequence w)"
    by (rule net_clock.getPhase_sequence [OF net_clockI [OF assms(1)] assms(2)])
  then have l: "unat (sequence w') < 250" by (simp add: next_sequence_less)
  have "(next_sequence ^^ k) (sequence w') = sequence w'
      \<longleftrightarrow> (unat (sequence w') + k) mod 250 = unat (sequence w')"
    by (simp add: word_unat_eq_iff unat_next_sequence_pow [OF l])
  also have "\<dots> \<longleftrightarrow> 250 dvd k" using l mod_eq_dvd_iff_nat [of "unat (sequence w')" "unat (sequence w') + k" 250] by simp
  finally show ?thesis using s l by simp
qed

theorem client_sequence_numbers_witness:
  "\<exists>w' :: client. sequence w' = 1 \<and> (next_sequence ^^ 250) (sequence w') = sequence w'"
proof -
  obtain w' where "ClockClient_getPhase_ack SystemClock_getValue True
     (fresh_client [1] [Datagram (ClockPacket_write (good_reply 1)) no_sockaddr]) = Some (4975, w')"
    using demo_phase ..
  from client_sequence_numbers [OF sys_net.readable_axioms this, of 250]
  have "sequence w' = 1" "(next_sequence ^^ 250) (sequence w') = sequence w'"
    by (simp add: next_sequence_def, metis dvd_refl)
  then show ?thesis by blast
qed

lemma sint_getTimeout_sdiv:
  "sint (timeoutMsec w) = max 1 (sint (getTimeout w) sdiv 1000)"
proof -
  have "\<bar>sint (getTimeout w) sdiv 1000\<bar> \<le> \<bar>sint (getTimeout w)\<bar> div 1000"
    by (auto simp: sdiv_pos_cases pos_imp_zdiv_nonneg_iff)
  moreover have "\<bar>sint (getTimeout w)\<bar> div 1000 \<le> 2 ^ 31 div 1000"
    using sint_greater_eq [of "getTimeout w"] sint_less [of "getTimeout w"] by (intro zdiv_mono1) (simp_all add: abs_le_iff)
  ultimately show ?thesis unfolding timeoutMsec_def by (intro sint_int32_of) (simp_all add: abs_le_iff)
qed

text \<open>The invalid duration is not accepted as a time-out; any other is.  \<open>getTimeout\<close> returns it when
  it fits an \<open>int\<close>, and then each wait for a packet lasts that time in whole milliseconds, but at
  least one.  A time-out of 2147.483648 seconds does not fit: it is cut down to a negative number, and each wait
  to one millisecond.\<close>

theorem client_timeout:
  "setTimeout usecInvalid w = w
   \<and> (usec \<noteq> usecInvalid \<longrightarrow> timeout (setTimeout usec w) = usec)
   \<and> 1 \<le> sint (timeoutMsec w)
   \<and> (usec \<noteq> usecInvalid \<and> - (2 ^ 31) \<le> sint usec \<and> sint usec < 2 ^ 31 \<longrightarrow>
        sint (getTimeout (setTimeout usec w)) = sint usec
        \<and> sint (timeoutMsec (setTimeout usec w)) = max 1 (sint usec sdiv 1000))
   \<and> sint (getTimeout (setTimeout 2147483648 w)) = - (2 ^ 31) \<and> timeoutMsec (setTimeout 2147483648 w) = 1"
proof -
  have g: "getTimeout (setTimeout u w) = ucast u" if "u \<noteq> usecInvalid" for u
    using that by (simp add: getTimeout_def setTimeout_def)
  have b: "sint (getTimeout (setTimeout 2147483648 w)) = - (2 ^ 31)"
    by (simp add: getTimeout_def setTimeout_def usecInvalid_def)
  then have "sint (timeoutMsec (setTimeout 2147483648 w)) = 1"
    unfolding sint_getTimeout_sdiv b by (simp add: sdiv_pos_cases)
  then have "timeoutMsec (setTimeout 2147483648 w) = 1"
    by (intro signed_word_eqI) simp
  moreover have "sint (getTimeout (setTimeout usec w)) = sint usec"
    if "usec \<noteq> usecInvalid" "- (2 ^ 31) \<le> sint usec" "sint usec < 2 ^ 31"
    using that sint_ucast_small [of usec] by (simp add: g)
  ultimately show ?thesis
    using b by (auto simp: sint_getTimeout_sdiv setTimeout_def)
qed

theorem client_timeout_witness:
  "getTimeout (setTimeout 5000 (fresh_client [] [])) = 5000 \<and> sint (timeoutMsec (setTimeout 5000 (fresh_client [] []))) = 5"
  using client_timeout [of "fresh_client [] []" 5000]
  by (simp add: usecInvalid_def sdiv_pos_cases) (simp add: getTimeout_def setTimeout_def usecInvalid_def)

text \<open>The first client's constructor fails hard: its socket is made before \<open>kissnet_init\<close> has
  installed the error handler, so a name that cannot be resolved aborts the process instead of
  exiting with status 1, as it does from the second client on.  When it succeeds, the handler is
  installed, the socket is open and knows its peer, and the settings are the defaults.\<close>

theorem client_construction:
  assumes "gai (address ep) (show_nat (unat (port ep))) = None"
  shows "ClockClient_new gai sc error_initial w ep = Inl (''getaddrinfo failed!'', Some Abort)
    \<and> snd (projl (ClockClient_new gai sc (kissnet_init e) w ep)) = Some (Exit 1)
    \<and> (\<forall>e' ep' c. ClockClient_new gai sc e w ep' = Inr (e', c) \<longrightarrow>
        on_fatal e' msg = Some (Exit 1) \<and> sock (socket c) \<noteq> INVALID_SOCKET \<and> socket_addrinfo (socket c) \<noteq> None
        \<and> timeout c = 1000 \<and> sequence c = 0 \<and> \<not> acknowledge c)"
proof (intro conjI allI impI)
  show "ClockClient_new gai sc error_initial w ep = Inl (''getaddrinfo failed!'', Some Abort)"
    "snd (projl (ClockClient_new gai sc (kissnet_init e) w ep)) = Some (Exit 1)"
    using assms
    by (simp_all add: ClockClient_new_def udp_socket_new_def handle_def error_initial_def kissnet_init_def kissnet_error_def)
next
  fix e' ep' c
  assume a: "ClockClient_new gai sc e w ep' = Inr (e', c)"
  then obtain s where s: "udp_socket_new gai sc ep' = Inr s" "e' = kissnet_init e"
    "c = os.extend w \<lparr>timeout = 1000, client_rtt = 0, sequence = 0, acknowledge = False, socket = s\<rparr>"
    by (auto simp: ClockClient_new_def split: sum.splits)
  from udp_socket_new_Inr [OF s(1)] show "sock (socket c) \<noteq> INVALID_SOCKET" "socket_addrinfo (socket c) \<noteq> None"
    by (auto simp: s(3) os.extend_def)
  show "on_fatal e' msg = Some (Exit 1)"
    by (simp add: s(2) on_fatal_def handle_def kissnet_init_def kissnet_error_def)
  show "timeout c = 1000" "sequence c = 0" "\<not> acknowledge c" by (simp_all add: s(3) os.extend_def)
qed

theorem client_construction_witness:
  "ClockClient_new (\<lambda>_ _. None) (\<lambda>_. 3) error_initial (os.truncate (fresh_client [] []))
     \<lparr>address = ''nowhere'', port = 4444\<rparr> = Inl (''getaddrinfo failed!'', Some Abort)"
  using client_construction [of "\<lambda>_ _. None" "\<lparr>address = ''nowhere'', port = 4444\<rparr>" "\<lambda>_. 3"
    "os.truncate (fresh_client [] [])" error_initial "[]"] by blast

end
