(* ===== verification/Binary64.thy ===== *)
theory Binary64
  imports Prelude
begin

text \<open>
  The C++ type \<open>double\<close>, IEEE 754 binary64 with rounding to nearest, ties to even, as the
  clocks compute with it (x86-64 and ARMv8, where \<^verbatim>\<open>double\<close> arithmetic is neither
  contracted nor done in excess precision under the flags of the Makefile).

  A finite double is its rational value. \<open>rnd\<close> rounds a rational to 53 significant bits
  (fewer below \<open>2 powi (-1022)\<close>), \<open>fl\<close> adds the overflow to infinity, and each operation is
  the rounding of the exact one. The two zeros are identified: the program never divides by
  anything but a constant or a converted integer, whose zero is \<open>+0\<close>, and no other operation
  tells them apart. Converting a \<open>double\<close> that is out of range of \<open>int64\<close> (undefined in C++)
  gives what the x86-64 instruction gives, the least \<open>int64\<close>.

  The locale \<open>rounding\<close> is the interface the clocks rely on: monotone, exact on representable
  numbers, odd. Its lemmas say what a rounded step towards a target can do.
\<close>

datatype double = Fin rat | PInf | NInf | NaN

section \<open>Rounding\<close>

function ilog2 :: "int \<Rightarrow> int" where
  "ilog2 n = (if n < 2 then 0 else 1 + ilog2 (n div 2))"
  by pat_completeness auto
termination
  by (relation "measure nat") auto

declare ilog2.simps [simp del]

text \<open>The exponent of a positive rational: \<open>2 powi expo x \<le> x < 2 powi (expo x + 1)\<close>.\<close>

definition expo :: "rat \<Rightarrow> int" where
  "expo x = (let (p, q) = quotient_of x; e = ilog2 p - ilog2 q
             in if 2 powi e \<le> x then e else e - 1)"

definition round_half_even :: "rat \<Rightarrow> int" where
  "round_half_even y =
    (let f = \<lfloor>y\<rfloor>; r = y - of_int f
     in if r < 1 / 2 then f else if 1 / 2 < r then f + 1 else if even f then f else f + 1)"

definition ulp :: "rat \<Rightarrow> rat" where
  "ulp x = 2 powi (max (expo \<bar>x\<bar>) (- 1022) - 52)"

definition rnd :: "rat \<Rightarrow> rat" where
  "rnd x = (if x = 0 then 0 else of_int (round_half_even (x / ulp x)) * ulp x)"

definition fl :: "rat \<Rightarrow> double" where
  "fl x = (let r = rnd x in if 2 ^ 1024 \<le> r then PInf else if r \<le> - (2 ^ 1024) then NInf else Fin r)"

section \<open>Operations\<close>

fun dneg :: "double \<Rightarrow> double" where
  "dneg (Fin a) = Fin (- a)"
| "dneg PInf = NInf"
| "dneg NInf = PInf"
| "dneg NaN = NaN"

fun dadd :: "double \<Rightarrow> double \<Rightarrow> double" where
  "dadd (Fin a) (Fin b) = fl (a + b)"
| "dadd NaN _ = NaN"
| "dadd _ NaN = NaN"
| "dadd PInf NInf = NaN"
| "dadd NInf PInf = NaN"
| "dadd PInf _ = PInf"
| "dadd _ PInf = PInf"
| "dadd NInf _ = NInf"
| "dadd _ NInf = NInf"

definition dsub :: "double \<Rightarrow> double \<Rightarrow> double" where
  "dsub a b = dadd a (dneg b)"

definition inf_of :: "bool \<Rightarrow> double" where
  "inf_of pos = (if pos then PInf else NInf)"

fun dmul :: "double \<Rightarrow> double \<Rightarrow> double" where
  "dmul (Fin a) (Fin b) = fl (a * b)"
| "dmul NaN _ = NaN"
| "dmul _ NaN = NaN"
| "dmul (Fin a) PInf = (if a = 0 then NaN else inf_of (0 < a))"
| "dmul (Fin a) NInf = (if a = 0 then NaN else inf_of (a < 0))"
| "dmul PInf (Fin b) = (if b = 0 then NaN else inf_of (0 < b))"
| "dmul NInf (Fin b) = (if b = 0 then NaN else inf_of (b < 0))"
| "dmul PInf PInf = PInf"
| "dmul NInf NInf = PInf"
| "dmul _ _ = NInf"

fun ddiv :: "double \<Rightarrow> double \<Rightarrow> double" where
  "ddiv (Fin a) (Fin b) = (if b = 0 then (if a = 0 then NaN else inf_of (0 < a)) else fl (a / b))"
| "ddiv NaN _ = NaN"
| "ddiv _ NaN = NaN"
| "ddiv PInf (Fin b) = inf_of (0 \<le> b)"
| "ddiv NInf (Fin b) = inf_of (b < 0)"
| "ddiv (Fin a) _ = Fin 0"
| "ddiv _ _ = NaN"

fun dle :: "double \<Rightarrow> double \<Rightarrow> bool" where
  "dle (Fin a) (Fin b) = (a \<le> b)"
| "dle NaN _ = False"
| "dle _ NaN = False"
| "dle NInf _ = True"
| "dle _ PInf = True"
| "dle _ _ = False"

definition double_of_int64 :: "int64 \<Rightarrow> double" where
  "double_of_int64 a = fl (of_int (sint a))"

definition trunc :: "rat \<Rightarrow> int" where
  "trunc r = (if 0 \<le> r then \<lfloor>r\<rfloor> else \<lceil>r\<rceil>)"

fun int64_of_double :: "double \<Rightarrow> int64" where
  "int64_of_double (Fin r) = (let k = trunc r in if in_int64 k then word_of_int k else 0x8000000000000000)"
| "int64_of_double _ = 0x8000000000000000"

section \<open>Exponents\<close>

lemma ilog2_nonneg: "0 \<le> ilog2 n"
proof (induction n rule: ilog2.induct)
  case (1 n)
  then show ?case by (subst ilog2.simps) simp
qed

lemma ilog2_bounds: "1 \<le> n \<Longrightarrow> 2 ^ nat (ilog2 n) \<le> n \<and> n < 2 ^ Suc (nat (ilog2 n))"
proof (induction n rule: ilog2.induct)
  case (1 n)
  show ?case
  proof (cases "n < 2")
    case True
    with "1.prems" have "n = 1" by simp
    then show ?thesis by (simp add: ilog2.simps)
  next
    case False
    let ?k = "nat (ilog2 (n div 2))"
    from False "1.IH" have IH: "2 ^ ?k \<le> n div 2" "n div 2 < 2 ^ Suc ?k" by simp_all
    have e: "nat (ilog2 n) = Suc ?k"
      using False ilog2_nonneg [of "n div 2"] by (subst ilog2.simps) (simp add: nat_add_distrib)
    have "2 * 2 ^ ?k \<le> n" using IH(1) by linarith
    moreover have "n < 2 * 2 ^ Suc ?k" using IH(2) by linarith
    ultimately show ?thesis by (simp add: e)
  qed
qed

lemma of_int_pow2: "0 \<le> e \<Longrightarrow> (of_int (2 ^ nat e) :: rat) = 2 powi e"
  by (simp add: power_int_nonneg_exp)

lemma ilog2_rat:
  assumes "1 \<le> n"
  shows "2 powi ilog2 n \<le> (of_int n :: rat)" "(of_int n :: rat) < 2 powi (ilog2 n + 1)"
proof -
  have "(of_int (2 ^ nat (ilog2 n)) :: rat) \<le> of_int n"
    using ilog2_bounds [OF assms] by (simp only: of_int_le_iff)
  then show "2 powi ilog2 n \<le> (of_int n :: rat)" by (simp only: of_int_pow2 ilog2_nonneg)
  have "(of_int n :: rat) < of_int (2 ^ Suc (nat (ilog2 n)))"
    using ilog2_bounds [OF assms] by (simp only: of_int_less_iff)
  also have "(of_int (2 ^ Suc (nat (ilog2 n))) :: rat) = 2 powi (ilog2 n + 1)"
    using ilog2_nonneg [of n] of_int_pow2 [of "ilog2 n + 1"] by (simp add: nat_add_distrib)
  finally show "(of_int n :: rat) < 2 powi (ilog2 n + 1)" .
qed

lemma expo_bounds:
  assumes "0 < x"
  shows "2 powi expo x \<le> x" "x < 2 powi (expo x + 1)"
proof -
  obtain p q where pq: "quotient_of x = (p, q)" by fastforce
  have q: "1 \<le> q" using quotient_of_denom_pos [OF pq] by simp
  have x: "x = of_int p / of_int q" by (rule quotient_of_div [OF pq])
  have p: "1 \<le> p" using assms q by (simp add: x zero_less_divide_iff)
  let ?e = "ilog2 p - ilog2 q"
  have "x < 2 powi (ilog2 p + 1) / 2 powi ilog2 q"
    unfolding x by (rule frac_less) (use ilog2_rat [OF p] ilog2_rat [OF q] p in auto)
  then have hi: "x < 2 powi (?e + 1)" by (simp add: power_int_diff power_int_add)
  have "2 powi ilog2 p / 2 powi (ilog2 q + 1) \<le> x"
    unfolding x by (rule frac_le) (use ilog2_rat [OF p] ilog2_rat [OF q] p q in auto)
  then have lo: "2 powi (?e - 1) \<le> x" by (simp add: power_int_diff power_int_add)
  show "2 powi expo x \<le> x" "x < 2 powi (expo x + 1)"
    using hi lo by (auto simp: expo_def pq Let_def)
qed

lemma pow2_less_iff: "(2 :: rat) powi a < 2 powi b \<longleftrightarrow> a < b"
  by (metis linorder_not_less one_less_numeral_iff power_int_increasing power_int_strict_increasing
      semiring_norm(76) one_le_numeral)

lemma pow2_le_iff: "(2 :: rat) powi a \<le> 2 powi b \<longleftrightarrow> a \<le> b"
  using pow2_less_iff [of b a] by (simp add: linorder_not_less [symmetric])

lemma expo_unique: "2 powi e \<le> x \<Longrightarrow> x < 2 powi (e + 1) \<Longrightarrow> expo x = e"
proof -
  assume e: "2 powi e \<le> x" "x < 2 powi (e + 1)"
  have "0 < x" by (rule less_le_trans [OF _ e(1)]) simp
  from expo_bounds [OF this] e have "(2 :: rat) powi e < 2 powi (expo x + 1)" "(2 :: rat) powi expo x < 2 powi (e + 1)"
    by (meson le_less_trans)+
  then show ?thesis by (simp add: pow2_less_iff)
qed

lemma expo_mono: "0 < x \<Longrightarrow> x \<le> y \<Longrightarrow> expo x \<le> expo y"
proof -
  assume "0 < x" "x \<le> y"
  then have "(2 :: rat) powi expo x < 2 powi (expo y + 1)"
    using expo_bounds(1) [of x] expo_bounds(2) [of y] by (meson le_less_trans less_le_trans order_trans)
  then show ?thesis by (simp add: pow2_less_iff)
qed

section \<open>Rounding to an integer\<close>

lemma round_half_even_between: "\<lfloor>y\<rfloor> \<le> round_half_even y \<and> round_half_even y \<le> \<lfloor>y\<rfloor> + 1"
  by (simp add: round_half_even_def Let_def)

lemma round_half_even_of_int [simp]: "round_half_even (of_int n) = n"
  by (simp add: round_half_even_def)

lemma round_half_even_mono: "y \<le> z \<Longrightarrow> round_half_even y \<le> round_half_even z"
proof (cases "\<lfloor>y\<rfloor> = \<lfloor>z\<rfloor>")
  case True
  assume "y \<le> z"
  then show ?thesis unfolding round_half_even_def Let_def True by auto
next
  case False
  assume "y \<le> z"
  with False have "\<lfloor>y\<rfloor> + 1 \<le> \<lfloor>z\<rfloor>" using floor_mono [of y z] by linarith
  then show ?thesis
    using round_half_even_between [of y] round_half_even_between [of z] by linarith
qed

lemma round_half_even_le: "y \<le> of_int n \<Longrightarrow> round_half_even y \<le> n"
  using round_half_even_mono [of y "of_int n"] by simp

lemma round_half_even_ge: "of_int n \<le> y \<Longrightarrow> n \<le> round_half_even y"
  using round_half_even_mono [of "of_int n" y] by simp

lemma round_half_even_minus: "round_half_even (- y) = - round_half_even y"
proof (cases "y \<in> \<int>")
  case True
  then obtain n where "y = of_int n" by (auto elim: Ints_cases)
  then show ?thesis using round_half_even_of_int [of "- n"] by simp
next
  case False
  then have "\<lfloor>- y\<rfloor> = - \<lfloor>y\<rfloor> - 1"
    by (metis add.inverse_inverse ceiling_altdef ceiling_def diff_minus_eq_add minus_add_distrib
        Ints_of_int uminus_add_conv_diff minus_diff_eq)
  then show ?thesis by (auto simp: round_half_even_def Let_def)
qed

lemma round_half_even_error: "\<bar>of_int (round_half_even y) - y\<bar> \<le> 1 / 2"
  using floor_correct [of y] by (auto simp: round_half_even_def Let_def abs_le_iff)

section \<open>Rounding to 53 bits\<close>

definition representable :: "rat \<Rightarrow> bool" where
  "representable r \<longleftrightarrow> (\<exists>m e. r = of_int m * 2 powi e \<and> \<bar>m\<bar> \<le> 2 ^ 53 \<and> - 1074 \<le> e)"

lemma ulp_pos [simp]: "0 < ulp x"
  by (simp add: ulp_def)

lemma ulp_nonneg [simp]: "0 \<le> ulp x"
  by (rule less_imp_le) simp

lemma ulp_nonzero [simp]: "ulp x \<noteq> 0"
  using ulp_pos [of x] by linarith

lemma ulp_minus [simp]: "ulp (- x) = ulp x"
  by (simp add: ulp_def)

lemma rnd_0 [simp]: "rnd 0 = 0"
  by (simp add: rnd_def)

lemma rnd_minus: "rnd (- x) = - rnd x"
  by (simp add: rnd_def round_half_even_minus)

lemma pow2_nat: "(2 :: rat) powi (e + int n) = 2 ^ n * 2 powi e"
  by (simp add: power_int_add)

text \<open>The quotient by the unit in the last place has at most 53 bits.\<close>

lemma scaled_bounds:
  assumes "0 < x"
  shows "0 < x / ulp x" "x / ulp x \<le> of_int (2 ^ 53)"
    "- 1022 \<le> expo x \<Longrightarrow> of_int (2 ^ 52) \<le> x / ulp x"
proof -
  let ?e = "max (expo x) (- 1022)"
  have u: "ulp x = 2 powi (?e - 52)" using assms by (simp add: ulp_def)
  show "0 < x / ulp x" using assms by simp
  have "x \<le> 2 powi (?e + 1)"
    using expo_bounds(2) [OF assms] pow2_le_iff [of "expo x + 1" "?e + 1"] by linarith
  also have "\<dots> = of_int (2 ^ 53) * ulp x" using pow2_nat [of "?e - 52" 53] by (simp add: u add.commute)
  finally show "x / ulp x \<le> of_int (2 ^ 53)" by (simp add: pos_divide_le_eq)
  assume "- 1022 \<le> expo x"
  then have "of_int (2 ^ 52) * ulp x = 2 powi expo x" using pow2_nat [of "?e - 52" 52] by (simp add: u)
  then show "of_int (2 ^ 52) \<le> x / ulp x"
    using expo_bounds(1) [OF assms] by (simp add: pos_le_divide_eq)
qed

lemma rnd_pos_props:
  assumes "0 < x"
  shows "0 \<le> rnd x" "rnd x \<le> 2 powi (max (expo x) (- 1022) + 1)"
    "- 1022 \<le> expo x \<Longrightarrow> 2 powi expo x \<le> rnd x" "representable (rnd x)"
proof -
  let ?e = "max (expo x) (- 1022)"
  let ?m = "round_half_even (x / ulp x)"
  have r: "rnd x = of_int ?m * ulp x" and u: "ulp x = 2 powi (?e - 52)"
    using assms by (simp_all add: rnd_def ulp_def)
  have m: "0 \<le> ?m" "?m \<le> 2 ^ 53"
    using scaled_bounds [OF assms] round_half_even_ge [of 0] by (auto intro: round_half_even_le)
  show "0 \<le> rnd x" using m by (simp add: r)
  have "of_int ?m * ulp x \<le> of_int (2 ^ 53) * ulp x"
    by (rule mult_right_mono) (use m(2) in \<open>simp_all only: of_int_le_iff ulp_pos less_imp_le\<close>)
  also have "\<dots> = 2 powi (?e + 1)" using pow2_nat [of "?e - 52" 53] by (simp add: u add.commute)
  finally show "rnd x \<le> 2 powi (?e + 1)" by (simp only: r)
  show "2 powi expo x \<le> rnd x" if n: "- 1022 \<le> expo x"
  proof -
    have "2 ^ 52 \<le> ?m" using scaled_bounds(3) [OF assms n] by (rule round_half_even_ge)
    then have "of_int (2 ^ 52) * ulp x \<le> of_int ?m * ulp x"
      by (intro mult_right_mono) (simp_all only: of_int_le_iff ulp_pos less_imp_le)
    moreover have "of_int (2 ^ 52) * ulp x = 2 powi expo x"
      using pow2_nat [of "?e - 52" 52] n by (simp add: u)
    ultimately show ?thesis by (simp only: r)
  qed
  show "representable (rnd x)"
    unfolding representable_def using m r u by (auto intro!: exI [of _ ?m, OF exI [of _ "?e - 52"]])
qed

lemma representable_minus: "representable (- x) \<longleftrightarrow> representable x"
proof -
  have *: "representable (- x)" if "representable x" for x
  proof -
    from that obtain m e where "x = of_int m * 2 powi e" "\<bar>m\<bar> \<le> 2 ^ 53" "- 1074 \<le> e"
      unfolding representable_def by blast
    then show ?thesis unfolding representable_def by (intro exI [of _ "- m"] exI [of _ e]) simp
  qed
  show ?thesis using * [of x] * [of "- x"] by auto
qed

lemma representable_0 [simp]: "representable 0"
  unfolding representable_def by (intro exI [of _ 0] exI [of _ "- 1074"]) simp

lemma representable_rnd [simp]: "representable (rnd x)"
proof (cases x "0 :: rat" rule: linorder_cases)
  case less
  then have "representable (rnd (- x))" by (intro rnd_pos_props) simp
  then show ?thesis by (simp add: rnd_minus representable_minus)
qed (simp_all add: rnd_pos_props)

lemma rnd_mono_pos:
  assumes "0 < x" "x \<le> y"
  shows "rnd x \<le> rnd y"
proof -
  let ?ex = "max (expo x) (- 1022)" and ?ey = "max (expo y) (- 1022)"
  have y: "0 < y" using assms by simp
  have le: "expo x \<le> expo y" by (rule expo_mono [OF assms])
  show ?thesis
  proof (cases "?ex = ?ey")
    case True
    then have u: "ulp x = ulp y" using assms y by (simp add: ulp_def)
    have "x / ulp y \<le> y / ulp y" using assms by (simp add: divide_right_mono less_imp_le)
    then have "round_half_even (x / ulp y) \<le> round_half_even (y / ulp y)" by (rule round_half_even_mono)
    then show ?thesis using assms y u by (simp add: rnd_def)
  next
    case False
    with le have lt: "?ex + 1 \<le> expo y" and n: "- 1022 \<le> expo y" by auto
    have "rnd x \<le> 2 powi (?ex + 1)" by (rule rnd_pos_props(2) [OF assms(1)])
    also have "\<dots> \<le> 2 powi expo y" using lt by (simp only: pow2_le_iff)
    also have "\<dots> \<le> rnd y" by (rule rnd_pos_props(3) [OF y n])
    finally show ?thesis .
  qed
qed

lemma rnd_nonneg: "0 \<le> x \<Longrightarrow> 0 \<le> rnd x"
  using rnd_pos_props(1) [of x] by (cases "x = 0") auto

lemma rnd_mono:
  assumes "x \<le> y"
  shows "rnd x \<le> rnd y"
proof (cases "0 < x")
  case True
  then show ?thesis using assms by (rule rnd_mono_pos)
next
  case False
  then have x: "rnd x \<le> 0" using rnd_nonneg [of "- x"] by (simp add: rnd_minus)
  show ?thesis
  proof (cases "0 \<le> y")
    case True
    then show ?thesis using x rnd_nonneg [of y] by linarith
  next
    case False
    then have "rnd (- y) \<le> rnd (- x)" using assms by (intro rnd_mono_pos) auto
    then show ?thesis by (simp add: rnd_minus)
  qed
qed

lemma rnd_of_scaled: "0 < x \<Longrightarrow> x / ulp x = of_int n \<Longrightarrow> rnd x = x"
  by (simp add: rnd_def) (metis nonzero_divide_eq_eq ulp_nonzero)

lemma rnd_exact_pos:
  assumes "0 < x" "representable x"
  shows "rnd x = x"
proof -
  from assms(2) obtain m e where x: "x = of_int m * 2 powi e" and m: "\<bar>m\<bar> \<le> 2 ^ 53" and e: "- 1074 \<le> e"
    unfolding representable_def by blast
  let ?ex = "max (expo x) (- 1022)"
  have u: "ulp x = 2 powi (?ex - 52)" using assms by (simp add: ulp_def)
  show ?thesis
  proof (cases "?ex - 52 \<le> e")
    case True
    then have "2 powi e = 2 ^ nat (e - (?ex - 52)) * ulp x"
      using pow2_nat [of "?ex - 52" "nat (e - (?ex - 52))"] by (simp add: u)
    then have "x = of_int (m * 2 ^ nat (e - (?ex - 52))) * ulp x" using x by simp
    then have "x / ulp x = of_int (m * 2 ^ nat (e - (?ex - 52)))" by (metis nonzero_divide_eq_eq ulp_nonzero)
    with assms(1) show ?thesis by (rule rnd_of_scaled)
  next
    case False
    then have ex: "?ex = expo x" and le: "e + 53 \<le> expo x" using e by auto
    have "x \<le> of_int (2 ^ 53) * 2 powi e"
      unfolding x by (rule mult_right_mono) (use m in \<open>simp_all only: of_int_le_iff, simp_all\<close>)
    also have "\<dots> = 2 powi (e + 53)" using pow2_nat [of e 53] by simp
    also have "\<dots> \<le> 2 powi expo x" using le by (simp only: pow2_le_iff)
    finally have "x = 2 powi expo x" using expo_bounds(1) [OF assms(1)] by simp
    moreover have "2 powi expo x = of_int (2 ^ 52) * ulp x"
      using pow2_nat [of "expo x - 52" 52] by (simp only: u ex) simp
    ultimately have "x / ulp x = of_int (2 ^ 52)" by (metis nonzero_divide_eq_eq ulp_nonzero)
    with assms(1) show ?thesis by (rule rnd_of_scaled)
  qed
qed

lemma rnd_exact:
  assumes "representable x"
  shows "rnd x = x"
proof (cases x "0 :: rat" rule: linorder_cases)
  case less
  then have "rnd (- x) = - x" using assms by (intro rnd_exact_pos) (simp_all add: representable_minus)
  then show ?thesis by (simp add: rnd_minus)
qed (use assms in \<open>auto intro: rnd_exact_pos\<close>)

lemma representable_pow2: "- 1074 \<le> e \<Longrightarrow> representable (2 powi e)"
  unfolding representable_def by (intro exI [of _ 1] exI [of _ e]) simp

lemma representable_of_int: "\<bar>n\<bar> \<le> 2 ^ 53 \<Longrightarrow> representable (of_int n)"
  unfolding representable_def by (intro exI [of _ n] exI [of _ 0]) simp

text \<open>A representable number is a multiple of the least positive one.\<close>

lemma representable_multiple: "representable x \<Longrightarrow> \<exists>k. x = of_int k * 2 powi (- 1074)"
proof -
  assume "representable x"
  then obtain m e where x: "x = of_int m * 2 powi e" and e: "- 1074 \<le> e"
    unfolding representable_def by blast
  have "2 powi e = (2 ^ nat (e + 1074) :: rat) * 2 powi (- 1074)"
    using pow2_nat [of "- 1074" "nat (e + 1074)"] e by simp
  then show ?thesis
    by (intro exI [of _ "m * 2 ^ nat (e + 1074)"]) (simp add: x)
qed

text \<open>Two different representable numbers have a power of two that brackets their distance.\<close>

lemma representable_bracket:
  assumes "representable a" "representable b" "a < b"
  shows "\<exists>z. representable z \<and> representable (2 * z) \<and> z \<le> b - a \<and> b - a \<le> 2 * z"
proof -
  obtain i j where ij: "a = of_int i * 2 powi (- 1074)" "b = of_int j * 2 powi (- 1074)"
    using representable_multiple assms by blast
  have pos: "0 < b - a" using assms(3) by simp
  have "i < j" using assms(3) by (simp add: ij del: power_int_minus)
  then have "(1 :: rat) \<le> of_int (j - i)" by simp
  then have "1 * 2 powi (- 1074) \<le> of_int (j - i) * (2 :: rat) powi (- 1074)"
    by (rule mult_right_mono) simp
  then have "2 powi (- 1074) \<le> b - a" by (simp add: ij algebra_simps)
  then have "(2 :: rat) powi (- 1074) < 2 powi (expo (b - a) + 1)"
    using expo_bounds(2) [OF pos] by (rule le_less_trans)
  then have "- 1074 < expo (b - a) + 1" by (simp only: pow2_less_iff)
  then have e: "- 1074 \<le> expo (b - a)" by linarith
  have "2 * 2 powi expo (b - a) = (2 :: rat) powi (expo (b - a) + 1)" by (simp add: power_int_add)
  then show ?thesis
    using expo_bounds [OF pos] e representable_pow2 [of "expo (b - a)"] representable_pow2 [of "expo (b - a) + 1"]
    by (intro exI [of _ "2 powi expo (b - a)"]) auto
qed

section \<open>The interface of rounded arithmetic\<close>

locale rounding =
  fixes round :: "rat \<Rightarrow> rat" and rep :: "rat \<Rightarrow> bool"
  assumes round_mono: "x \<le> y \<Longrightarrow> round x \<le> round y"
    and round_exact: "rep x \<Longrightarrow> round x = x"
    and rep_round: "rep (round x)"
    and round_minus: "round (- x) = - round x"
    and rep_minus: "rep x \<Longrightarrow> rep (- x)"
    and bracket: "rep a \<Longrightarrow> rep b \<Longrightarrow> a < b \<Longrightarrow>
      \<exists>z. rep z \<and> rep (2 * z) \<and> z \<le> b - a \<and> b - a \<le> 2 * z"
begin

lemma round_ge: "rep a \<Longrightarrow> a \<le> x \<Longrightarrow> a \<le> round x"
  using round_mono [of a x] by (simp add: round_exact)

lemma round_le: "rep b \<Longrightarrow> x \<le> b \<Longrightarrow> round x \<le> b"
  using round_mono [of x b] by (simp add: round_exact)

lemma round_zero: "round 0 = 0"
  using round_minus [of 0] by simp

lemma round_idem: "round (round x) = round x"
  by (rule round_exact) (rule rep_round)

text \<open>A step from \<open>a\<close> a fraction \<open>c\<close> of the way up to \<open>f\<close> does not overshoot.\<close>

lemma step_up:
  assumes "rep a" "rep f" "a \<le> f" "0 \<le> c" "c \<le> 1 / 2"
  shows "a \<le> round (a + round (round (f - a) * c))" "round (a + round (round (f - a) * c)) \<le> f"
proof -
  have d: "0 \<le> round (f - a)" using assms round_mono [of 0 "f - a"] by (simp add: round_zero)
  then have s: "0 \<le> round (round (f - a) * c)"
    using assms round_mono [of 0 "round (f - a) * c"] by (simp add: round_zero)
  then show "a \<le> round (a + round (round (f - a) * c))" by (intro round_ge) (use assms in auto)
  have "round (round (f - a) * c) \<le> f - a"
  proof (cases "a = f")
    case True
    then show ?thesis by (simp add: round_zero)
  next
    case False
    then obtain z where z: "rep z" "rep (2 * z)" "z \<le> f - a" "f - a \<le> 2 * z"
      using bracket [of a f] assms by auto
    have "round (f - a) \<le> 2 * z" by (rule round_le) (use z in auto)
    then have "round (f - a) * c \<le> 2 * z * (1 / 2)"
      using d assms by (intro mult_mono) auto
    then have "round (round (f - a) * c) \<le> z" by (intro round_le) (use z in auto)
    with z show ?thesis by linarith
  qed
  then show "round (a + round (round (f - a) * c)) \<le> f" by (intro round_le) (use assms in auto)
qed

lemma step_down:
  assumes "rep a" "rep f" "f \<le> a" "0 \<le> c" "c \<le> 1 / 2"
  shows "f \<le> round (a + round (round (f - a) * c))" "round (a + round (round (f - a) * c)) \<le> a"
proof -
  have e: "- round (a + round (round (f - a) * c)) = round (- a + round (round (- f - - a) * c))"
    by (metis add_uminus_conv_diff minus_add_distrib minus_diff_eq mult_minus_left round_minus)
  show "f \<le> round (a + round (round (f - a) * c))" "round (a + round (round (f - a) * c)) \<le> a"
    using step_up [of "- a" "- f" c, folded e] assms by (auto simp: rep_minus)
qed

lemma step_between:
  assumes "rep a" "rep f" "lo \<le> a" "lo \<le> f" "a \<le> hi" "f \<le> hi" "0 \<le> c" "c \<le> 1 / 2"
  shows "lo \<le> round (a + round (round (f - a) * c))" "round (a + round (round (f - a) * c)) \<le> hi"
  using assms step_up [of a f c] step_down [of a f c] by (cases "a \<le> f"; force)+

end

interpretation ieee: rounding rnd representable
  by unfold_locales
    (auto simp: rnd_mono rnd_exact rnd_minus representable_minus intro: representable_bracket)

section \<open>Doubles\<close>

text \<open>The values a \<open>double\<close> can have.\<close>

fun is_double :: "double \<Rightarrow> bool" where
  "is_double (Fin r) \<longleftrightarrow> representable r \<and> \<bar>r\<bar> < 2 ^ 1024"
| "is_double _ \<longleftrightarrow> True"

lemma is_double_fl: "is_double (fl x)"
  by (simp add: fl_def Let_def abs_less_iff)

lemma fl_rnd: "\<bar>rnd x\<bar> < 2 ^ 1024 \<Longrightarrow> fl x = Fin (rnd x)"
  by (simp add: fl_def Let_def abs_less_iff not_le)

lemma fl_exact: "representable x \<Longrightarrow> \<bar>x\<bar> < 2 ^ 1024 \<Longrightarrow> fl x = Fin x"
  by (simp add: fl_rnd rnd_exact)

lemma fl_bounded:
  assumes "representable b" "b < 2 ^ 1024" "\<bar>x\<bar> \<le> b"
  shows "fl x = Fin (rnd x)" "\<bar>rnd x\<bar> \<le> b"
proof -
  have "rnd x \<le> b" "- b \<le> rnd x"
    using assms ieee.round_le [of b x] ieee.round_ge [of "- b" x] by (auto simp: abs_le_iff representable_minus)
  then show "\<bar>rnd x\<bar> \<le> b" by (simp add: abs_le_iff)
  with assms(2) show "fl x = Fin (rnd x)" by (intro fl_rnd) linarith
qed

lemma fl_of_int: "\<bar>n\<bar> \<le> 2 ^ 53 \<Longrightarrow> fl (of_int n) = Fin (of_int n)"
proof -
  assume n: "\<bar>n\<bar> \<le> 2 ^ 53"
  then have "\<bar>of_int n :: rat\<bar> \<le> 2 ^ 53"
    by (metis of_int_abs of_int_le_iff of_int_numeral of_int_power)
  also have "(2 :: rat) ^ 53 < 2 ^ 1024" by (rule power_strict_increasing) simp_all
  finally show ?thesis using n by (intro fl_exact representable_of_int)
qed

lemma double_of_int64_exact: "\<bar>sint a\<bar> \<le> 2 ^ 53 \<Longrightarrow> double_of_int64 a = Fin (of_int (sint a))"
  unfolding double_of_int64_def by (rule fl_of_int)

lemma representable_2_63: "representable (2 ^ 63)"
  using representable_pow2 [of 63] by simp

lemma abs_sint_le: "\<bar>of_int (sint (a :: int64)) :: rat\<bar> \<le> 2 ^ 63"
proof -
  have "\<bar>sint a\<bar> \<le> 2 ^ 63" using sint_int64_bounds [of a] by linarith
  then show ?thesis by (metis of_int_abs of_int_le_iff of_int_numeral of_int_power)
qed

lemma double_of_int64_Fin:
  "double_of_int64 a = Fin (rnd (of_int (sint a)))" "\<bar>rnd (of_int (sint a))\<bar> \<le> 2 ^ 63"
proof -
  have lt: "(2 :: rat) ^ 63 < 2 ^ 1024" by (rule power_strict_increasing) simp_all
  show "double_of_int64 a = Fin (rnd (of_int (sint a)))"
    unfolding double_of_int64_def by (rule fl_bounded(1) [OF representable_2_63 lt abs_sint_le])
  show "\<bar>rnd (of_int (sint a))\<bar> \<le> 2 ^ 63"
    by (rule fl_bounded(2) [OF representable_2_63 lt abs_sint_le])
qed

lemma trunc_of_int [simp]: "trunc (of_int k) = k"
  by (simp add: trunc_def)

lemma trunc_signed [simp]: "trunc (signed (a :: int64)) = sint a"
  using trunc_of_int [of "sint a"] by simp

lemma trunc_mono: "x \<le> y \<Longrightarrow> trunc x \<le> trunc y"
proof -
  assume xy: "x \<le> y"
  consider "0 \<le> x" | "x < 0" "0 \<le> y" | "y < 0" using xy by linarith
  then show ?thesis
  proof cases
    case 2
    have "\<lceil>x\<rceil> \<le> \<lfloor>y\<rfloor>" by (rule order_trans [of _ 0]) (use 2 in \<open>simp_all add: ceiling_le_iff\<close>)
    with 2 show ?thesis by (simp add: trunc_def)
  qed (use xy in \<open>auto simp: trunc_def floor_mono ceiling_mono\<close>)
qed

lemma int64_of_double_of_int: "in_int64 k \<Longrightarrow> int64_of_double (Fin (of_int k)) = word_of_int k"
  by simp

text \<open>A NaN is absorbed by no operation.\<close>

lemma dadd_NaN [simp]: "dadd NaN d = NaN" "dadd d NaN = NaN"
  by (cases d; simp)+

lemma dmul_NaN [simp]: "dmul NaN d = NaN" "dmul d NaN = NaN"
  by (cases d; simp)+

lemma dsub_NaN [simp]: "dsub NaN d = NaN" "dsub d NaN = NaN"
  by (simp_all add: dsub_def)

lemma dle_NaN [simp]: "\<not> dle NaN d" "\<not> dle d NaN"
  by (cases d; simp)+

lemma dsub_Fin [simp]: "dsub (Fin a) (Fin b) = fl (a - b)"
  by (simp add: dsub_def)

text \<open>Converting a count to \<open>double\<close> and back is exact up to \<open>2 ^ 53\<close>.\<close>

lemma int64_double_roundtrip: "\<bar>sint a\<bar> \<le> 2 ^ 53 \<Longrightarrow> int64_of_double (double_of_int64 a) = a"
  by (simp add: double_of_int64_exact Let_def)

text \<open>Every sum is a double: it is rounded, infinite, or no number.\<close>

lemma is_double_dadd: "is_double (dadd a b)"
  by (cases a; cases b; simp add: is_double_fl)

end
