(* ===== verification/VariableFrequencyClock.thy ===== *)
theory VariableFrequencyClock
  imports Platform Binary64
begin

text \<open>
  \<open>VariableFrequencyClock\<close>: a clock that counts the microseconds of a source clock, scaled by
  \<open>frequency / 1000000\<close>, from the last marker. Its methods act on the pair of the object and the
  state that the source clock's \<open>getValue\<close> acts on.

  The lemmas give the value on every branch, its behaviour at the nominal frequency and its
  monotonicity, what a change of frequency does to the value, and that only \<open>setValue\<close> makes a
  clock whose source failed valid again.
\<close>

record vfc =
  frequency :: double
  markerSrc :: tp
  marker :: tp
  rolledOver :: bool

definition VariableFrequencyClock_new :: "('w, tp) call \<Rightarrow> double \<Rightarrow> ('w, vfc) call" where
  "VariableFrequencyClock_new clockSrcGetValue freq w = do {
     (m, w) \<leftarrow> clockSrcGetValue w;
     Some (\<lparr>frequency = freq, markerSrc = m, marker = tp0, rolledOver = False\<rparr>, w)
   }"

definition frequencySrc :: double where
  "frequencySrc = Fin 1000000"

text \<open>The scaled ticks: \<^verbatim>\<open>DurFromUsec(ticksSrc * (frequency / frequencySrc))\<close>.\<close>

definition scaled_ticks :: "double \<Rightarrow> int64 \<Rightarrow> dur" where
  "scaled_ticks freq ticksSrc =
    DurFromUsec (int64_of_double (dmul (double_of_int64 ticksSrc) (ddiv freq frequencySrc)))"

definition VariableFrequencyClock_getValue :: "('w, tp) call \<Rightarrow> (vfc \<times> 'w, tp) call" where
  "VariableFrequencyClock_getValue clockSrcGetValue s =
    (let (v, w) = s in
     if rolledOver v then Some (tpInvalid, (v, w))
     else do {
       (now, w) \<leftarrow> clockSrcGetValue w;
       let tSrc = diff now (markerSrc v);
       if tSrc = durInvalid then Some (tpInvalid, (v, w))
       else let ticksSrc = UsecFromDur tSrc in
         if ticksSrc <s 0 then Some (tpInvalid, (v\<lparr>rolledOver := True\<rparr>, w))
         else Some (if marker v = tpInvalid then tpInvalid
                    else marker v + scaled_ticks (frequency v) ticksSrc, (v, w))
     })"

definition VariableFrequencyClock_setValue :: "('w, tp) call \<Rightarrow> tp \<Rightarrow> (vfc \<times> 'w, unit) call" where
  "VariableFrequencyClock_setValue clockSrcGetValue t s =
    (let (v, w) = s in do {
       (m, w) \<leftarrow> clockSrcGetValue w;
       Some ((), (v\<lparr>marker := t, markerSrc := m, rolledOver := False\<rparr>, w))
     })"

definition VariableFrequencyClock_updateMarkers :: "('w, tp) call \<Rightarrow> (vfc \<times> 'w, unit) call" where
  "VariableFrequencyClock_updateMarkers clockSrcGetValue s =
    (if \<not> rolledOver (fst s) then do {
       (t, s) \<leftarrow> VariableFrequencyClock_getValue clockSrcGetValue s;
       VariableFrequencyClock_setValue clockSrcGetValue t s
     } else Some ((), s))"

definition VariableFrequencyClock_setFrequency :: "('w, tp) call \<Rightarrow> double \<Rightarrow> (vfc \<times> 'w, unit) call" where
  "VariableFrequencyClock_setFrequency clockSrcGetValue freq s = do {
     (_, s) \<leftarrow> VariableFrequencyClock_updateMarkers clockSrcGetValue s;
     if dle freq (Fin 0) then Some ((), s)
     else VariableFrequencyClock_updateMarkers clockSrcGetValue ((fst s)\<lparr>frequency := freq\<rparr>, snd s)
   }"

lemmas vfc_defs = VariableFrequencyClock_getValue_def VariableFrequencyClock_setValue_def
  VariableFrequencyClock_updateMarkers_def VariableFrequencyClock_setFrequency_def

section \<open>The value, branch by branch\<close>

text \<open>The value that a reading \<open>r\<close> of the source stands for, and whether it shows a roll-over.\<close>

definition vfc_value :: "vfc \<Rightarrow> tp \<Rightarrow> tp" where
  "vfc_value v r =
    (if rolledOver v \<or> diff r (markerSrc v) = durInvalid \<or> diff r (markerSrc v) <s 0 \<or> marker v = tpInvalid
     then tpInvalid else marker v + scaled_ticks (frequency v) (diff r (markerSrc v)))"

definition vfc_roll :: "vfc \<Rightarrow> tp \<Rightarrow> vfc" where
  "vfc_roll v r =
    v\<lparr>rolledOver := rolledOver v \<or> (diff r (markerSrc v) \<noteq> durInvalid \<and> diff r (markerSrc v) <s 0)\<rparr>"

lemma vfc_getValue_rolled [call_simps]:
  "rolledOver v \<Longrightarrow> VariableFrequencyClock_getValue src (v, w) = Some (tpInvalid, (v, w))"
  by (simp add: vfc_defs)

lemma vfc_getValue_read [call_simps]:
  "\<not> rolledOver v \<Longrightarrow> src w = Some (r, w') \<Longrightarrow>
   VariableFrequencyClock_getValue src (v, w) = Some (vfc_value v r, (vfc_roll v r, w'))"
  by (auto simp: vfc_defs vfc_value_def vfc_roll_def Let_def)

lemma vfc_setValue_read [call_simps]:
  "src w = Some (r, w') \<Longrightarrow> VariableFrequencyClock_setValue src t (v, w)
     = Some ((), (v\<lparr>marker := t, markerSrc := r, rolledOver := False\<rparr>, w'))"
  by (simp add: vfc_defs)

lemma vfc_updateMarkers_rolled [call_simps]:
  "rolledOver v \<Longrightarrow> VariableFrequencyClock_updateMarkers src (v, w) = Some ((), (v, w))"
  by (simp add: vfc_defs)

lemma vfc_updateMarkers_read [call_simps]:
  "\<not> rolledOver v \<Longrightarrow> src w = Some (r, w1) \<Longrightarrow> src w1 = Some (r', w2) \<Longrightarrow>
   VariableFrequencyClock_updateMarkers src (v, w) =
     Some ((), (v\<lparr>marker := vfc_value v r, markerSrc := r', rolledOver := False\<rparr>, w2))"
  by (simp add: VariableFrequencyClock_updateMarkers_def vfc_getValue_read vfc_setValue_read vfc_roll_def)

section \<open>Scaling\<close>

lemma fin_1000000_div: "ddiv (Fin 1000000) frequencySrc = Fin 1"
  using fl_of_int [of 1] by (simp add: frequencySrc_def)

lemma scaled_ticks_nominal: "\<bar>sint d\<bar> \<le> 2 ^ 53 \<Longrightarrow> scaled_ticks (Fin 1000000) d = d"
  using fl_of_int [of "sint d"]
  by (simp add: scaled_ticks_def fin_1000000_div double_of_int64_exact Let_def)

text \<open>The scaled ticks of a finite nonnegative frequency, as an integer, when they fit.\<close>

definition gain :: "rat \<Rightarrow> int64 \<Rightarrow> int" where
  "gain f d = trunc (rnd (rnd (of_int (sint d)) * rnd (f / 1000000)))"

lemma gain_mono:
  assumes "0 \<le> f" "sint d \<le> sint e"
  shows "gain f d \<le> gain f e"
proof -
  have "rnd (of_int (sint d)) \<le> rnd (of_int (sint e))" using assms(2) by (intro rnd_mono) (simp only: of_int_le_iff)
  moreover have "0 \<le> rnd (f / 1000000)" using assms(1) by (intro rnd_nonneg) simp
  ultimately show ?thesis
    unfolding gain_def by (rule trunc_mono [OF rnd_mono [OF mult_right_mono]])
qed

lemma gain_zero [simp]: "gain f 0 = 0"
  by (simp add: gain_def trunc_def)

lemma gain_nonneg: "0 \<le> f \<Longrightarrow> 0 \<le> sint d \<Longrightarrow> 0 \<le> gain f d"
  using gain_mono [of f 0 d] by simp

lemma gain_nominal: "\<bar>sint d\<bar> \<le> 2 ^ 53 \<Longrightarrow> gain 1000000 d = sint d"
  using rnd_exact [OF representable_of_int, of "sint d"] rnd_exact [OF representable_of_int, of 1]
  by (simp add: gain_def)

lemma scaled_ticks_gain:
  assumes "0 \<le> f" "f \<le> 2 ^ 63" "in_int64 (gain f d)"
  shows "sint (scaled_ticks (Fin f) d) = gain f d"
proof -
  have lt: "(2 :: rat) ^ 63 < 2 ^ 1024" "(2 :: rat) ^ 126 < 2 ^ 1024" by (rule power_strict_increasing; simp)+
  have q: "fl (f / 1000000) = Fin (rnd (f / 1000000))" "\<bar>rnd (f / 1000000)\<bar> \<le> 2 ^ 63"
    using fl_bounded [OF representable_2_63 lt(1), of "f / 1000000"] assms by (auto simp: abs_le_iff)
  let ?x = "rnd (of_int (sint d)) * rnd (f / 1000000)"
  have "\<bar>?x\<bar> \<le> 2 ^ 63 * 2 ^ 63"
    unfolding abs_mult by (intro mult_mono q(2) double_of_int64_Fin(2)) simp_all
  then have "\<bar>?x\<bar> \<le> 2 ^ 126" by simp
  then have "fl ?x = Fin (rnd ?x)"
    using fl_bounded(1) [of "2 ^ 126" ?x] representable_pow2 [of 126] lt(2) by simp
  then have "scaled_ticks (Fin f) d = word_of_int (gain f d)"
    using assms(3) by (simp only: scaled_ticks_def double_of_int64_Fin(1) frequencySrc_def ddiv.simps q(1)
        dmul.simps int64_of_double.simps gain_def Let_def Usec_conv) simp
  then show ?thesis using assms(3) by (simp add: sint_of_int64)
qed

section \<open>Behaviour of the value\<close>

text \<open>At the nominal frequency the clock advances tick by tick with its source, exactly, for up
  to \<open>2 ^ 53\<close> microseconds (285 years) after its marker.\<close>

theorem vfc_tracks_source:
  assumes "src w = Some (r, w')" "frequency v = Fin 1000000" "\<not> rolledOver v"
    and "marker v \<noteq> tpInvalid" "markerSrc v \<noteq> tpInvalid" "r \<noteq> tpInvalid"
    and "sint (markerSrc v) \<le> sint r" "sint r - sint (markerSrc v) \<le> 2 ^ 53"
  shows "VariableFrequencyClock_getValue src (v, w) = Some (marker v + (r - markerSrc v), (v, w'))"
proof -
  have i: "in_int64 (sint r - sint (markerSrc v) + 1)" using assms(7,8) by (simp add: in_int64_def)
  note d = diff_forward [OF assms(5,6,7) i]
  have "scaled_ticks (Fin 1000000) (r - markerSrc v) = r - markerSrc v"
    using assms(7,8) by (intro scaled_ticks_nominal) (simp add: d(2))
  then have "vfc_value v r = marker v + (r - markerSrc v)" "vfc_roll v r = v"
    using assms(2,3,4) d by (simp_all add: vfc_value_def vfc_roll_def)
  then show ?thesis using assms(1,3) by (simp add: vfc_getValue_read)
qed

theorem vfc_tracks_source_witness:
  "VariableFrequencyClock_getValue (\<lambda>w. Some (w, w + 1))
     (\<lparr>frequency = Fin 1000000, markerSrc = 1000, marker = 5000000, rolledOver = False\<rparr>, 1250)
   = Some (5000250, (\<lparr>frequency = Fin 1000000, markerSrc = 1000, marker = 5000000, rolledOver = False\<rparr>, 1251))"
  using vfc_tracks_source [of "\<lambda>w. Some (w, w + 1)" 1250 1250 1251
      "\<lparr>frequency = Fin 1000000, markerSrc = 1000, marker = 5000000, rolledOver = False\<rparr>"]
  by (simp add: invalid_eq usecInvalid_def)

lemma vfc_value_gain:
  assumes "frequency v = Fin f" "0 \<le> f" "f \<le> 2 ^ 63" "\<not> rolledOver v"
    and "marker v \<noteq> tpInvalid" "markerSrc v \<noteq> tpInvalid" "r \<noteq> tpInvalid"
    and "sint (markerSrc v) \<le> sint r" "in_int64 (sint r - sint (markerSrc v) + 1)"
    and "in_int64 (gain f (r - markerSrc v))" "in_int64 (sint (marker v) + gain f (r - markerSrc v))"
  shows "sint (vfc_value v r) = sint (marker v) + gain f (r - markerSrc v)" "vfc_roll v r = v"
proof -
  note d = diff_forward [OF assms(6,7,8,9)]
  have g: "sint (scaled_ticks (Fin f) (r - markerSrc v)) = gain f (r - markerSrc v)"
    by (rule scaled_ticks_gain [OF assms(2,3,10)])
  have "vfc_value v r = marker v + scaled_ticks (Fin f) (r - markerSrc v)"
    using assms(1,4,5) d by (simp add: vfc_value_def)
  then show "sint (vfc_value v r) = sint (marker v) + gain f (r - markerSrc v)"
    using assms(11) g by (simp add: sint_add_int64)
  show "vfc_roll v r = v" using assms(4) d by (simp add: vfc_roll_def)
qed

text \<open>C36: Between two settings of its value or frequency, the clock never goes backwards while its
  source does not, whatever its finite nonnegative frequency, floating-point rounding included.\<close>

theorem vfc_monotone:
  assumes "src w1 = Some (r1, w1')" "src w2 = Some (r2, w2')" "sint r1 \<le> sint r2"
    and "frequency v = Fin f" "0 \<le> f" "f \<le> 2 ^ 63" "\<not> rolledOver v"
    and "marker v \<noteq> tpInvalid" "markerSrc v \<noteq> tpInvalid" "r2 \<noteq> tpInvalid"
    and "0 \<le> sint (marker v)" "sint (markerSrc v) \<le> sint r1" "in_int64 (sint r2 - sint (markerSrc v) + 1)"
    and "sint (marker v) + gain f (r2 - markerSrc v) < 2 ^ 63"
  shows "\<exists>t1 t2. VariableFrequencyClock_getValue src (v, w1) = Some (t1, (v, w1'))
    \<and> VariableFrequencyClock_getValue src (v, w2) = Some (t2, (v, w2'))
    \<and> sint (marker v) \<le> sint t1 \<and> sint t1 \<le> sint t2"
proof -
  have r1: "r1 \<noteq> tpInvalid" using assms(3,10) by (auto simp: valid_iff)
  have i: "in_int64 (sint r1 - sint (markerSrc v) + 1)" using assms(3,12,13) by (simp add: in_int64_def)
  have m2: "sint (markerSrc v) \<le> sint r2" using assms(3,12) by linarith
  note d1 = diff_forward [OF assms(9) r1 assms(12) i] and d2 = diff_forward [OF assms(9,10) m2 assms(13)]
  have g: "0 \<le> gain f (r1 - markerSrc v)" "gain f (r1 - markerSrc v) \<le> gain f (r2 - markerSrc v)"
    using assms(3,5,12) by (auto simp: d1(2) d2(2) intro: gain_nonneg gain_mono)
  have in64: "in_int64 (gain f (r1 - markerSrc v))" "in_int64 (sint (marker v) + gain f (r1 - markerSrc v))"
    "in_int64 (gain f (r2 - markerSrc v))" "in_int64 (sint (marker v) + gain f (r2 - markerSrc v))"
    using g assms(11,14) by (auto simp: in_int64_def)
  note v1 = vfc_value_gain [OF assms(4,5,6,7,8,9) r1 assms(12) i in64(1,2)]
    and v2 = vfc_value_gain [OF assms(4,5,6,7,8,9,10) m2 assms(13) in64(3,4)]
  show ?thesis
    using vfc_getValue_read [of v src w1 r1 w1'] vfc_getValue_read [of v src w2 r2 w2'] assms(1,2,7) v1 v2 g
    by simp
qed

theorem vfc_monotone_witness:
  "\<exists>t1 t2. VariableFrequencyClock_getValue (\<lambda>w. Some (w, w))
      (\<lparr>frequency = Fin 1000000, markerSrc = 1000, marker = 5000000, rolledOver = False\<rparr>, 1250)
      = Some (t1, (\<lparr>frequency = Fin 1000000, markerSrc = 1000, marker = 5000000, rolledOver = False\<rparr>, 1250))
    \<and> VariableFrequencyClock_getValue (\<lambda>w. Some (w, w))
      (\<lparr>frequency = Fin 1000000, markerSrc = 1000, marker = 5000000, rolledOver = False\<rparr>, 1300)
      = Some (t2, (\<lparr>frequency = Fin 1000000, markerSrc = 1000, marker = 5000000, rolledOver = False\<rparr>, 1300))
    \<and> 5000000 \<le> sint t1 \<and> sint t1 \<le> sint t2"
proof -
  let ?v = "\<lparr>frequency = Fin 1000000, markerSrc = 1000, marker = 5000000, rolledOver = False\<rparr>"
  have "gain 1000000 300 = 300" by (simp add: gain_nominal)
  then show ?thesis
    using vfc_monotone [of "\<lambda>w. Some (w, w)" 1250 1250 1250 1300 1300 1300 ?v 1000000]
    by (simp add: invalid_eq usecInvalid_def in_int64_def)
qed

text \<open>A clock that cannot show a value until it is set.\<close>

definition vfc_dead :: "vfc \<Rightarrow> bool" where
  "vfc_dead v \<longleftrightarrow> rolledOver v \<or> marker v = tpInvalid \<or> markerSrc v = tpInvalid"

lemma vfc_dead_value: "vfc_dead v \<Longrightarrow> vfc_value v r = tpInvalid"
  by (auto simp: vfc_dead_def vfc_value_def)

lemma vfc_dead_roll: "vfc_dead v \<Longrightarrow> vfc_dead (vfc_roll v r)"
  by (auto simp: vfc_dead_def vfc_roll_def)

lemma vfc_blocked [call_simps]:
  "\<not> rolledOver v \<Longrightarrow> src w = None \<Longrightarrow> VariableFrequencyClock_getValue src (v, w) = None"
  "\<not> rolledOver v \<Longrightarrow> src w = None \<Longrightarrow> VariableFrequencyClock_updateMarkers src (v, w) = None"
  "src w = None \<Longrightarrow> VariableFrequencyClock_setValue src t (v, w) = None"
  "\<not> rolledOver v \<Longrightarrow> src w = Some (r, w') \<Longrightarrow> src w' = None \<Longrightarrow>
     VariableFrequencyClock_updateMarkers src (v, w) = None"
  by (simp_all add: vfc_defs Let_def)

lemma vfc_getValue_Some:
  assumes "VariableFrequencyClock_getValue src (v, w) = Some (t, (v', w'))"
  obtains (rolled) "rolledOver v" "t = tpInvalid" "v' = v" "w' = w"
  | (read) r where "\<not> rolledOver v" "src w = Some (r, w')" "t = vfc_value v r" "v' = vfc_roll v r"
proof (cases "rolledOver v")
  case True
  with assms have "t = tpInvalid" "v' = v" "w' = w" by (simp_all add: vfc_getValue_rolled)
  with True show ?thesis by (rule rolled)
next
  case False
  with assms obtain r u where r: "src w = Some (r, u)"
    by (cases "src w") (auto simp: vfc_blocked)
  with assms False have "u = w'" "t = vfc_value v r" "v' = vfc_roll v r"
    by (simp_all add: vfc_getValue_read)
  with False r show ?thesis by (intro read) simp_all
qed

lemma vfc_setValue_Some:
  assumes "VariableFrequencyClock_setValue src t (v, w) = Some (u, (v', w'))"
  obtains r where "src w = Some (r, w')" "v' = v\<lparr>marker := t, markerSrc := r, rolledOver := False\<rparr>"
proof -
  from assms obtain r x where r: "src w = Some (r, x)" by (cases "src w") (auto simp: vfc_blocked)
  with assms have "x = w'" "v' = v\<lparr>marker := t, markerSrc := r, rolledOver := False\<rparr>"
    by (simp_all add: vfc_setValue_read)
  with r show ?thesis by (intro that) simp_all
qed

lemma vfc_updateMarkers_Some:
  assumes "VariableFrequencyClock_updateMarkers src (v, w) = Some (u, (v', w'))"
  obtains (rolled) "rolledOver v" "v' = v" "w' = w"
  | (read) r w1 r' where "\<not> rolledOver v" "src w = Some (r, w1)" "src w1 = Some (r', w')"
    "v' = v\<lparr>marker := vfc_value v r, markerSrc := r', rolledOver := False\<rparr>"
proof (cases "rolledOver v")
  case True
  with assms have "v' = v" "w' = w" by (simp_all add: vfc_updateMarkers_rolled)
  with True show ?thesis by (rule rolled)
next
  case False
  with assms obtain r w1 where r: "src w = Some (r, w1)"
    by (cases "src w") (auto simp: vfc_blocked)
  with False assms obtain r' w2 where r': "src w1 = Some (r', w2)"
    by (cases "src w1") (auto simp: vfc_blocked)
  from assms have "w2 = w'" "v' = v\<lparr>marker := vfc_value v r, markerSrc := r', rolledOver := False\<rparr>"
    by (simp_all add: vfc_updateMarkers_read [OF False r r'])
  with False r r' show ?thesis by (intro read) simp_all
qed

lemma vfc_dead_invalid_marker: "vfc_dead (v\<lparr>marker := tpInvalid, markerSrc := r, rolledOver := False\<rparr>)"
  by (simp add: vfc_dead_def)

lemma vfc_dead_updateMarkers:
  assumes "vfc_dead v" "VariableFrequencyClock_updateMarkers src (v, w) = Some (u, (v', w'))"
  shows "vfc_dead v'"
  using assms(2)
proof (cases rule: vfc_updateMarkers_Some)
  case rolled
  then show ?thesis using assms(1) by simp
next
  case read
  then show ?thesis using assms(1) by (simp add: vfc_dead_value vfc_dead_invalid_marker)
qed

lemma vfc_setFrequency_Some:
  assumes "VariableFrequencyClock_setFrequency src freq (v, w) = Some (u, (v', w'))"
  obtains "dle freq (Fin 0)" "VariableFrequencyClock_updateMarkers src (v, w) = Some (u, (v', w'))"
  | v1 w1 where "\<not> dle freq (Fin 0)"
    "VariableFrequencyClock_updateMarkers src (v, w) = Some (u, (v1, w1))"
    "VariableFrequencyClock_updateMarkers src (v1\<lparr>frequency := freq\<rparr>, w1) = Some (u, (v', w'))"
  using assms by (auto simp: VariableFrequencyClock_setFrequency_def Option.bind_eq_Some_conv split: if_splits)

text \<open>What the source leaves alone, the clock's methods leave alone.\<close>

lemma vfc_view:
  assumes "\<And>w t w'. src w = Some (t, w') \<Longrightarrow> view w' = view w"
  shows "VariableFrequencyClock_updateMarkers src (v, w) = Some (u, (v', w')) \<Longrightarrow> view w' = view w"
    and "VariableFrequencyClock_setFrequency src freq (v, w) = Some (u, (v', w')) \<Longrightarrow> view w' = view w"
proof -
  have m: "VariableFrequencyClock_updateMarkers src (v, w) = Some (u, (v', w')) \<Longrightarrow> view w' = view w" for v w u v' w'
    by (erule vfc_updateMarkers_Some) (auto dest!: assms)
  show "VariableFrequencyClock_updateMarkers src (v, w) = Some (u, (v', w')) \<Longrightarrow> view w' = view w"
    by (rule m)
  show "VariableFrequencyClock_setFrequency src freq (v, w) = Some (u, (v', w')) \<Longrightarrow> view w' = view w"
    by (erule vfc_setFrequency_Some) (auto dest!: m)
qed

text \<open>A clock whose source failed (it went backwards, or it read as invalid when the marker was
  taken) or that was set to an invalid time reads as invalid, and no reading and no change of
  frequency makes it valid again.  Setting it to a valid time with a valid source reading does.\<close>

theorem vfc_invalid_until_set:
  assumes "vfc_dead v"
  shows "(\<forall>w t s. VariableFrequencyClock_getValue src (v, w) = Some (t, s) \<longrightarrow> t = tpInvalid \<and> vfc_dead (fst s))
    \<and> (\<forall>w f u s. VariableFrequencyClock_setFrequency src f (v, w) = Some (u, s) \<longrightarrow> vfc_dead (fst s))
    \<and> (\<forall>w t u s. VariableFrequencyClock_setValue src t (v, w) = Some (u, s) \<longrightarrow>
        (vfc_dead (fst s) \<longleftrightarrow> t = tpInvalid \<or> (\<exists>w'. src w = Some (tpInvalid, w'))))"
proof (intro conjI allI impI)
  fix w t s
  assume a: "VariableFrequencyClock_getValue src (v, w) = Some (t, s)"
  obtain v' w' where s: "s = (v', w')" by (cases s)
  from a [unfolded s] have "t = tpInvalid \<and> vfc_dead v'"
    by (cases rule: vfc_getValue_Some) (use assms in \<open>simp_all add: vfc_dead_value vfc_dead_roll\<close>)
  then show "t = tpInvalid" "vfc_dead (fst s)" by (simp_all add: s)
next
  fix w f u s
  assume a: "VariableFrequencyClock_setFrequency src f (v, w) = Some (u, s)"
  obtain v' w' where s: "s = (v', w')" by (cases s)
  from a [unfolded s] have "vfc_dead v'"
  proof (cases rule: vfc_setFrequency_Some)
    case 1
    then show ?thesis using assms by (blast intro: vfc_dead_updateMarkers)
  next
    case (2 v1 w1)
    then have "vfc_dead (v1\<lparr>frequency := f\<rparr>)"
      using assms vfc_dead_updateMarkers [of v src w u v1 w1] by (simp add: vfc_dead_def)
    then show ?thesis using 2(3) by (rule vfc_dead_updateMarkers)
  qed
  then show "vfc_dead (fst s)" by (simp add: s)
next
  fix w t u s
  assume a: "VariableFrequencyClock_setValue src t (v, w) = Some (u, s)"
  obtain v' w' where s: "s = (v', w')" by (cases s)
  from a [unfolded s] show "vfc_dead (fst s) \<longleftrightarrow> t = tpInvalid \<or> (\<exists>w'. src w = Some (tpInvalid, w'))"
    by (cases rule: vfc_setValue_Some) (auto simp: vfc_dead_def s)
qed

theorem vfc_invalid_until_set_witness:
  "VariableFrequencyClock_getValue (\<lambda>w. Some (w, w + 1)) (\<lparr>frequency = Fin 1000000, markerSrc = 1000, marker = 0,
     rolledOver = True\<rparr>, 2000) = Some (tpInvalid, (\<lparr>frequency = Fin 1000000, markerSrc = 1000, marker = 0,
     rolledOver = True\<rparr>, 2000 :: int64))"
  using vfc_invalid_until_set [of "\<lparr>frequency = Fin 1000000, markerSrc = 1000, marker = 0, rolledOver = True\<rparr>"
      "\<lambda>w. Some (w, w + 1 :: int64)"]
  by (simp add: vfc_dead_def vfc_getValue_rolled)

section \<open>Changing the frequency\<close>

lemma frequency_updateMarkers:
  "VariableFrequencyClock_updateMarkers src (v, w) = Some (u, (v', w')) \<Longrightarrow> frequency v' = frequency v"
  by (erule vfc_updateMarkers_Some) simp_all

lemma vfc_setFrequency_read:
  assumes "\<not> dle freq (Fin 0)" "\<not> rolledOver v" "src w = Some (r1, w1)" "src w1 = Some (r2, w2)"
    "src w2 = Some (r3, w3)" "src w3 = Some (r4, w4)"
  shows "VariableFrequencyClock_setFrequency src freq (v, w) = Some ((),
    (v\<lparr>frequency := freq,
       marker := vfc_value (v\<lparr>frequency := freq, marker := vfc_value v r1, markerSrc := r2\<rparr>) r3,
       markerSrc := r4\<rparr>, w4))"
  using assms by (cases v) (simp add: VariableFrequencyClock_setFrequency_def vfc_updateMarkers_read)

text \<open>A change of frequency keeps the value: the new marker is the old value, at the source
  reading \<open>r1\<close> with which the change begins, plus the ticks between the second and the third of the
  four readings it takes, and the clock goes on from the fourth.  The ticks between the first and
  the second and between the third and the fourth are lost; none are if the source stands still.\<close>

theorem vfc_setFrequency_value:
  assumes "src w = Some (r1, w1)" "src w1 = Some (r2, w2)" "src w2 = Some (r3, w3)" "src w3 = Some (r4, w4)"
    and "\<not> rolledOver v" "vfc_value v r1 \<noteq> tpInvalid" "0 < f" "f \<le> 2 ^ 63"
    and "r2 \<noteq> tpInvalid" "r3 \<noteq> tpInvalid" "sint r2 \<le> sint r3" "in_int64 (sint r3 - sint r2 + 1)"
    and "0 \<le> sint (vfc_value v r1)" "sint (vfc_value v r1) + gain f (r3 - r2) < 2 ^ 63"
  shows "\<exists>m. VariableFrequencyClock_setFrequency src (Fin f) (v, w)
      = Some ((), (v\<lparr>frequency := Fin f, marker := m, markerSrc := r4\<rparr>, w4))
    \<and> sint m = sint (vfc_value v r1) + gain f (r3 - r2)
    \<and> (r3 = r2 \<longrightarrow> m = vfc_value v r1)"
proof -
  let ?v = "v\<lparr>frequency := Fin f, marker := vfc_value v r1, markerSrc := r2\<rparr>"
  have d: "sint (r3 - r2) = sint r3 - sint r2"
    using assms(11,12) by (intro sint_diff_int64) (simp add: in_int64_def)
  have g: "0 \<le> gain f (r3 - r2)" using assms(7,11) by (intro gain_nonneg) (simp_all add: d)
  have m: "sint (vfc_value ?v r3) = sint (vfc_value v r1) + gain f (r3 - r2)"
    using vfc_value_gain(1) [of ?v f r3] assms g by (simp add: in_int64_def)
  have "VariableFrequencyClock_setFrequency src (Fin f) (v, w)
      = Some ((), (v\<lparr>frequency := Fin f, marker := vfc_value ?v r3, markerSrc := r4\<rparr>, w4))"
    by (rule vfc_setFrequency_read [OF _ assms(5,1,2,3,4)]) (use assms(7) in simp)
  moreover have "r3 = r2 \<longrightarrow> vfc_value ?v r3 = vfc_value v r1"
  proof
    assume "r3 = r2"
    then have "gain f (r3 - r2) = 0" by simp
    with m show "vfc_value ?v r3 = vfc_value v r1" by (simp only: int64_eq_iff)
  qed
  ultimately show ?thesis using m by (intro exI [of _ "vfc_value ?v r3"]) simp
qed

theorem vfc_setFrequency_value_witness:
  "\<exists>m. VariableFrequencyClock_setFrequency (\<lambda>w. Some (w, w)) (Fin 2000000)
     (\<lparr>frequency = Fin 1000000, markerSrc = 1000, marker = 5000000, rolledOver = False\<rparr>, 1250)
   = Some ((), (\<lparr>frequency = Fin 2000000, markerSrc = 1250, marker = m, rolledOver = False\<rparr>, 1250))
   \<and> m = 5000250"
proof -
  let ?v = "\<lparr>frequency = Fin 1000000, markerSrc = 1000, marker = 5000000, rolledOver = False\<rparr>"
  have s: "scaled_ticks (Fin 1000000) 250 = 250" by (rule scaled_ticks_nominal) simp
  have "vfc_value ?v 1250 = 5000250"
    by (simp add: vfc_value_def diff_def invalid_eq usecInvalid_def word_sless_alt s)
  then show ?thesis
    using vfc_setFrequency_value [of "\<lambda>w. Some (w, w)" 1250 1250 1250 1250 1250 1250 1250 1250 1250 ?v 2000000]
    by (auto simp: invalid_eq usecInvalid_def in_int64_def)
qed

lemma frequency_setFrequency:
  assumes "VariableFrequencyClock_setFrequency src freq (v, w) = Some (u, (v', w'))"
  shows "frequency v' = (if dle freq (Fin 0) then frequency v else freq)"
  using assms by (cases rule: vfc_setFrequency_Some) (auto dest: frequency_updateMarkers)

text \<open>A frequency that is not positive is ignored: the clock keeps the one it has.\<close>

theorem vfc_nonpositive_frequency_ignored:
  assumes "VariableFrequencyClock_setFrequency src freq s = Some (u, s')"
  shows "frequency (fst s') = (if dle freq (Fin 0) then frequency (fst s) else freq)"
  using assms frequency_setFrequency by (metis prod.collapse)

theorem vfc_nonpositive_frequency_ignored_witness:
  "frequency (fst (snd (the (VariableFrequencyClock_setFrequency (\<lambda>w. Some (w, w)) (Fin (- 5))
     (\<lparr>frequency = Fin 1000000, markerSrc = 1000, marker = 0, rolledOver = True\<rparr>, 1250))))) = Fin 1000000"
proof -
  let ?v = "\<lparr>frequency = Fin 1000000, markerSrc = 1000, marker = 0, rolledOver = True\<rparr>"
  have "VariableFrequencyClock_setFrequency (\<lambda>w. Some (w, w)) (Fin (- 5)) (?v, 1250) = Some ((), (?v, 1250 :: int64))"
    by (simp add: VariableFrequencyClock_setFrequency_def vfc_updateMarkers_rolled)
  from vfc_nonpositive_frequency_ignored [OF this] this show ?thesis by simp
qed

text \<open>A NaN is not caught by the test \<^verbatim>\<open>freq <= 0.0\<close>; from then on every conversion of the scaled
  ticks is out of range.\<close>

lemma scaled_ticks_NaN: "scaled_ticks NaN d = 0x8000000000000000"
  by (simp add: scaled_ticks_def frequencySrc_def)

text \<open>A NaN passes the test that ignores frequencies that are not positive; the clock then
  answers any forward reading of its source with its marker shifted by the least \<open>int64\<close>, what
  x86-64 makes of a NaN, so even a source that stands still no longer reads as the marker.\<close>

theorem vfc_nan_frequency:
  assumes "VariableFrequencyClock_setFrequency src NaN (v, w) = Some (u, (v', w'))"
    and "src w' = Some (r, w'')" "\<not> vfc_dead v'" "r \<noteq> tpInvalid"
    and "sint (markerSrc v') \<le> sint r" "in_int64 (sint r - sint (markerSrc v') + 1)"
  shows "VariableFrequencyClock_getValue src (v', w') = Some (marker v' + 0x8000000000000000, (v', w''))"
proof -
  have f: "frequency v' = NaN" using frequency_setFrequency [OF assms(1)] by simp
  have v: "\<not> rolledOver v'" "marker v' \<noteq> tpInvalid" "markerSrc v' \<noteq> tpInvalid"
    using assms(3) by (auto simp: vfc_dead_def)
  note d = diff_forward [OF v(3) assms(4,5,6)]
  have "vfc_value v' r = marker v' + 0x8000000000000000" "vfc_roll v' r = v'"
    using v d by (simp_all add: vfc_value_def vfc_roll_def f scaled_ticks_NaN)
  then show ?thesis using vfc_getValue_read [of v' src w' r w''] assms(2) v(1) by simp
qed

theorem vfc_nan_frequency_witness:
  "VariableFrequencyClock_getValue (\<lambda>w. Some (w, w))
     (\<lparr>frequency = NaN, markerSrc = 1250, marker = 5000250 + 0x8000000000000000, rolledOver = False\<rparr>, 1250)
   = Some (5000250, (\<lparr>frequency = NaN, markerSrc = 1250, marker = 5000250 + 0x8000000000000000, rolledOver = False\<rparr>, 1250))"
proof -
  let ?v = "\<lparr>frequency = Fin 1000000, markerSrc = 1000, marker = 5000000, rolledOver = False\<rparr>"
  let ?v' = "\<lparr>frequency = NaN, markerSrc = 1250, marker = 5000250 + 0x8000000000000000, rolledOver = False\<rparr>"
  have s: "scaled_ticks (Fin 1000000) 250 = 250" by (rule scaled_ticks_nominal) simp
  have v: "vfc_value ?v 1250 = 5000250"
    by (simp add: vfc_value_def diff_def invalid_eq usecInvalid_def word_sless_alt s)
  have "VariableFrequencyClock_setFrequency (\<lambda>w. Some (w, w)) NaN (?v, 1250) = Some ((), (?v', 1250))"
    using vfc_setFrequency_read [of NaN ?v "\<lambda>w. Some (w, w)" 1250 1250 1250 1250 1250 1250 1250 1250 1250]
    by (simp add: v vfc_value_def [of "\<lparr>frequency = NaN, markerSrc = 1250, marker = 5000250, rolledOver = False\<rparr>"] diff_def invalid_eq usecInvalid_def word_sless_alt scaled_ticks_NaN)
  from vfc_nan_frequency [OF this, of 1250 1250] show ?thesis
    by (simp add: vfc_dead_def invalid_eq usecInvalid_def in_int64_def)
qed

end
