(* ===== verification/PhaseLockedClock.thy ===== *)
theory PhaseLockedClock
  imports ClockClient VariableFrequencyClock
begin

text \<open>
  \<open>PhaseLockedClock\<close>: it reads two clocks, the primary one and the reference one, and disciplines a
  \<open>VariableFrequencyClock\<close> on the primary so that its phase and frequency follow the reference.

  The object's fields extend the state of the client, so that any two objects whose methods are calls
  on that state can be its clocks; the program's are a \<open>SystemClock\<close> and a \<open>ClockClient\<close>.  The
  \<open>VariableFrequencyClock\<close> is a field, and \<open>vfc_call\<close> turns a method of it into a call on the whole state.  The
  mutex, which orders the threads, changes no value within one thread and has no counterpart.  The
  time that \<open>run\<close> sleeps is the environment's; it takes the values that \<open>end_clocks\<close> is seen to have.

  The lemmas give each method's effect on each branch, what holds of the stored measurements in
  every reachable state, when synchronisation is lost and regained, and the bounds of the control loop.
\<close>

record plc = client +
  variableFrequencyClock :: vfc
  inSync :: bool
  phase :: dur
  phasePrev :: dur
  variableValue :: tp
  variableValuePrev :: tp
  primaryValue :: tp
  primaryValuePrev :: tp
  primaryFrequencyAvg :: double
  phasePanic :: dur
  updatePanic :: dur
  updatePrev :: tp

definition PhaseLockedClock_new :: "client Clock \<Rightarrow> client \<Rightarrow> plc option" where
  "PhaseLockedClock_new primary w = do {
     (v, w) \<leftarrow> VariableFrequencyClock_new (getValue primary) (Fin 1000000) w;
     Some (client.extend w \<lparr>variableFrequencyClock = v, inSync = False, phase = 0, phasePrev = 0,
       variableValue = 0, variableValuePrev = 0, primaryValue = 0, primaryValuePrev = 0,
       primaryFrequencyAvg = Fin 1000000, phasePanic = 5000, updatePanic = 5000000, updatePrev = 0\<rparr>)
   }"

definition vfc_call :: "(vfc \<times> 'a plc_scheme, 'b) call \<Rightarrow> ('a plc_scheme, 'b) call" where
  "vfc_call f w = do {
     (x, (v, w)) \<leftarrow> f (variableFrequencyClock w, w);
     Some (x, w\<lparr>variableFrequencyClock := v\<rparr>)
   }"

definition vfc_getValue :: "'a plc_scheme Clock \<Rightarrow> ('a plc_scheme, tp) call" where
  "vfc_getValue primary = vfc_call (VariableFrequencyClock_getValue (getValue primary))"

definition vfc_setValue :: "'a plc_scheme Clock \<Rightarrow> tp \<Rightarrow> ('a plc_scheme, unit) call" where
  "vfc_setValue primary t = vfc_call (VariableFrequencyClock_setValue (getValue primary) t)"

definition vfc_setFrequency :: "'a plc_scheme Clock \<Rightarrow> double \<Rightarrow> ('a plc_scheme, unit) call" where
  "vfc_setFrequency primary f = vfc_call (VariableFrequencyClock_setFrequency (getValue primary) f)"

definition PhaseLockedClock_getValue :: "'a plc_scheme Clock \<Rightarrow> ('a plc_scheme, tp) call" where
  "PhaseLockedClock_getValue primary w = (if \<not> inSync w then Some (tpInvalid, w) else vfc_getValue primary w)"

definition getOffset :: "'a plc_scheme \<Rightarrow> dur" where
  "getOffset w = (if inSync w then phase w else durInvalid)"

definition isSynchronized :: "'a plc_scheme \<Rightarrow> bool" where
  "isSynchronized w = inSync w"

definition PhaseLockedClock_die :: "'a plc_scheme Clock \<Rightarrow> ('a plc_scheme, unit) call" where
  "PhaseLockedClock_die reference = die reference"

definition setPhasePanic :: "dur \<Rightarrow> 'a plc_scheme \<Rightarrow> 'a plc_scheme" where
  "setPhasePanic d w = w\<lparr>phasePanic := d\<rparr>"

definition setUpdatePanic :: "dur \<Rightarrow> 'a plc_scheme \<Rightarrow> 'a plc_scheme" where
  "setUpdatePanic usec w = (if updatePanic w \<noteq> durInvalid then w\<lparr>updatePanic := usec\<rparr> else w)"

section \<open>The control loop\<close>

definition updatePhase :: "'a plc_scheme Clock \<Rightarrow> 'a plc_scheme Clock \<Rightarrow> ('a plc_scheme, bool) call" where
  "updatePhase primary reference w =
    (if \<not> inSync w then Some (False, w)
     else do {
       (ph, w) \<leftarrow> getPhase reference (vfc_getValue primary) w;
       (vv, w) \<leftarrow> vfc_getValue primary w;
       (tmp, w) \<leftarrow> getValue primary w;
       if ph = durInvalid then Some (False, w\<lparr>inSync := False\<rparr>)
       else if vv = tpInvalid then Some (False, w\<lparr>inSync := False\<rparr>)
       else if tmp = tpInvalid then Some (False, w\<lparr>inSync := False\<rparr>)
       else
         let w = w\<lparr>phasePrev := phase w, variableValuePrev := variableValue w, primaryValuePrev := primaryValue w\<rparr>;
             w = w\<lparr>phase := ph, variableValue := vv, primaryValue := tmp\<rparr>
         in Some (True, w)
     })"

text \<open>The constant \<^verbatim>\<open>0.1\<close> is the double nearest to it.\<close>

definition tenth :: double where
  "tenth = fl (1 / 10)"

text \<open>The frequency of the primary clock measured against the reference, and the filter.\<close>

definition primaryFrequency :: "'a plc_scheme \<Rightarrow> double" where
  "primaryFrequency w =
    (let referenceValuePrev = variableValuePrev w + phasePrev w;
         referenceValue = variableValue w + phase w;
         referenceElapsed = UsecFromDur (referenceValue - referenceValuePrev);
         ticks = UsecFromDur (primaryValue w - primaryValuePrev w)
     in ddiv (dmul (double_of_int64 ticks) (Fin 1000000)) (double_of_int64 referenceElapsed))"

definition filtered :: "double \<Rightarrow> double \<Rightarrow> double" where
  "filtered avg f = dadd avg (dmul (dsub f avg) tenth)"

definition variableClockFrequency :: "double \<Rightarrow> dur \<Rightarrow> double" where
  "variableClockFrequency avg ph =
    (let phaseDiff = dmul (double_of_int64 (UsecFromDur ph)) tenth;
         frequencyDiff = dsub (Fin 1000000) avg
     in dadd (dadd (Fin 1000000) frequencyDiff) phaseDiff)"

definition updateClock :: "'a plc_scheme Clock \<Rightarrow> ('a plc_scheme, bool) call" where
  "updateClock primary w =
    (if phase w = durInvalid then Some (False, w\<lparr>inSync := False\<rparr>)
     else if phasePanic w <s phase w \<or> phase w <s - phasePanic w then Some (False, w\<lparr>inSync := False\<rparr>)
     else
       let w = w\<lparr>primaryFrequencyAvg := filtered (primaryFrequencyAvg w) (primaryFrequency w)\<rparr>
       in do {
         (_, w) \<leftarrow> vfc_setFrequency primary (variableClockFrequency (primaryFrequencyAvg w) (phase w)) w;
         Some (True, w)
       })"

definition setClock :: "'a plc_scheme Clock \<Rightarrow> 'a plc_scheme Clock \<Rightarrow> ('a plc_scheme, unit) call" where
  "setClock primary reference w = do {
     let w = w\<lparr>inSync := True\<rparr>;
     (t, w) \<leftarrow> getValue reference w;
     vfc_setValue primary t w
   }"

text \<open>The first half of \<open>update\<close>: is the previous update too long ago?\<close>

definition check_update :: "'a plc_scheme Clock \<Rightarrow> ('a plc_scheme, unit) call" where
  "check_update primary w =
    (if updatePrev w = tpInvalid then Some ((), w\<lparr>inSync := False\<rparr>)
     else do {
       (pv, w) \<leftarrow> getValue primary w;
       if pv = tpInvalid then Some ((), w\<lparr>inSync := False\<rparr>)
       else if inSync w \<and> updatePrev w + updatePanic w <s pv then Some ((), w\<lparr>inSync := False\<rparr>)
       else Some ((), w)
     })"

text \<open>The end of \<open>update\<close>.\<close>

definition finish_update :: "'a plc_scheme Clock \<Rightarrow> 'a plc_scheme Clock \<Rightarrow> ('a plc_scheme, unit) call" where
  "finish_update primary reference w = do {
     (ok, w) \<leftarrow> updatePhase primary reference w;
     if ok then do {
       (t, w) \<leftarrow> getValue primary w;
       Some ((), w\<lparr>updatePrev := t\<rparr>)
     } else Some ((), w)
   }"

definition update :: "'a plc_scheme Clock \<Rightarrow> 'a plc_scheme Clock \<Rightarrow> ('a plc_scheme, unit) call" where
  "update primary reference w = do {
     (_, w) \<leftarrow> check_update primary w;
     if inSync w then do {
       (ok, w) \<leftarrow> updateClock primary w;
       if \<not> ok then Some ((), w) else finish_update primary reference w
     }
     else do {
       (_, w) \<leftarrow> setClock primary reference w;
       finish_update primary reference w
     }
   }"

text \<open>\<open>run\<close>, by the values of \<open>end_clocks\<close> that it reads; the loop still runs after the last, unless that is true.\<close>

fun PhaseLockedClock_run ::
  "bool list \<Rightarrow> 'a plc_scheme Clock \<Rightarrow> 'a plc_scheme Clock \<Rightarrow> ('a plc_scheme, unit) call" where
  "PhaseLockedClock_run [] primary reference w = Some ((), w)"
| "PhaseLockedClock_run (end_clocks # later) primary reference w =
    (if end_clocks then Some ((), w)
     else do {
       (_, w) \<leftarrow> update primary reference w;
       PhaseLockedClock_run later primary reference w
     })"

definition PhaseLockedClock :: "'a plc_scheme Clock \<Rightarrow> 'a plc_scheme Clock \<Rightarrow> 'a plc_scheme Clock" where
  "PhaseLockedClock primary reference =
    \<lparr>getValue = PhaseLockedClock_getValue primary,
     getPhase = Clock_getPhase (PhaseLockedClock_getValue primary),
     die = PhaseLockedClock_die reference\<rparr>"

section \<open>What the clocks leave alone\<close>

text \<open>The loop's own variables, but for the flag that reading the variable clock may set.\<close>

definition control :: "'a plc_scheme \<Rightarrow> (double \<times> tp \<times> tp) \<times> bool \<times> (dur \<times> dur) \<times> (tp \<times> tp \<times> tp \<times> tp) \<times> double \<times> dur \<times> dur \<times> tp" where
  "control w = ((frequency (variableFrequencyClock w), markerSrc (variableFrequencyClock w), marker (variableFrequencyClock w)),
     inSync w, (phase w, phasePrev w), (variableValue w, variableValuePrev w, primaryValue w, primaryValuePrev w),
     primaryFrequencyAvg w, phasePanic w, updatePanic w, updatePrev w)"

definition stored_ok :: "'a plc_scheme \<Rightarrow> bool" where
  "stored_ok w \<longleftrightarrow> phase w \<noteq> durInvalid \<and> phasePrev w \<noteq> durInvalid
    \<and> variableValue w \<noteq> tpInvalid \<and> variableValuePrev w \<noteq> tpInvalid
    \<and> primaryValue w \<noteq> tpInvalid \<and> primaryValuePrev w \<noteq> tpInvalid"

lemma control_eqD:
  assumes "control w' = control w"
  shows "inSync w' = inSync w" "phase w' = phase w" "phasePrev w' = phasePrev w" "variableValue w' = variableValue w"
    "variableValuePrev w' = variableValuePrev w" "primaryValue w' = primaryValue w" "primaryValuePrev w' = primaryValuePrev w"
    "primaryFrequencyAvg w' = primaryFrequencyAvg w" "phasePanic w' = phasePanic w" "updatePanic w' = updatePanic w"
    "updatePrev w' = updatePrev w" "frequency (variableFrequencyClock w') = frequency (variableFrequencyClock w)"
    "marker (variableFrequencyClock w') = marker (variableFrequencyClock w)"
    "markerSrc (variableFrequencyClock w') = markerSrc (variableFrequencyClock w)"
  using assms by (simp_all add: control_def)

lemma stored_ok_control: "control w' = control w \<Longrightarrow> stored_ok w' = stored_ok w"
  by (simp add: stored_ok_def control_def)

text \<open>The interface of the two clocks: they do not touch the loop's variables, except that measuring the
  phase reads the clock that it is given.\<close>

locale plc_clocks =
  fixes primary reference :: "'a plc_scheme Clock"
  assumes primary_control: "getValue primary w = Some (t, w') \<Longrightarrow> control w' = control w"
    and primary_vfc: "getValue primary w = Some (t, w') \<Longrightarrow> variableFrequencyClock w' = variableFrequencyClock w"
    and reference_control: "getValue reference w = Some (t, w') \<Longrightarrow> control w' = control w"
    and phase_control: "\<forall>w t w'. clk w = Some (t, w') \<longrightarrow> control w' = control w \<Longrightarrow>
      getPhase reference clk w = Some (d, w') \<Longrightarrow> control w' = control w"
begin

text \<open>Reading the variable clock gives a valid time only if it is alive, and kills it at most.\<close>

lemma plc_vfc_getValue:
  assumes "vfc_getValue primary w = Some (t, w')"
  shows "control w' = control w" "t \<noteq> tpInvalid \<Longrightarrow> \<not> vfc_dead (variableFrequencyClock w')"
proof -
  from assms obtain v w1 where v: "VariableFrequencyClock_getValue (getValue primary) (variableFrequencyClock w, w) = Some (t, (v, w1))"
    "w' = w1\<lparr>variableFrequencyClock := v\<rparr>"
    by (auto simp: vfc_getValue_def vfc_call_def Option.bind_eq_Some_conv)
  from v(1) have "control w' = control w \<and> (t \<noteq> tpInvalid \<longrightarrow> \<not> vfc_dead v)"
  proof (cases rule: vfc_getValue_Some)
    case rolled
    then show ?thesis by (simp add: v(2) control_def)
  next
    case (read r)
    have "control w1 = control w" by (rule primary_control [OF read(2)])
    moreover have "vfc_dead v \<Longrightarrow> t = tpInvalid"
      using read by (auto simp: vfc_dead_def vfc_roll_def vfc_value_def)
    ultimately show ?thesis using read by (auto simp: v(2) control_def vfc_roll_def)
  qed
  then show "control w' = control w" "t \<noteq> tpInvalid \<Longrightarrow> \<not> vfc_dead (variableFrequencyClock w')"
    by (simp_all add: v(2))
qed

lemma plc_vfc_setValue:
  assumes "vfc_setValue primary t w = Some (u, w')"
  obtains r w1 where "getValue primary w = Some (r, w1)" "control w1 = control w"
    "w' = w1\<lparr>variableFrequencyClock := (variableFrequencyClock w)\<lparr>marker := t, markerSrc := r, rolledOver := False\<rparr>\<rparr>"
  using assms primary_control
  by (auto simp: vfc_setValue_def vfc_call_def Option.bind_eq_Some_conv elim!: vfc_setValue_Some)

lemma phase_read_control:
  "getPhase reference (vfc_getValue primary) w = Some (d, w') \<Longrightarrow> control w' = control w"
  by (rule phase_control) (auto simp: plc_vfc_getValue)

text \<open>A measurement of the phase: out of sync, failed, or stored.\<close>

lemma updatePhase_Some:
  assumes "updatePhase primary reference w = Some (ok, w')"
  obtains (out) "\<not> ok" "\<not> inSync w" "w' = w"
  | (failed) w1 where "\<not> ok" "inSync w" "control w1 = control w" "w' = w1\<lparr>inSync := False\<rparr>"
  | (stored) w1 ph vv tmp where "ok" "inSync w" "control w1 = control w"
    "ph \<noteq> durInvalid" "vv \<noteq> tpInvalid" "tmp \<noteq> tpInvalid" "\<not> vfc_dead (variableFrequencyClock w1)"
    "w' = w1\<lparr>phasePrev := phase w, variableValuePrev := variableValue w, primaryValuePrev := primaryValue w,
      phase := ph, variableValue := vv, primaryValue := tmp\<rparr>"
proof (cases "inSync w")
  case False
  with assms show thesis by (intro out) (simp_all add: updatePhase_def)
next
  case True
  with assms obtain ph wa where a: "getPhase reference (vfc_getValue primary) w = Some (ph, wa)"
    by (auto simp: updatePhase_def Option.bind_eq_Some_conv)
  with assms True obtain vv wb where b: "vfc_getValue primary wa = Some (vv, wb)"
    by (auto simp: updatePhase_def Option.bind_eq_Some_conv)
  with assms True a obtain tmp w1 where c: "getValue primary wb = Some (tmp, w1)"
    by (auto simp: updatePhase_def Option.bind_eq_Some_conv)
  have k: "control w1 = control w"
    using phase_read_control [OF a] plc_vfc_getValue(1) [OF b] primary_control [OF c] by simp
  note e = control_eqD [OF k]
  from assms True a b c have r: "(ok, w') = (if ph = durInvalid \<or> vv = tpInvalid \<or> tmp = tpInvalid
      then (False, w1\<lparr>inSync := False\<rparr>)
      else (True, w1\<lparr>phasePrev := phase w1, variableValuePrev := variableValue w1, primaryValuePrev := primaryValue w1,
        phase := ph, variableValue := vv, primaryValue := tmp\<rparr>))"
    by (auto simp: updatePhase_def Let_def split: if_splits)
  show thesis
  proof (cases "ph = durInvalid \<or> vv = tpInvalid \<or> tmp = tpInvalid")
    case invalid: True
    with r True k show thesis by (intro failed [of w1]) simp_all
  next
    case False
    with r True k e plc_vfc_getValue(2) [OF b] primary_vfc [OF c] show thesis
      by (intro stored [of w1 ph vv tmp]) simp_all
  qed
qed

lemma setClock_Some:
  assumes "setClock primary reference w = Some (u, w')"
  obtains wa t wb r w1 where "getValue reference wa = Some (t, wb)" "getValue primary wb = Some (r, w1)"
    "control wa = control (w\<lparr>inSync := True\<rparr>)" "control w1 = control (w\<lparr>inSync := True\<rparr>)"
    "w' = w1\<lparr>variableFrequencyClock := (variableFrequencyClock wb)\<lparr>marker := t, markerSrc := r, rolledOver := False\<rparr>\<rparr>"
proof -
  from assms obtain t wb where a: "getValue reference (w\<lparr>inSync := True\<rparr>) = Some (t, wb)"
    and b: "vfc_setValue primary t wb = Some (u, w')"
    by (auto simp: setClock_def Option.bind_eq_Some_conv Let_def)
  from b obtain r w1 where c: "getValue primary wb = Some (r, w1)" "control w1 = control wb"
    "w' = w1\<lparr>variableFrequencyClock := (variableFrequencyClock wb)\<lparr>marker := t, markerSrc := r, rolledOver := False\<rparr>\<rparr>"
    by (rule plc_vfc_setValue)
  with a reference_control [OF a] show thesis by (intro that) simp_all
qed

lemma check_update_Some:
  assumes "check_update primary w = Some (u, w')"
  obtains b where "control w' = control (w\<lparr>inSync := b\<rparr>)" "b \<Longrightarrow> inSync w"
proof -
  have "(\<exists>b. control w' = control (w\<lparr>inSync := b\<rparr>) \<and> (b \<longrightarrow> inSync w))"
  proof (cases "updatePrev w = tpInvalid")
    case True
    with assms show ?thesis by (intro exI [of _ False]) (simp add: check_update_def)
  next
    case False
    with assms obtain pv w1 where p: "getValue primary w = Some (pv, w1)"
      by (auto simp: check_update_def Option.bind_eq_Some_conv)
    with assms False have "w' = w1\<lparr>inSync := False\<rparr> \<or> w' = w1"
      by (auto simp: check_update_def split: if_splits)
    with primary_control [OF p] show ?thesis by (auto simp: control_def)
  qed
  then show thesis using that by blast
qed

lemma finish_update_Some:
  assumes "finish_update primary reference w = Some (u, w')"
  obtains (lost) ok where "updatePhase primary reference w = Some (ok, w')" "\<not> ok"
  | (kept) w1 t w2 where "updatePhase primary reference w = Some (True, w1)" "getValue primary w1 = Some (t, w2)"
    "w' = w2\<lparr>updatePrev := t\<rparr>"
  using assms by (auto simp: finish_update_def Option.bind_eq_Some_conv split: if_splits)

lemma update_Some:
  assumes "update primary reference w = Some (u, w')"
  obtains (lost) w1 w2 where "check_update primary w = Some (u, w1)" "inSync w1"
    "updateClock primary w1 = Some (False, w2)" "w' = w2"
  | (adjusted) w1 w2 where "check_update primary w = Some (u, w1)" "inSync w1"
    "updateClock primary w1 = Some (True, w2)" "finish_update primary reference w2 = Some (u, w')"
  | (reset) w1 w2 where "check_update primary w = Some (u, w1)" "\<not> inSync w1"
    "setClock primary reference w1 = Some (u, w2)" "finish_update primary reference w2 = Some (u, w')"
proof -
  from assms obtain w1 where c: "check_update primary w = Some (u, w1)"
    by (auto simp: update_def Option.bind_eq_Some_conv)
  show thesis
  proof (cases "inSync w1")
    case True
    with assms c obtain ok w2 where k: "updateClock primary w1 = Some (ok, w2)"
      by (auto simp: update_def Option.bind_eq_Some_conv)
    with assms c True show thesis by (cases ok) (auto simp: update_def intro: lost adjusted)
  next
    case False
    with assms c obtain w2 where "setClock primary reference w1 = Some (u, w2)"
      by (auto simp: update_def Option.bind_eq_Some_conv)
    with assms c False show thesis by (intro reset) (simp_all add: update_def)
  qed
qed

text \<open>An adjustment of the variable clock: refused, or made.\<close>

lemma updateClock_Some:
  assumes "updateClock primary w = Some (ok, w')"
  obtains (panic) "\<not> ok" "phase w = durInvalid \<or> phasePanic w <s phase w \<or> phase w <s - phasePanic w"
    "w' = w\<lparr>inSync := False\<rparr>"
  | (adjusted) f where "ok" "phase w \<noteq> durInvalid" "\<not> phasePanic w <s phase w" "\<not> phase w <s - phasePanic w"
    "primaryFrequencyAvg w' = filtered (primaryFrequencyAvg w) (primaryFrequency w)"
    "f = variableClockFrequency (primaryFrequencyAvg w') (phase w)"
    "frequency (variableFrequencyClock w') = (if dle f (Fin 0) then frequency (variableFrequencyClock w) else f)"
    "snd (control w') = snd (control (w\<lparr>primaryFrequencyAvg := primaryFrequencyAvg w'\<rparr>))"
proof (cases "phase w = durInvalid \<or> phasePanic w <s phase w \<or> phase w <s - phasePanic w")
  case True
  with assms show thesis by (intro panic) (auto simp: updateClock_def split: if_splits)
next
  case False
  let ?avg = "filtered (primaryFrequencyAvg w) (primaryFrequency w)"
  let ?f = "variableClockFrequency ?avg (phase w)" and ?w = "w\<lparr>primaryFrequencyAvg := ?avg\<rparr>"
  from assms False obtain v w1 u where s: "VariableFrequencyClock_setFrequency (getValue primary) ?f
      (variableFrequencyClock w, ?w) = Some (u, (v, w1))" "w' = w1\<lparr>variableFrequencyClock := v\<rparr>" "ok"
    by (auto simp: updateClock_def vfc_setFrequency_def vfc_call_def Let_def Option.bind_eq_Some_conv)
  have "control w1 = control ?w"
    by (rule vfc_view(2) [OF primary_control s(1)])
  moreover have "frequency v = (if dle ?f (Fin 0) then frequency (variableFrequencyClock w) else ?f)"
    using frequency_setFrequency [OF s(1)] .
  ultimately show thesis
    using False s(2,3) by (intro adjusted [of ?f]) (auto simp: control_def)
qed

section \<open>The stored measurements are valid\<close>

lemma stored_ok_updatePhase:
  assumes "updatePhase primary reference w = Some (ok, w')" "stored_ok w"
  shows "stored_ok w'"
  using assms(1)
proof (cases rule: updatePhase_Some)
  case (failed w1)
  then show ?thesis using assms(2) control_eqD [OF failed(3)] by (simp add: stored_ok_def)
qed (use assms(2) in \<open>simp_all add: stored_ok_def\<close>)

lemma stored_ok_finish:
  assumes "finish_update primary reference w = Some (u, w')" "stored_ok w"
  shows "stored_ok w'"
  using assms(1)
proof (cases rule: finish_update_Some)
  case (lost ok)
  then show ?thesis using stored_ok_updatePhase assms(2) by blast
next
  case (kept w1 t w2)
  then have "stored_ok w2" using stored_ok_updatePhase assms(2) primary_control stored_ok_control by metis
  then show ?thesis by (simp add: kept stored_ok_def)
qed

lemma stored_ok_check:
  assumes "check_update primary w = Some (u, w')" "stored_ok w"
  shows "stored_ok w'"
  using assms(1) by (rule check_update_Some) (use assms(2) in \<open>simp add: stored_ok_def control_def\<close>)

lemma stored_ok_update:
  assumes "update primary reference w = Some (u, w')" "stored_ok w"
  shows "stored_ok w'"
  using assms(1)
proof (cases rule: update_Some)
  case (lost w1 w2)
  have "stored_ok w1" by (rule stored_ok_check [OF lost(1) assms(2)])
  with lost(3) show ?thesis
    by (cases rule: updateClock_Some) (simp_all add: lost(4) stored_ok_def)
next
  case (adjusted w1 w2)
  have "stored_ok w1" by (rule stored_ok_check [OF adjusted(1) assms(2)])
  with adjusted(3) have "stored_ok w2"
    by (cases rule: updateClock_Some) (simp_all add: stored_ok_def control_def)
  with adjusted(4) show ?thesis by (rule stored_ok_finish)
next
  case (reset w1 w2)
  have "stored_ok w1" by (rule stored_ok_check [OF reset(1) assms(2)])
  with reset(3) have "stored_ok w2"
    by (elim setClock_Some) (simp add: stored_ok_def control_def)
  with reset(4) show ?thesis by (rule stored_ok_finish)
qed

section \<open>Sync lost and regained\<close>

lemma updatePhase_in_sync:
  assumes "updatePhase primary reference w = Some (ok, w')" "inSync w'"
  shows "ok"
  using assms(1) by (cases rule: updatePhase_Some) (use assms(2) in simp_all)

text \<open>What an update that ends in sync has measured.\<close>

definition measured :: "'a plc_scheme \<Rightarrow> 'a plc_scheme \<Rightarrow> bool" where
  "measured w w' \<longleftrightarrow> \<not> vfc_dead (variableFrequencyClock w')
    \<and> phase w' \<noteq> durInvalid \<and> variableValue w' \<noteq> tpInvalid \<and> primaryValue w' \<noteq> tpInvalid
    \<and> phasePrev w' = phase w \<and> variableValuePrev w' = variableValue w \<and> primaryValuePrev w' = primaryValue w
    \<and> marker (variableFrequencyClock w') = marker (variableFrequencyClock w)
    \<and> frequency (variableFrequencyClock w') = frequency (variableFrequencyClock w)
    \<and> primaryFrequencyAvg w' = primaryFrequencyAvg w"

lemma finish_in_sync:
  assumes "finish_update primary reference w = Some (u, w')" "inSync w'"
  shows "measured w w'"
  using assms(1)
proof (cases rule: finish_update_Some)
  case (lost ok)
  then show ?thesis using updatePhase_in_sync assms(2) by blast
next
  case (kept w1 t w2)
  note p = primary_control [OF kept(2)] primary_vfc [OF kept(2)]
  from kept(1) show ?thesis
  proof (cases rule: updatePhase_Some)
    case (stored wa ph vv tmp)
    with p control_eqD [OF p(1)] control_eqD [OF stored(3)] show ?thesis by (simp add: measured_def kept(3))
  qed simp_all
qed

text \<open>The frequency average changes in \<open>updateClock\<close> only.\<close>

lemma finish_avg:
  assumes "finish_update primary reference w = Some (u, w')"
  shows "primaryFrequencyAvg w' = primaryFrequencyAvg w"
proof -
  have p: "primaryFrequencyAvg w1 = primaryFrequencyAvg w" if "updatePhase primary reference w = Some (ok, w1)" for ok w1
    using that
  proof (cases rule: updatePhase_Some)
    case (failed v)
    with control_eqD(8) [OF failed(3)] show ?thesis by simp
  next
    case (stored v ph vv tmp)
    with control_eqD(8) [OF stored(3)] show ?thesis by simp
  qed simp
  from assms show ?thesis
  proof (cases rule: finish_update_Some)
    case (lost ok)
    from p [OF lost(1)] show ?thesis .
  next
    case (kept w1 t w2)
    with p [OF kept(1)] control_eqD(8) [OF primary_control [OF kept(2)]] show ?thesis by simp
  qed
qed

lemma update_avg:
  assumes "update primary reference w = Some (u, w')"
  shows "primaryFrequencyAvg w' = primaryFrequencyAvg w
    \<or> (\<exists>v :: 'a plc_scheme. primaryFrequencyAvg w' = filtered (primaryFrequencyAvg w) (primaryFrequency v))"
proof -
  have c: "check_update primary w = Some (u, v) \<Longrightarrow> primaryFrequencyAvg v = primaryFrequencyAvg w" for u v
    by (erule check_update_Some) (simp add: control_def)
  from assms show ?thesis
  proof (cases rule: update_Some)
    case (lost w1 w2)
    from lost(3) show ?thesis by (cases rule: updateClock_Some) (use lost c in simp_all)
  next
    case (adjusted w1 w2)
    from adjusted(3) show ?thesis
      by (cases rule: updateClock_Some) (use adjusted(1) c finish_avg [OF adjusted(4)] in auto)
  next
    case (reset w1 w2)
    from reset(3) have "primaryFrequencyAvg w2 = primaryFrequencyAvg w1"
      by (elim setClock_Some) (simp add: control_def)
    with reset(1) c finish_avg [OF reset(4)] show ?thesis by simp
  qed
qed

lemma update_in_sync:
  assumes "update primary reference w = Some (u, w')" "inSync w'"
  shows "\<not> vfc_dead (variableFrequencyClock w') \<and> phase w' \<noteq> durInvalid
    \<and> variableValue w' \<noteq> tpInvalid \<and> primaryValue w' \<noteq> tpInvalid
    \<and> phasePrev w' = phase w \<and> variableValuePrev w' = variableValue w \<and> primaryValuePrev w' = primaryValue w"
  using assms(1)
proof (cases rule: update_Some)
  case (lost w1 w2)
  from lost(3) show ?thesis by (cases rule: updateClock_Some) (use lost assms(2) in simp_all)
next
  case (adjusted w1 w2)
  obtain b where c: "control w1 = control (w\<lparr>inSync := b\<rparr>)" using adjusted(1) by (rule check_update_Some)
  have "measured w2 w'" by (rule finish_in_sync [OF adjusted(4) assms(2)])
  with adjusted(3) c show ?thesis
    by (cases rule: updateClock_Some) (simp_all add: measured_def control_def)
next
  case (reset w1 w2)
  obtain b where c: "control w1 = control (w\<lparr>inSync := b\<rparr>)" using reset(1) by (rule check_update_Some)
  have "measured w2 w'" by (rule finish_in_sync [OF reset(4) assms(2)])
  with reset(3) c show ?thesis
    by (elim setClock_Some) (simp add: measured_def control_def)
qed

text \<open>An update that starts out of sync, or finds that it is, and ends in sync has set the variable
  clock to a valid time of the reference.\<close>

lemma update_resets:
  assumes "check_update primary w = Some (u, w1)" "\<not> inSync w1" "update primary reference w = Some (u, w')" "inSync w'"
  shows "\<exists>wa t wb. getValue reference wa = Some (t, wb) \<and> t \<noteq> tpInvalid \<and> marker (variableFrequencyClock w') = t
    \<and> frequency (variableFrequencyClock w') = frequency (variableFrequencyClock w)
    \<and> primaryFrequencyAvg w' = primaryFrequencyAvg w"
  using assms(3)
proof (cases rule: update_Some)
  case (reset wx w2)
  with assms(1) have c: "setClock primary reference w1 = Some (u, w2)" by simp
  obtain b where k: "control w1 = control (w\<lparr>inSync := b\<rparr>)" using assms(1) by (rule check_update_Some)
  have m: "measured w2 w'" by (rule finish_in_sync [OF reset(4) assms(4)])
  from c show ?thesis
  proof (rule setClock_Some)
    fix wa t wb r w3
    assume a: "getValue reference wa = Some (t, wb)" "getValue primary wb = Some (r, w3)"
      "control wa = control (w1\<lparr>inSync := True\<rparr>)" "control w3 = control (w1\<lparr>inSync := True\<rparr>)"
      "w2 = w3\<lparr>variableFrequencyClock := (variableFrequencyClock wb)\<lparr>marker := t, markerSrc := r, rolledOver := False\<rparr>\<rparr>"
    have "control wb = control wa" by (rule reference_control [OF a(1)])
    then have f: "frequency (variableFrequencyClock wb) = frequency (variableFrequencyClock w)"
      using a(3) k by (simp add: control_def)
    from m a(5) have "marker (variableFrequencyClock w') = t"
      "frequency (variableFrequencyClock w') = frequency (variableFrequencyClock w)"
      "primaryFrequencyAvg w' = primaryFrequencyAvg w"
      using f a(4) k by (simp_all add: measured_def control_def)
    moreover from m this(1) have "t \<noteq> tpInvalid" by (auto simp: measured_def vfc_dead_def)
    ultimately show ?thesis using a(1) by blast
  qed
qed (use assms in auto)

end

text \<open>The clocks of the program.\<close>

interpretation control_vfc: client_frame "\<lambda>w :: 'a plc_scheme. (control w, variableFrequencyClock w)"
  by unfold_locales (simp_all add: control_def)

interpretation control_only: client_frame "control :: 'a plc_scheme \<Rightarrow> _"
  by unfold_locales (simp_all add: control_def)

interpretation program: plc_clocks SystemClock ClockClient
  by unfold_locales
    (auto simp: SystemClock_simps ClockClient_def dest: control_vfc.SystemClock_view control_only.getValue_view
      control_only.getPhase_view)

text \<open>Reading the variable clock of the program leaves the client and the network alone.\<close>

interpretation vfc_net: net_clock "vfc_getValue SystemClock :: ('a plc_scheme, tp) call"
proof
  fix w :: "'a plc_scheme"
  have r: "\<exists>t v w'. VariableFrequencyClock_getValue SystemClock_getValue (variableFrequencyClock w, w) = Some (t, (v, w'))
      \<and> net_view w' = net_view w"
    by (cases "rolledOver (variableFrequencyClock w)")
      (auto simp: vfc_getValue_rolled vfc_getValue_read [OF _ SystemClock_getValue_eq] net_view_eq)
  then show "\<exists>t w'. vfc_getValue SystemClock w = Some (t, w')"
    by (auto simp: vfc_getValue_def vfc_call_def SystemClock_simps)
  show "net_view w' = net_view w" if "vfc_getValue SystemClock w = Some (t, w')" for t w'
    using r that by (auto simp: vfc_getValue_def vfc_call_def SystemClock_simps net_view_eq)
qed

section \<open>The reachable states of the program's clock\<close>

inductive plc_reachable :: "plc \<Rightarrow> bool" where
  created: "PhaseLockedClock_new SystemClock w0 = Some w \<Longrightarrow> plc_reachable w"
| updated: "plc_reachable w \<Longrightarrow> update SystemClock ClockClient w = Some (u, w') \<Longrightarrow> plc_reachable w'"
| value_read: "plc_reachable w \<Longrightarrow> PhaseLockedClock_getValue SystemClock w = Some (t, w') \<Longrightarrow> plc_reachable w'"
| phase_panic_set: "plc_reachable w \<Longrightarrow> plc_reachable (setPhasePanic d w)"
| update_panic_set: "plc_reachable w \<Longrightarrow> plc_reachable (setUpdatePanic d w)"
| timeout_set: "plc_reachable w \<Longrightarrow> plc_reachable (setTimeout usec w)"
| acknowledge_set: "plc_reachable w \<Longrightarrow> plc_reachable (setAcknowledge a w)"
| kill_sent: "plc_reachable w \<Longrightarrow> PhaseLockedClock_die ClockClient w = Some (u, w') \<Longrightarrow> plc_reachable w'"

lemma PhaseLockedClock_new_Some:
  "PhaseLockedClock_new SystemClock w0 = Some w \<Longrightarrow> phase w = 0 \<and> phasePrev w = 0 \<and> variableValue w = 0
    \<and> variableValuePrev w = 0 \<and> primaryValue w = 0 \<and> primaryValuePrev w = 0 \<and> \<not> inSync w
    \<and> primaryFrequencyAvg w = Fin 1000000 \<and> phasePanic w = 5000 \<and> updatePanic w = 5000000"
  by (auto simp: PhaseLockedClock_new_def VariableFrequencyClock_new_def SystemClock_simps SystemClock_getValue_eq
      client.extend_def)

lemma zero_valid [simp]: "durInvalid \<noteq> 0" "tpInvalid \<noteq> 0"
  by (simp_all add: invalid_eq usecInvalid_def)

lemma stored_ok_new: "PhaseLockedClock_new SystemClock w0 = Some w \<Longrightarrow> stored_ok w"
  using PhaseLockedClock_new_Some [of w0 w] by (simp add: stored_ok_def)

lemma stored_ok_read:
  assumes "PhaseLockedClock_getValue SystemClock w = Some (t, w')" "stored_ok w"
  shows "stored_ok w'"
proof (cases "inSync w")
  case True
  with assms(1) have "vfc_getValue SystemClock w = Some (t, w')" by (simp add: PhaseLockedClock_getValue_def)
  then have "control w' = control w" by (rule program.plc_vfc_getValue(1))
  from stored_ok_control [OF this] assms(2) show ?thesis by simp
next
  case False
  with assms show ?thesis by (simp add: PhaseLockedClock_getValue_def)
qed

lemma stored_ok_set:
  "stored_ok (setPhasePanic d w) = stored_ok w" "stored_ok (setUpdatePanic d w) = stored_ok w"
  "stored_ok (setTimeout usec w) = stored_ok w" "stored_ok (setAcknowledge a w) = stored_ok w"
  by (simp_all add: stored_ok_def setPhasePanic_def setUpdatePanic_def setTimeout_def setAcknowledge_def)

lemma die_control:
  assumes "PhaseLockedClock_die ClockClient w = Some (u, w')"
  shows "control w' = control w"
  using assms control_only.sendPacket_view
  by (auto simp: PhaseLockedClock_die_def ClockClient_def ClockClient_die_def Option.bind_eq_Some_conv)

lemma stored_ok_reachable: "plc_reachable w \<Longrightarrow> stored_ok w"
proof (induction rule: plc_reachable.induct)
  case (created w0 w)
  then show ?case by (rule stored_ok_new)
next
  case (updated w u w')
  show ?case by (rule program.stored_ok_update [OF updated.hyps(2) updated.IH])
next
  case (value_read w t w')
  show ?case by (rule stored_ok_read [OF value_read.hyps(2) value_read.IH])
next
  case (kill_sent w u w')
  from stored_ok_control [OF die_control [OF kill_sent.hyps(2)]] kill_sent.IH show ?case by simp
qed (simp_all only: stored_ok_set)

text \<open>C9: In every state that the constructor, updates, readings and settings of the clock, its thresholds
  and its client can reach, whatever the network and the system clock do, none of the six stored
  measurements is invalid; so the arithmetic on them, which does not check, never meets the invalid
  value, and the offset is reported as invalid exactly when the clock is out of sync.\<close>

theorem plc_stored_values_valid:
  assumes "plc_reachable w"
  shows "phase w \<noteq> durInvalid \<and> phasePrev w \<noteq> durInvalid
    \<and> variableValue w \<noteq> tpInvalid \<and> variableValuePrev w \<noteq> tpInvalid
    \<and> primaryValue w \<noteq> tpInvalid \<and> primaryValuePrev w \<noteq> tpInvalid
    \<and> (getOffset w = durInvalid \<longleftrightarrow> \<not> isSynchronized w)"
  using stored_ok_reachable [OF assms] by (simp add: stored_ok_def getOffset_def isSynchronized_def)

definition fresh_plc :: "int list \<Rightarrow> recvfrom_result list \<Rightarrow> plc" where
  "fresh_plc ss rs = the (PhaseLockedClock_new SystemClock (fresh_client ss rs))"

lemma fresh_plc_new: "PhaseLockedClock_new SystemClock (fresh_client ss rs) = Some (fresh_plc ss rs)"
  by (simp add: fresh_plc_def PhaseLockedClock_new_def VariableFrequencyClock_new_def SystemClock_simps
      SystemClock_getValue_eq)

lemma fresh_plc_simps [simp]:
  "selects (fresh_plc ss rs) = ss" "recvs (fresh_plc ss rs) = rs" "sendtos (fresh_plc ss rs) = []"
  "sequence (fresh_plc ss rs) = 0" "timeout (fresh_plc ss rs) = 1000" "sys_reads (fresh_plc ss rs) = 1"
  "sys_now (fresh_plc ss rs) = (\<lambda>n. of_nat n * 50000)" "\<not> inSync (fresh_plc ss rs)"
  "frequency (variableFrequencyClock (fresh_plc ss rs)) = Fin 1000000" "updatePrev (fresh_plc ss rs) = 0"
  by (simp_all add: fresh_plc_def PhaseLockedClock_new_def VariableFrequencyClock_new_def SystemClock_simps
      SystemClock_getValue_eq client.extend_def)

theorem plc_stored_values_valid_witness: "getOffset (setPhasePanic 7 (fresh_plc [] [])) = durInvalid"
  using plc_stored_values_valid [OF phase_panic_set [OF created [OF fresh_plc_new, of "[]" "[]"]], of 7]
    PhaseLockedClock_new_Some [OF fresh_plc_new, of "[]" "[]"]
  by (simp add: isSynchronized_def setPhasePanic_def)

text \<open>A first update, with two replies of the server, while the system clock stands still at 0: the first
  sets the clock to 5000, the second measures its phase as 0.\<close>

definition phase_reply :: packet where
  "phase_reply = \<lparr>type = REPLY, sequenceNumber = 2, clientRequestTime = 5000, serverReplyTime = 5000,
     clientReceiveTime = tpInvalid\<rparr>"

definition demo_plc :: plc where
  "demo_plc = the (PhaseLockedClock_new SystemClock ((fresh_client [1, 1]
     [Datagram (ClockPacket_write (good_reply 1)) no_sockaddr,
      Datagram (ClockPacket_write phase_reply) no_sockaddr])\<lparr>sys_now := (\<lambda>_. 0)\<rparr>))"

lemma demo_plc_simps [simp]:
  "sys_now demo_plc = (\<lambda>_. 0)" "sequence demo_plc = 0" "sendtos demo_plc = []" "timeout demo_plc = 1000"
  "selects demo_plc = [1, 1]" "recvs demo_plc = [Datagram (ClockPacket_write (good_reply 1)) no_sockaddr,
      Datagram (ClockPacket_write phase_reply) no_sockaddr]" "\<not> acknowledge demo_plc"
  "variableFrequencyClock demo_plc = \<lparr>frequency = Fin 1000000, markerSrc = 0, marker = 0, rolledOver = False\<rparr>"
  "\<not> inSync demo_plc" "updatePrev demo_plc = 0"
  by (simp_all add: demo_plc_def PhaseLockedClock_new_def VariableFrequencyClock_new_def SystemClock_simps
      SystemClock_getValue_eq client.extend_def fresh_client_def sys_time_def cdiv_def tp0_def signed_divide_int_def)

lemma still_SystemClock:
  "sys_now w = (\<lambda>_. 0) \<Longrightarrow> SystemClock_getValue w = Some (0, w\<lparr>sys_reads := Suc (sys_reads w)\<rparr>)"
  by (simp add: SystemClock_getValue_eq sys_time_def cdiv_def signed_divide_int_def)

lemma still_vfc:
  assumes "sys_now w = (\<lambda>_. 0)"
    "variableFrequencyClock w = \<lparr>frequency = Fin 1000000, markerSrc = 0, marker = 5000, rolledOver = False\<rparr>"
  shows "vfc_getValue SystemClock w = Some (5000, w\<lparr>sys_reads := Suc (sys_reads w)\<rparr>)"
proof -
  have "scaled_ticks (Fin 1000000) 0 = 0" by (rule scaled_ticks_nominal) simp
  with assms show ?thesis
    by (simp add: vfc_getValue_def vfc_call_def SystemClock_simps vfc_getValue_read still_SystemClock vfc_value_def
        vfc_roll_def diff_def invalid_eq usecInvalid_def)
qed

lemma demo_update: "\<exists>w'. update SystemClock ClockClient demo_plc = Some ((), w') \<and> inSync w'"
proof -
  have n: "next_sequence 0 = 1" "next_sequence 1 = 2" by (simp_all add: next_sequence_def)
  have p: "timely 1000 ((good_reply 1)\<lparr>clientReceiveTime := 0\<rparr>)"
    "getClockOffset ((good_reply 1)\<lparr>clientReceiveTime := 0\<rparr>) = 5000"
    "timely 1000 (phase_reply\<lparr>clientReceiveTime := 5000\<rparr>)"
    "getClockOffset (phase_reply\<lparr>clientReceiveTime := 5000\<rparr>) = 0"
    "type phase_reply = REPLY" "sequenceNumber phase_reply = 2"
    by (simp_all add: timely_def good_reply_def phase_reply_def rtt_def diff_def getClockOffset_def getErrorBound_def
        invalid_eq usecInvalid_def Let_def word_sless_alt cdiv_def signed_divide_int_def)
  let ?w1 = "demo_plc\<lparr>sys_reads := Suc (sys_reads demo_plc), inSync := True\<rparr>"
  obtain w2 where v: "ClockClient_getValue ?w1 = Some (5000, w2)" "sys_now w2 = (\<lambda>_. 0)" "sequence w2 = 1"
    "sendtos w2 = []" "selects w2 = [1]" "recvs w2 = [Datagram (ClockPacket_write phase_reply) no_sockaddr]"
    "\<not> acknowledge w2" "timeout w2 = 1000" "inSync w2"
    "variableFrequencyClock w2 = \<lparr>frequency = Fin 1000000, markerSrc = 0, marker = 0, rolledOver = False\<rparr>"
    using sys_net.exchange [of 1 ?w1 0 _ "[1]" "good_reply 1" no_sockaddr
        "[Datagram (ClockPacket_write phase_reply) no_sockaddr]" 0 _ False, OF _ still_SystemClock _ _ _ _ _ still_SystemClock]
    by (simp add: n p ClockClient_getValue_def still_SystemClock exchanged_def Let_def invalid_eq usecInvalid_def)
  let ?w3 = "w2\<lparr>sys_reads := Suc (sys_reads w2),
    variableFrequencyClock := \<lparr>frequency = Fin 1000000, markerSrc = 0, marker = 5000, rolledOver = False\<rparr>\<rparr>"
  have s: "setClock SystemClock ClockClient (demo_plc\<lparr>sys_reads := Suc (sys_reads demo_plc)\<rparr>) = Some ((), ?w3)"
    using v by (simp add: setClock_def ClockClient_def vfc_setValue_def vfc_call_def SystemClock_simps
        still_SystemClock vfc_setValue_read)
  note k = vfc_net.exchange [of 2 ?w3 5000 _ "[]" phase_reply no_sockaddr "[]" 5000 _ False, OF _ still_vfc _ _ _ _ _ still_vfc]
  obtain w4 where g: "ClockClient_getPhase (vfc_getValue SystemClock) ?w3 = Some (0, w4)"
    "sys_now w4 = (\<lambda>_. 0)" "variableFrequencyClock w4 = variableFrequencyClock ?w3" "inSync w4"
    using k v by (simp add: n p exchanged_def ClockClient_getPhase_def Let_def)
  have "\<exists>w5. finish_update SystemClock ClockClient ?w3 = Some ((), w5) \<and> inSync w5"
    using g v(9) by (simp add: finish_update_def updatePhase_def ClockClient_def SystemClock_simps still_vfc
        still_SystemClock invalid_eq usecInvalid_def Let_def)
  then obtain w5 where "finish_update SystemClock ClockClient ?w3 = Some ((), w5)" "inSync w5" by blast
  moreover have "check_update SystemClock demo_plc = Some ((), demo_plc\<lparr>sys_reads := Suc (sys_reads demo_plc)\<rparr>)"
    by (simp add: check_update_def SystemClock_simps still_SystemClock)
  ultimately show ?thesis using s by (simp add: update_def)
qed

text \<open>An update that ends in sync has just taken valid readings of the phase, of the variable clock
  and of the primary clock, has stored them and kept the ones before; and the variable clock is able to
  give a time.  If any of the readings is invalid, the clock is out of sync after the update.\<close>

theorem plc_in_sync_after_update:
  assumes "update SystemClock ClockClient w = Some (u, w')" "inSync w'"
  shows "\<not> vfc_dead (variableFrequencyClock w') \<and> phase w' \<noteq> durInvalid
    \<and> variableValue w' \<noteq> tpInvalid \<and> primaryValue w' \<noteq> tpInvalid
    \<and> phasePrev w' = phase w \<and> variableValuePrev w' = variableValue w \<and> primaryValuePrev w' = primaryValue w"
  by (rule program.update_in_sync [OF assms])


text \<open>When the stored phase exceeds the panic threshold in either direction, the next update gives up
  sync and does nothing else: it reads the system clock once and sends no packet.  From then on the
  clock shows the invalid time and the invalid offset, until an update resyncs.\<close>

theorem plc_panic_desyncs:
  assumes "inSync w" "updatePrev w \<noteq> tpInvalid" "\<not> updatePrev w + updatePanic w <s sys_time w"
    and "phase w = durInvalid \<or> phasePanic w <s phase w \<or> phase w <s - phasePanic w"
  shows "let w' = w\<lparr>sys_reads := Suc (sys_reads w), inSync := False\<rparr>
    in update SystemClock reference w = Some ((), w')
      \<and> PhaseLockedClock_getValue SystemClock w' = Some (tpInvalid, w') \<and> getOffset w' = durInvalid"
  using assms
  by (auto simp: update_def check_update_def SystemClock_simps SystemClock_getValue_eq updateClock_def
      PhaseLockedClock_getValue_def getOffset_def Let_def)

theorem plc_in_sync_after_update_witness:
  "\<exists>w'. update SystemClock ClockClient demo_plc = Some ((), w') \<and> \<not> vfc_dead (variableFrequencyClock w')
    \<and> phasePrev w' = phase demo_plc"
  using demo_update plc_in_sync_after_update [of demo_plc "()"] by blast


theorem plc_panic_desyncs_witness:
  "let w = demo_plc\<lparr>inSync := True, phase := - 6000, phasePanic := 5000\<rparr>
   in update SystemClock ClockClient w = Some ((), w\<lparr>sys_reads := Suc (sys_reads w), inSync := False\<rparr>)"
proof -
  let ?v = "demo_plc\<lparr>inSync := True, phase := - 6000, phasePanic := 5000\<rparr>"
  have "updatePanic demo_plc = 5000000"
    by (simp add: demo_plc_def PhaseLockedClock_new_def VariableFrequencyClock_new_def SystemClock_simps
      SystemClock_getValue_eq client.extend_def fresh_client_def)
  then show ?thesis
    using plc_panic_desyncs [of ?v ClockClient]
    by (simp add: word_sless_alt sys_time_def cdiv_def signed_divide_int_def Let_def)
qed

end
