(* ===== verification/ControlLaw.thy ===== *)
theory ControlLaw
  imports PhaseLockedClock
begin

text \<open>
  The arithmetic of the control loop of \<open>PhaseLockedClock\<close>, in the doubles that the code computes
  with: the filter that averages the measured frequency of the primary clock, the frequency that
  \<open>updateClock\<close> sets, what a NaN or an infinite measurement does to them, and what
  \<open>setUpdatePanic\<close> does to the test for an update that is too long ago.
\<close>

section \<open>Rounding between integers\<close>

lemma fl_between:
  assumes "of_int m \<le> x" "x \<le> of_int n" "\<bar>m\<bar> \<le> 2 ^ 53" "\<bar>n\<bar> \<le> 2 ^ 53"
  shows "fl x = Fin (rnd x)" "of_int m \<le> rnd x" "rnd x \<le> of_int n"
proof -
  show b: "of_int m \<le> rnd x" "rnd x \<le> of_int n"
    by (rule ieee.round_ge [OF representable_of_int [OF assms(3)] assms(1)],
        rule ieee.round_le [OF representable_of_int [OF assms(4)] assms(2)])
  have a: "\<bar>of_int k :: rat\<bar> \<le> 2 ^ 53" if "\<bar>k\<bar> \<le> 2 ^ 53" for k
    using that by (metis of_int_abs of_int_le_iff of_int_numeral of_int_power)
  have "\<bar>rnd x\<bar> \<le> 2 ^ 53" using b a [OF assms(3)] a [OF assms(4)] by linarith
  also have "(2 :: rat) ^ 53 < 2 ^ 1024" by (rule power_strict_increasing) simp_all
  finally show "fl x = Fin (rnd x)" by (rule fl_rnd)
qed

text \<open>The double nearest to a tenth.\<close>

lemma rnd_tenth: "0 \<le> rnd (1 / 10)" "rnd (1 / 10) \<le> 1 / 8" "10000 * rnd (1 / 10) \<le> 1001" "1 / 16 \<le> rnd (1 / 10)"
proof -
  have "representable (1 / 16)" using representable_pow2 [of "- 4"] by (simp add: power_int_def power_divide)
  then show "1 / 16 \<le> rnd (1 / 10)" by (rule ieee.round_ge) simp
  show "0 \<le> rnd (1 / 10)" by (rule rnd_nonneg) simp
  have "representable (1 / 8)" using representable_pow2 [of "- 3"] by (simp add: power_int_def power_divide)
  then show "rnd (1 / 10) \<le> 1 / 8" by (rule ieee.round_le) simp
  have e: "expo (1 / 10) = - 4" by (rule expo_unique) (simp_all add: power_int_def power_divide)
  have u: "ulp (1 / 10) = 1 / 2 ^ 56" by (simp add: ulp_def e power_int_def power_divide)
  have "of_int (round_half_even (1 / 10 / ulp (1 / 10))) \<le> 1 / 10 / ulp (1 / 10) + 1 / 2"
    using round_half_even_error [of "1 / 10 / ulp (1 / 10)"] by (simp only: abs_le_iff) linarith
  then show "10000 * rnd (1 / 10) \<le> 1001" unfolding rnd_def u by (simp add: field_simps)
qed

lemma tenth_eq: "tenth = Fin (rnd (1 / 10))"
  unfolding tenth_def by (rule fl_between(1) [of 0 _ 1]) simp_all

section \<open>The filter\<close>

lemma filtered_between:
  assumes "representable a" "representable f" "of_int lo \<le> a" "a \<le> of_int hi" "of_int lo \<le> f" "f \<le> of_int hi"
    and "0 \<le> lo" "hi \<le> 2 ^ 50"
  shows "\<exists>a'. filtered (Fin a) (Fin f) = Fin a' \<and> is_double (Fin a') \<and> of_int lo \<le> a' \<and> a' \<le> of_int hi"
proof -
  let ?c = "rnd (1 / 10)" and ?h = "hi - lo"
  let ?d = "rnd (f - a)" and ?e = "rnd (rnd (f - a) * ?c)"
  have le: "lo \<le> hi" using assms(3,4) by (metis of_int_le_iff order_trans)
  have small: "\<bar>- ?h\<bar> \<le> 2 ^ 53" "\<bar>?h\<bar> \<le> 2 ^ 53" "\<bar>lo - ?h\<bar> \<le> 2 ^ 53" "\<bar>hi + ?h\<bar> \<le> 2 ^ 53"
    using assms(7,8) le by (simp_all add: abs_le_iff)
  have "of_int (- ?h) \<le> f - a" "f - a \<le> of_int ?h" using assms(3-6) by (simp_all add: algebra_simps)
  note d = fl_between [OF this small(1,2)]
  have "of_int (- ?h) \<le> ?d * ?c \<and> ?d * ?c \<le> of_int ?h"
  proof -
    have "\<bar>?d * ?c\<bar> \<le> of_int ?h * 1"
      unfolding abs_mult using d(2,3) rnd_tenth le by (intro mult_mono) (auto simp: abs_le_iff)
    then show ?thesis by (simp add: abs_le_iff)
  qed
  then have "of_int (- ?h) \<le> ?d * ?c" "?d * ?c \<le> of_int ?h" by simp_all
  note e = fl_between [OF this small(1,2)]
  have "of_int (lo - ?h) \<le> a + ?e" "a + ?e \<le> of_int (hi + ?h)" using e(2,3) assms(3,4) by simp_all
  note s = fl_between [OF this small(3,4)]
  have "filtered (Fin a) (Fin f) = Fin (rnd (a + ?e))"
    by (simp add: filtered_def tenth_eq d(1) e(1) s(1))
  moreover from this have "is_double (Fin (rnd (a + ?e)))" using s(1) is_double_fl by metis
  ultimately show ?thesis
    using ieee.step_between [OF assms(1,2,3,5,4,6) rnd_tenth(1)] rnd_tenth(2) by auto
qed

text \<open>The filter neither overshoots nor drifts: as long as every measured frequency lies between two
  integers, the average stays between them too, in spite of all rounding.\<close>

theorem plc_filter_stays_between:
  assumes "is_double (Fin a)" "of_int lo \<le> a" "a \<le> of_int hi" "0 \<le> lo" "hi \<le> 2 ^ 50"
    and "\<forall>f\<in>set fs. is_double (Fin f) \<and> of_int lo \<le> f \<and> f \<le> of_int hi"
  shows "\<exists>a'. foldl filtered (Fin a) (map Fin fs) = Fin a' \<and> of_int lo \<le> a' \<and> a' \<le> of_int hi"
  using assms
proof (induction fs arbitrary: a)
  case (Cons f fs)
  then obtain a' where a': "filtered (Fin a) (Fin f) = Fin a'" "is_double (Fin a')" "of_int lo \<le> a'" "a' \<le> of_int hi"
    using filtered_between [of a f lo hi] by auto
  with Cons a' show ?case by simp
qed simp

theorem plc_filter_stays_between_witness:
  "\<exists>a'. foldl filtered (Fin 1000000) (map Fin [1000020, 999990]) = Fin a' \<and> 999990 \<le> a' \<and> a' \<le> 1000020"
proof -
  have d: "is_double (Fin (of_int k))" if "\<bar>k\<bar> \<le> 2 ^ 53" for k
    using fl_of_int [OF that] is_double_fl by metis
  show ?thesis
    using plc_filter_stays_between [of 1000000 999990 1000020 "[1000020, 999990]"] d [of 1000000] d [of 1000020]
      d [of 999990] by simp
qed

section \<open>The frequency that is set\<close>

lemma variableClockFrequency_between:
  assumes "of_int lo \<le> a" "a \<le> of_int hi" "0 \<le> lo" "hi \<le> 2 ^ 50" "\<bar>sint ph\<bar> \<le> 5000"
  shows "\<exists>f. variableClockFrequency (Fin a) ph = Fin f
    \<and> of_int (2000000 - hi - 501) \<le> f \<and> f \<le> of_int (2000000 - lo + 501)"
proof -
  let ?c = "rnd (1 / 10)"
  have le: "lo \<le> hi" using assms(1,2) by (metis of_int_le_iff order_trans)
  have small: "\<bar>1000000 - hi\<bar> \<le> 2 ^ 53" "\<bar>1000000 - lo\<bar> \<le> 2 ^ 53" "\<bar>2000000 - hi\<bar> \<le> 2 ^ 53" "\<bar>2000000 - lo\<bar> \<le> 2 ^ 53"
    "\<bar>- 501 :: int\<bar> \<le> 2 ^ 53" "\<bar>501 :: int\<bar> \<le> 2 ^ 53"
    "\<bar>2000000 - hi - 501\<bar> \<le> 2 ^ 53" "\<bar>2000000 - lo + 501\<bar> \<le> 2 ^ 53"
    using assms(3,4) le by (simp_all add: abs_le_iff)
  have "of_int (1000000 - hi) \<le> 1000000 - a" "1000000 - a \<le> of_int (1000000 - lo)"
    using assms(1,2) by simp_all
  note d = fl_between [OF this small(1,2)]
  have "of_int (2000000 - hi) \<le> 1000000 + rnd (1000000 - a)" "1000000 + rnd (1000000 - a) \<le> of_int (2000000 - lo)"
    using d(2,3) by simp_all
  note s = fl_between [OF this small(3,4)]
  have p: "double_of_int64 ph = Fin (of_int (sint ph))" using assms(5) by (intro double_of_int64_exact) simp
  have "\<bar>of_int (sint ph) :: rat\<bar> \<le> 5000" using assms(5) by (metis of_int_abs of_int_le_iff of_int_numeral)
  then have "\<bar>of_int (sint ph) * ?c\<bar> \<le> 5000 * ?c"
    unfolding abs_mult using rnd_tenth(1) by (intro mult_mono) simp_all
  also have "\<dots> \<le> 501" using rnd_tenth(3) by simp
  finally have q': "of_int (- 501) \<le> of_int (sint ph) * ?c" "of_int (sint ph) * ?c \<le> of_int 501"
    by (simp_all only: abs_le_iff of_int_minus of_int_numeral, linarith+)
  note q = fl_between [OF q' small(5,6)]
  let ?s = "rnd (1000000 + rnd (1000000 - a))" and ?q = "rnd (of_int (sint ph) * ?c)"
  have "of_int (2000000 - hi - 501) \<le> ?s + ?q" "?s + ?q \<le> of_int (2000000 - lo + 501)"
    using s(2,3) q(2,3) by simp_all
  note f = fl_between [OF this small(7,8)]
  have "variableClockFrequency (Fin a) ph = Fin (rnd (?s + ?q))"
    by (simp only: variableClockFrequency_def Let_def p tenth_eq dsub_Fin dmul.simps dadd.simps Usec_conv
        d(1) s(1) q(1) f(1))
  with f show ?thesis by blast
qed

text \<open>C23: While the clock is in sync, with the default panic threshold of 5 ms or a smaller one and a primary
  clock whose measured and average frequencies lie between \<open>lo\<close> and \<open>hi\<close>, an adjustment sets the
  variable clock to a frequency between \<open>2000000 - hi - 501\<close> and \<open>2000000 - lo + 501\<close>, which is positive and so
  takes effect, and keeps the average between \<open>lo\<close> and \<open>hi\<close>.\<close>

theorem plc_frequency_bounded:
  assumes "updateClock SystemClock w = Some (True, w')"
    and "primaryFrequencyAvg w = Fin a" "primaryFrequency w = Fin p" "is_double (Fin a)" "is_double (Fin p)"
    and "of_int lo \<le> a" "a \<le> of_int hi" "of_int lo \<le> p" "p \<le> of_int hi" "0 \<le> lo" "hi < 1999499"
    and "0 \<le> sint (phasePanic w)" "sint (phasePanic w) \<le> 5000"
  shows "\<exists>a' f. primaryFrequencyAvg w' = Fin a' \<and> of_int lo \<le> a' \<and> a' \<le> of_int hi
    \<and> frequency (variableFrequencyClock w') = Fin f
    \<and> of_int (2000000 - hi - 501) \<le> f \<and> f \<le> of_int (2000000 - lo + 501) \<and> 0 < f"
  using assms(1)
proof (cases rule: program.updateClock_Some)
  case (adjusted f)
  obtain a' where a': "primaryFrequencyAvg w' = Fin a'" "of_int lo \<le> a'" "a' \<le> of_int hi"
    using filtered_between [of a p lo hi] assms by (auto simp: adjusted)
  have "\<bar>sint (phase w)\<bar> \<le> 5000"
  proof -
    have "sint (- phasePanic w) = - sint (phasePanic w)"
      using assms(12,13) by (intro sint_minus_int64) (simp add: in_int64_def)
    then show ?thesis using adjusted(3,4) assms(13) by (simp add: word_sless_alt abs_le_iff)
  qed
  with a' assms obtain g where g: "f = Fin g" "of_int (2000000 - hi - 501) \<le> g" "g \<le> of_int (2000000 - lo + 501)"
    using variableClockFrequency_between [of lo a' hi "phase w"] by (auto simp: adjusted(6))
  have "(0 :: rat) < of_int (2000000 - hi - 501)" unfolding of_int_0_less_iff using assms(11) by simp
  then have "0 < g" using g(2) by linarith
  with a' g adjusted(7) show ?thesis by simp
qed simp

definition locked_plc :: plc where
  "locked_plc = demo_plc\<lparr>inSync := True, phase := 0, phasePrev := 0, variableValue := 200000, variableValuePrev := 0,
     primaryValue := 200000, primaryValuePrev := 0, primaryFrequencyAvg := Fin 1000000, phasePanic := 5000,
     variableFrequencyClock := \<lparr>frequency = Fin 1000000, markerSrc = 0, marker = 0, rolledOver = True\<rparr>\<rparr>"

lemma locked_plc_frequency: "primaryFrequency locked_plc = Fin 1000000"
proof -
  have "double_of_int64 200000 = Fin 200000" using double_of_int64_exact [of 200000] by simp
  moreover have "fl (200000 * 1000000) = Fin 200000000000" "fl 1000000 = Fin 1000000"
    using fl_of_int [of 200000000000] fl_of_int [of 1000000] by simp_all
  ultimately show ?thesis by (simp add: primaryFrequency_def locked_plc_def)
qed

lemma locked_plc_update: "\<exists>w'. updateClock SystemClock locked_plc = Some (True, w')"
  by (simp add: updateClock_def locked_plc_def invalid_eq usecInvalid_def word_sless_alt vfc_setFrequency_def
      vfc_call_def VariableFrequencyClock_setFrequency_def vfc_updateMarkers_rolled Let_def)

theorem plc_frequency_bounded_witness:
  "\<exists>w' f. updateClock SystemClock locked_plc = Some (True, w') \<and> frequency (variableFrequencyClock w') = Fin f
    \<and> 999489 \<le> f \<and> f \<le> 1000511"
proof -
  obtain w' where u: "updateClock SystemClock locked_plc = Some (True, w')" using locked_plc_update ..
  have d: "is_double (Fin 1000000)" using fl_of_int [of 1000000] is_double_fl [of 1000000] by simp
  have "primaryFrequencyAvg locked_plc = Fin 1000000" "sint (phasePanic locked_plc) = 5000"
    by (simp_all add: locked_plc_def)
  with plc_frequency_bounded [OF u _ locked_plc_frequency d d, of 999990 1000010] u show ?thesis by auto
qed

section \<open>NaN and infinity\<close>

lemma filtered_NaN [simp]: "filtered NaN f = NaN" "filtered a NaN = NaN"
  by (simp_all add: filtered_def)

lemma filtered_infinite: "a \<in> {PInf, NInf} \<Longrightarrow> filtered a (Fin f) = NaN"
  using rnd_tenth by (auto simp: filtered_def dsub_def tenth_eq inf_of_def)

text \<open>If the reference clock has not advanced between two measurements, the measured frequency is
  infinite or not a number, and the average is no number after at most one more measurement.\<close>

theorem plc_standstill_poisons_average:
  assumes "variableValue w + phase w = variableValuePrev w + phasePrev w"
  shows "primaryFrequency w \<in> {PInf, NInf, NaN}
    \<and> (\<exists>x \<in> {PInf, NInf, NaN}. filtered (Fin a) (primaryFrequency w) = x \<and> filtered x (Fin f) = NaN)"
proof -
  let ?t = "sint (primaryValue w - primaryValuePrev w)"
  have z: "double_of_int64 0 = Fin 0" using double_of_int64_exact [of 0] by simp
  have "\<bar>rnd (of_int ?t) * 1000000\<bar> \<le> 2 ^ 63 * 2 ^ 63"
    unfolding abs_mult by (intro mult_mono double_of_int64_Fin(2)) simp_all
  also have "\<dots> = (2 :: rat) ^ 126" by simp
  finally have "\<bar>rnd (of_int ?t) * 1000000\<bar> \<le> 2 ^ 126" .
  moreover have "representable (2 ^ 126)" using representable_pow2 [of 126] by simp
  moreover have "(2 :: rat) ^ 126 < 2 ^ 1024" by (rule power_strict_increasing) simp_all
  ultimately obtain x where x: "fl (rnd (of_int ?t) * 1000000) = Fin x" using fl_bounded(1) by blast
  have "primaryFrequency w = ddiv (dmul (double_of_int64 (primaryValue w - primaryValuePrev w)) (Fin 1000000)) (Fin 0)"
    by (simp only: primaryFrequency_def Let_def Usec_conv assms diff_self z)
  also have "\<dots> = ddiv (Fin x) (Fin 0)" by (simp only: double_of_int64_Fin(1) dmul.simps x)
  finally have "primaryFrequency w = ddiv (Fin x) (Fin 0)" .
  then have p: "primaryFrequency w \<in> {PInf, NInf, NaN}" by (simp add: inf_of_def)
  have "filtered (Fin a) (primaryFrequency w) \<in> {PInf, NInf, NaN}"
    using p rnd_tenth(4) by (auto simp: filtered_def dsub_def tenth_eq inf_of_def)
  with p show ?thesis by (auto simp: filtered_infinite)
qed

theorem plc_standstill_poisons_average_witness:
  "filtered (Fin 1000000) (primaryFrequency (locked_plc\<lparr>variableValuePrev := 200000\<rparr>)) \<in> {PInf, NInf, NaN}"
  using plc_standstill_poisons_average [of "locked_plc\<lparr>variableValuePrev := 200000\<rparr>" 1000000 0]
  by (auto simp: locked_plc_def)

text \<open>An average that is no number stays so, through any number of updates, losses of sync and resets:
  resetting the clock to its reference does not reset the average.\<close>

theorem plc_nan_average_is_forever:
  assumes "primaryFrequencyAvg w = NaN"
    and "PhaseLockedClock_run ends SystemClock ClockClient w = Some (u, w')"
  shows "primaryFrequencyAvg w' = NaN"
  using assms
proof (induction ends arbitrary: w)
  case (Cons e ends)
  show ?case
  proof (cases e)
    case False
    with Cons.prems(2) obtain w1 where w1: "update SystemClock ClockClient w = Some ((), w1)"
      "PhaseLockedClock_run ends SystemClock ClockClient w1 = Some (u, w')"
      by (auto simp: Option.bind_eq_Some_conv)
    from program.update_avg [OF w1(1)] Cons.prems(1) have "primaryFrequencyAvg w1 = NaN" by auto
    then show ?thesis using w1(2) by (rule Cons.IH)
  qed (use Cons.prems in simp)
qed simp

theorem plc_nan_average_is_forever_witness:
  "\<exists>w'. PhaseLockedClock_run [False, True] SystemClock ClockClient
      (demo_plc\<lparr>inSync := True, phase := - 6000, phasePanic := 5000, updatePanic := 5000000, primaryFrequencyAvg := NaN\<rparr>)
    = Some ((), w') \<and> primaryFrequencyAvg w' = NaN"
proof -
  let ?w = "demo_plc\<lparr>inSync := True, phase := - 6000, phasePanic := 5000, updatePanic := 5000000, primaryFrequencyAvg := NaN\<rparr>"
  have "\<exists>w'. PhaseLockedClock_run [False, True] SystemClock ClockClient ?w = Some ((), w')"
    by (simp add: update_def check_update_def SystemClock_simps still_SystemClock updateClock_def word_sless_alt)
  then obtain w' where "PhaseLockedClock_run [False, True] SystemClock ClockClient ?w = Some ((), w')" ..
  with plc_nan_average_is_forever [OF _ this] show ?thesis by auto
qed

section \<open>The update threshold\<close>

text \<open>\<open>setUpdatePanic\<close> tests the old threshold and not its argument: it accepts the invalid duration, and
  after that it ignores every other value.  Adding the invalid threshold to the time of the last
  update overflows, so every update that starts in sync then finds itself too late and gives up sync.\<close>

theorem plc_update_panic_stuck:
  assumes "updatePanic w \<noteq> durInvalid" "updatePrev w \<noteq> tpInvalid" "0 < sint (updatePrev w)" "0 \<le> sint (sys_time w)"
  shows "updatePanic (setUpdatePanic durInvalid w) = durInvalid
    \<and> setUpdatePanic d (setUpdatePanic durInvalid w) = setUpdatePanic durInvalid w
    \<and> check_update SystemClock (setUpdatePanic durInvalid w)
        = Some ((), (setUpdatePanic durInvalid w)\<lparr>sys_reads := Suc (sys_reads w), inSync := False\<rparr>)"
proof -
  let ?w = "setUpdatePanic durInvalid w"
  have w: "?w = w\<lparr>updatePanic := durInvalid\<rparr>" using assms(1) by (simp add: setUpdatePanic_def)
  have "updatePrev w + durInvalid = word_of_int (sint (updatePrev w) - 2 ^ 63 - 1)"
    by (simp add: invalid_eq usecInvalid_def)
  moreover have "in_int64 (sint (updatePrev w) - 2 ^ 63 - 1)"
    using assms(3) sint_int64_bounds [of "updatePrev w"] by (simp add: in_int64_def)
  ultimately have "sint (updatePrev w + durInvalid) = sint (updatePrev w) - 2 ^ 63 - 1"
    by (simp only: sint_of_int64)
  then have "updatePrev w + durInvalid <s sys_time w"
    using assms(4) sint_int64_bounds [of "updatePrev w"] by (simp add: word_sless_alt)
  moreover have "sys_time ?w = sys_time w" by (simp add: w sys_time_def)
  ultimately show ?thesis
    using assms(2) by (auto simp: w setUpdatePanic_def check_update_def SystemClock_simps SystemClock_getValue_eq)
qed

theorem plc_update_panic_stuck_witness:
  "updatePanic (setUpdatePanic 5000000 (setUpdatePanic durInvalid (locked_plc\<lparr>updatePanic := 5000000, updatePrev := 7\<rparr>)))
    = durInvalid"
  using plc_update_panic_stuck [of "locked_plc\<lparr>updatePanic := 5000000, updatePrev := 7\<rparr>" 5000000]
  by (simp add: locked_plc_def sys_time_def cdiv_def signed_divide_int_def invalid_eq usecInvalid_def)

section \<open>The doubles of the clock\<close>

text \<open>What holds of the average and of the variable clock's frequency.\<close>

definition loop_doubles :: "double \<Rightarrow> double \<Rightarrow> bool" where
  "loop_doubles a f \<longleftrightarrow> is_double a \<and> is_double f \<and> \<not> dle f (Fin 0)"

abbreviation plc_doubles_ok :: "'a plc_scheme \<Rightarrow> bool" where
  "plc_doubles_ok w \<equiv> loop_doubles (primaryFrequencyAvg w) (frequency (variableFrequencyClock w))"

lemma doubles_control: "control w' = control w \<Longrightarrow> plc_doubles_ok w' = plc_doubles_ok w"
  by (simp add: control_def)

context plc_clocks
begin

lemma doubles_updatePhase:
  assumes "updatePhase primary reference w = Some (ok, w')"
  shows "plc_doubles_ok w' = plc_doubles_ok w"
  using assms by (cases rule: updatePhase_Some) (auto simp: control_def)

lemma doubles_finish:
  assumes "finish_update primary reference w = Some (u, w')"
  shows "plc_doubles_ok w' = plc_doubles_ok w"
  using assms
proof (cases rule: finish_update_Some)
  case (lost ok)
  then show ?thesis using doubles_updatePhase by blast
next
  case (kept w1 t w2)
  with doubles_updatePhase [OF kept(1)] doubles_control [OF primary_control [OF kept(2)]] show ?thesis by simp
qed

lemma doubles_check:
  "check_update primary w = Some (u, w') \<Longrightarrow> plc_doubles_ok w' = plc_doubles_ok w"
  by (erule check_update_Some) (simp add: control_def)

lemma doubles_updateClock:
  assumes "updateClock primary w = Some (ok, w')" "plc_doubles_ok w"
  shows "plc_doubles_ok w'"
  using assms(1)
proof (cases rule: updateClock_Some)
  case (adjusted f)
  have "is_double f" by (simp add: adjusted(6) variableClockFrequency_def is_double_dadd Let_def)
  moreover have "is_double (primaryFrequencyAvg w')" by (simp add: adjusted(5) filtered_def is_double_dadd)
  ultimately show ?thesis using assms(2) by (simp add: loop_doubles_def adjusted(7))
qed (use assms(2) in simp)

lemma doubles_setClock:
  assumes "setClock primary reference w = Some (u, w')"
  shows "plc_doubles_ok w' = plc_doubles_ok w"
  using assms
proof (rule setClock_Some)
  fix wa t wb r w1
  assume a: "getValue reference wa = Some (t, wb)" "control wa = control (w\<lparr>inSync := True\<rparr>)"
    "control w1 = control (w\<lparr>inSync := True\<rparr>)"
    "w' = w1\<lparr>variableFrequencyClock := (variableFrequencyClock wb)\<lparr>marker := t, markerSrc := r, rolledOver := False\<rparr>\<rparr>"
  have "control wb = control (w\<lparr>inSync := True\<rparr>)" using reference_control [OF a(1)] a(2) by simp
  with a(3,4) show ?thesis by (simp add: control_def)
qed

lemma doubles_update:
  assumes "update primary reference w = Some (u, w')" "plc_doubles_ok w"
  shows "plc_doubles_ok w'"
  using assms(1)
  by (cases rule: update_Some)
    (use assms(2) doubles_check doubles_updateClock doubles_setClock doubles_finish in blast)+

end



end
