(* ===== verification/LoopStep.thy ===== *)
theory LoopStep
  imports ControlLaw
begin

text \<open>
  One turn of the control loop of \<open>PhaseLockedClock\<close> on the system's clock, reading by reading: which readings of
  the primary clock \<open>update\<close> takes, and how the variable clock's marker, its frequency and the value that is stored
  follow from them.  In sync, \<open>update\<close> first adjusts the frequency by the phase of the update before, and then measures the phase.

  The lemmas derive this from \<open>update\<close>; \<open>Convergence\<close> builds on it.
\<close>

section \<open>Readings of the primary clock\<close>

text \<open>The \<open>i\<close>-th reading of the system's clock.\<close>

definition reading :: "'a os_scheme \<Rightarrow> nat \<Rightarrow> tp" where
  "reading w i = cdiv (sys_now w i) 1000"

lemma sys_time_reading: "sys_time w = reading w (sys_reads w)"
  by (simp add: sys_time_def reading_def)

lemma reading_update [simp]: "reading (w\<lparr>sys_reads := n\<rparr>) i = reading w i"
  by (simp add: reading_def)

text \<open>After an update that measured the phase, the reading that gave \<open>variableValue\<close> is the third last: \<open>primaryValue\<close> and
  \<open>updatePrev\<close> follow it.\<close>

definition shown_at :: "'a os_scheme \<Rightarrow> tp" where
  "shown_at w = reading w (sys_reads w - 3)"

section \<open>The variable clock's operations\<close>

lemma vfc_getValue_sys:
  assumes "vfc_getValue SystemClock w = Some (t, w')" "t \<noteq> tpInvalid"
  shows "t = vfc_value (variableFrequencyClock w) (sys_time w)"
    "w' = w\<lparr>sys_reads := Suc (sys_reads w), variableFrequencyClock := vfc_roll (variableFrequencyClock w) (sys_time w)\<rparr>"
proof -
  have "\<not> rolledOver (variableFrequencyClock w)"
    using assms by (auto simp: vfc_getValue_def vfc_call_def SystemClock_simps call_simps)
  then show "t = vfc_value (variableFrequencyClock w) (sys_time w)"
    "w' = w\<lparr>sys_reads := Suc (sys_reads w), variableFrequencyClock := vfc_roll (variableFrequencyClock w) (sys_time w)\<rparr>"
    using assms(1) by (simp_all add: vfc_getValue_def vfc_call_def SystemClock_simps
        vfc_getValue_read [OF _ SystemClock_getValue_eq])
qed

lemma vfc_setFrequency_sys:
  assumes "\<not> rolledOver (variableFrequencyClock w)" "vfc_setFrequency SystemClock f w = Some (u, w')"
    and "\<not> dle f (Fin 0)" "v = variableFrequencyClock w" "R = sys_reads w"
  shows "w' = w\<lparr>sys_reads := R + 4, variableFrequencyClock :=
    \<lparr>frequency = f, markerSrc = reading w (R + 3),
     marker = vfc_value \<lparr>frequency = f, markerSrc = reading w (R + 1), marker = vfc_value v (reading w R), rolledOver = False\<rparr>
       (reading w (R + 2)), rolledOver = False\<rparr>\<rparr>"
proof -
  let ?u = "\<lambda>v. v\<lparr>frequency := f, marker := vfc_value (v\<lparr>marker := vfc_value v (reading w R), markerSrc := reading w (R + 1),
      rolledOver := False, frequency := f\<rparr>) (reading w (R + 2)), markerSrc := reading w (R + 3), rolledOver := False\<rparr>"
  have "w' = w\<lparr>sys_reads := R + 4, variableFrequencyClock := ?u v\<rparr>"
    using assms
    by (simp add: vfc_setFrequency_def vfc_call_def SystemClock_simps VariableFrequencyClock_setFrequency_def
        vfc_updateMarkers_read [OF _ SystemClock_getValue_eq SystemClock_getValue_eq] sys_time_reading numeral_eq_Suc)
  moreover have "?u v = \<lparr>frequency = f, markerSrc = reading w (R + 3),
     marker = vfc_value \<lparr>frequency = f, markerSrc = reading w (R + 1), marker = vfc_value v (reading w R), rolledOver = False\<rparr>
       (reading w (R + 2)), rolledOver = False\<rparr>" by (cases v) simp
  ultimately show ?thesis by (simp only:)
qed

lemma vfc_value_ticks:
  assumes "vfc_value v r \<noteq> tpInvalid"
  shows "\<not> rolledOver v" "marker v \<noteq> tpInvalid" "vfc_value v r = marker v + scaled_ticks (frequency v) (r - markerSrc v)"
proof -
  show "\<not> rolledOver v" "marker v \<noteq> tpInvalid" using assms by (auto simp: vfc_value_def)
  have "diff r (markerSrc v) \<noteq> durInvalid" using assms by (auto simp: vfc_value_def)
  then have "diff r (markerSrc v) = r - markerSrc v" by (auto simp: diff_def split: if_splits)
  with assms show "vfc_value v r = marker v + scaled_ticks (frequency v) (r - markerSrc v)"
    by (auto simp: vfc_value_def)
qed

section \<open>An update that measures the phase\<close>

text \<open>An adjustment takes place when the clock is in sync and the update before is not too long ago.\<close>

definition on_time :: "'a plc_scheme \<Rightarrow> bool" where
  "on_time w \<longleftrightarrow> inSync w \<and> updatePrev w \<noteq> tpInvalid \<and> \<not> updatePrev w + updatePanic w <s sys_time w"

context plc_clocks
begin

lemma finish_update_reads:
  assumes "primary = SystemClock" "finish_update primary reference w = Some (u, w')" "inSync w'"
  obtains w1 :: "'a plc_scheme" where "control w1 = control w" "sys_reads w' = sys_reads w1 + 3" "sys_now w' = sys_now w1"
    "variableValue w' = vfc_value (variableFrequencyClock w1) (sys_time w1)" "variableValue w' \<noteq> tpInvalid"
    "variableFrequencyClock w' = vfc_roll (variableFrequencyClock w1) (sys_time w1)"
    "phasePrev w' = phase w" "primaryFrequencyAvg w' = primaryFrequencyAvg w"
proof -
  from assms(2) obtain wp t wq where p: "updatePhase primary reference w = Some (True, wp)"
    "getValue primary wp = Some (t, wq)" "w' = wq\<lparr>updatePrev := t\<rparr>"
    by (cases rule: finish_update_Some) (use assms(3) updatePhase_in_sync in blast, blast)
  from p(1) have s: "inSync w" by (auto simp: updatePhase_def split: if_splits)
  with p(1) obtain ph w1 where a: "getPhase reference (vfc_getValue primary) w = Some (ph, w1)"
    by (auto simp: updatePhase_def Option.bind_eq_Some_conv)
  with p(1) s obtain vv w2 where b: "vfc_getValue primary w1 = Some (vv, w2)"
    by (auto simp: updatePhase_def Option.bind_eq_Some_conv)
  from p(1) s a b assms(1) have v: "vv \<noteq> tpInvalid"
    by (auto simp: updatePhase_def SystemClock_simps SystemClock_getValue_eq Let_def split: if_splits)
  note b' = vfc_getValue_sys [OF b [unfolded assms(1)] v]
  have k: "control w1 = control w" by (rule phase_read_control [OF a])
  from p(1) s a b v assms(1) have wp: "wp = w2\<lparr>sys_reads := Suc (sys_reads w2), phasePrev := phase w2,
      variableValuePrev := variableValue w2, primaryValuePrev := primaryValue w2, phase := ph, variableValue := vv,
      primaryValue := sys_time w2\<rparr>"
    by (auto simp: updatePhase_def SystemClock_simps SystemClock_getValue_eq Let_def split: if_splits)
  have wq: "wq = wp\<lparr>sys_reads := Suc (sys_reads wp)\<rparr>"
    using p(2) assms(1) by (simp add: SystemClock_simps SystemClock_getValue_eq)
  show thesis
    by (rule that [of w1]) (simp_all add: p(3) wq wp b' v [unfolded b'] k control_eqD [OF k])
qed

lemma update_on_time:
  assumes "primary = SystemClock" "update primary reference w = Some (u, w')" "inSync w'" "on_time w"
  obtains w2 :: "'a plc_scheme" where "updateClock primary (w\<lparr>sys_reads := Suc (sys_reads w)\<rparr>) = Some (True, w2)"
    "finish_update primary reference w2 = Some (u, w')"
proof -
  have c: "check_update primary w = Some ((), w\<lparr>sys_reads := Suc (sys_reads w)\<rparr>)"
    using assms(1,4) by (auto simp: on_time_def check_update_def SystemClock_simps SystemClock_getValue_eq)
  have "inSync w" using assms(4) by (simp add: on_time_def)
  with assms(2) c obtain ok w2 where u: "updateClock primary (w\<lparr>sys_reads := Suc (sys_reads w)\<rparr>) = Some (ok, w2)"
    "if ok then finish_update primary reference w2 = Some (u, w') else w' = w2"
    by (fastforce simp: update_def Option.bind_eq_Some_conv split: if_splits)
  from u assms(3) have ok by (auto simp: updateClock_def Let_def Option.bind_eq_Some_conv split: if_splits)
  with u that show thesis by simp
qed

lemma update_filters:
  assumes "primary = SystemClock" "update primary reference w = Some (u, w')" "inSync w'" "on_time w"
  shows "primaryFrequencyAvg w' = filtered (primaryFrequencyAvg w) (primaryFrequency w)"
  using assms
proof (rule update_on_time)
  fix w2 :: "'a plc_scheme"
  assume u: "updateClock primary (w\<lparr>sys_reads := Suc (sys_reads w)\<rparr>) = Some (True, w2)"
    "finish_update primary reference w2 = Some (u, w')"
  have "primaryFrequency (w\<lparr>sys_reads := Suc (sys_reads w)\<rparr>) = primaryFrequency w" by (simp add: primaryFrequency_def)
  with u(1) have "primaryFrequencyAvg w2 = filtered (primaryFrequencyAvg w) (primaryFrequency w)"
    by (cases rule: updateClock_Some) simp_all
  with finish_avg [OF u(2)] show ?thesis by simp
qed

lemma update_adjusts:
  assumes "primary = SystemClock" "update primary reference w = Some (u, w')" "inSync w'" "on_time w"
    and "\<not> rolledOver (variableFrequencyClock w)" "v = variableFrequencyClock w" "v' = variableFrequencyClock w'"
    and "f' = variableClockFrequency (filtered (primaryFrequencyAvg w) (primaryFrequency w)) (phase w)"
    and "\<not> dle f' (Fin 0)" "R = sys_reads w + 1"
  shows "\<not> rolledOver v'" "frequency v' = f'" "markerSrc v' = reading w (R + 3)"
    "primaryFrequencyAvg w' = filtered (primaryFrequencyAvg w) (primaryFrequency w)" "phasePrev w' = phase w"
    "marker v' = (marker v + scaled_ticks (frequency v) (reading w R - markerSrc v))
       + scaled_ticks f' (reading w (R + 2) - reading w (R + 1))"
    "variableValue w' = marker v' + scaled_ticks f' (shown_at w' - reading w (R + 3))" "variableValue w' \<noteq> tpInvalid"
proof -
  let ?a = "filtered (primaryFrequencyAvg w) (primaryFrequency w)"
  let ?w = "w\<lparr>sys_reads := Suc (sys_reads w), primaryFrequencyAvg := ?a\<rparr>"
  obtain w2 :: "'a plc_scheme" where u: "updateClock primary (w\<lparr>sys_reads := Suc (sys_reads w)\<rparr>) = Some (True, w2)"
    "finish_update primary reference w2 = Some (u, w')" by (rule update_on_time [OF assms(1-4)])
  have pf: "primaryFrequency (w\<lparr>sys_reads := Suc (sys_reads w)\<rparr>) = primaryFrequency w" by (simp add: primaryFrequency_def)
  from u(1) assms(1,8) pf have s: "vfc_setFrequency SystemClock f' ?w = Some ((), w2)"
    by (auto simp: updateClock_def Let_def Option.bind_eq_Some_conv split: if_splits)
  have "\<not> rolledOver (variableFrequencyClock ?w)" using assms(5) by simp
  note w2 = vfc_setFrequency_sys [OF this s assms(9) refl refl]
  obtain w1 :: "'a plc_scheme" where w1: "control w1 = control w2" "sys_reads w' = sys_reads w1 + 3" "sys_now w' = sys_now w1"
    "variableValue w' = vfc_value (variableFrequencyClock w1) (sys_time w1)" "variableValue w' \<noteq> tpInvalid"
    "variableFrequencyClock w' = vfc_roll (variableFrequencyClock w1) (sys_time w1)"
    "phasePrev w' = phase w2" "primaryFrequencyAvg w' = primaryFrequencyAvg w2"
    by (rule finish_update_reads [OF assms(1) u(2) assms(3)])
  note k = control_eqD [OF w1(1)]
  have sh: "shown_at w' = sys_time w1" using w1(2,3) by (simp add: shown_at_def sys_time_def reading_def)
  note val = vfc_value_ticks [of "variableFrequencyClock w1" "sys_time w1"]
  note val' = val [unfolded w1(4) [symmetric], OF w1(5)]
  show "variableValue w' \<noteq> tpInvalid" "primaryFrequencyAvg w' = ?a" "phasePrev w' = phase w"
    using w1 w2 by simp_all
  show "\<not> rolledOver v'"
    using w1(4,5,6) assms(7) by (auto simp: vfc_roll_def vfc_value_def)
  show "frequency v' = f'" and ms: "markerSrc v' = reading w (R + 3)"
    using w1(6) k w2 assms(7,10) by (simp_all add: vfc_roll_def reading_def)
  have m: "marker v' = vfc_value \<lparr>frequency = f', markerSrc = reading w (R + 1), marker = vfc_value v (reading w R),
      rolledOver = False\<rparr> (reading w (R + 2))"
    using w1(6) k w2 assms(6,7,10) by (simp add: vfc_roll_def reading_def)
  have mv: "marker v' = marker (variableFrequencyClock w1)" using w1(6) assms(7) by (simp add: vfc_roll_def)
  then have "marker v' \<noteq> tpInvalid" using val'(2) by simp
  note n1 = vfc_value_ticks [OF this [unfolded m]]
  then have "vfc_value v (reading w R) \<noteq> tpInvalid" by simp
  note n2 = vfc_value_ticks(3) [OF this]
  show "marker v' = (marker v + scaled_ticks (frequency v) (reading w R - markerSrc v))
       + scaled_ticks f' (reading w (R + 2) - reading w (R + 1))"
    unfolding m n1(3) by (simp add: n2)
  show "variableValue w' = marker v' + scaled_ticks f' (shown_at w' - reading w (R + 3))"
    using val'(3) k w2 assms(10) by (simp add: mv sh reading_def)
qed

end

text \<open>The state after such an update: the value that is stored is the variable clock's at its reading, and the frequency is the one
  for the average and the phase of the update before.\<close>

definition steered :: "'a plc_scheme \<Rightarrow> bool" where
  "steered w \<longleftrightarrow> (let v = variableFrequencyClock w in \<not> rolledOver v \<and> variableValue w \<noteq> tpInvalid
     \<and> variableValue w = marker v + scaled_ticks (frequency v) (shown_at w - markerSrc v)
     \<and> frequency v = variableClockFrequency (primaryFrequencyAvg w) (phasePrev w))"

text \<open>The time since the epoch, in microseconds, of the \<open>j\<close>-th reading of the next update: 0 is the check, 1 to 4 are those of
  \<open>setFrequency\<close>.\<close>

definition read_at :: "'a os_scheme \<Rightarrow> nat \<Rightarrow> int" where
  "read_at w j = sint (reading w (sys_reads w + j))"

text \<open>The readings of two updates come in the order of the program, within ten seconds.\<close>

definition in_order :: "'a plc_scheme \<Rightarrow> 'a plc_scheme \<Rightarrow> bool" where
  "in_order w w' \<longleftrightarrow>
    (let s = sint (markerSrc (variableFrequencyClock w)); t = sint (shown_at w') in
     s \<le> sint (shown_at w) \<and> sint (shown_at w) \<le> read_at w 1 \<and> read_at w 1 \<le> read_at w 2
     \<and> read_at w 2 \<le> read_at w 3 \<and> read_at w 3 \<le> read_at w 4 \<and> read_at w 4 \<le> t \<and> t - s \<le> 10000000)"

text \<open>One turn of the loop.\<close>

definition turn :: "'a plc_scheme Clock \<Rightarrow> 'a plc_scheme \<Rightarrow> 'a plc_scheme \<Rightarrow> bool" where
  "turn reference w w' \<longleftrightarrow>
    on_time w \<and> update SystemClock reference w = Some ((), w') \<and> inSync w' \<and> in_order w w'"

text \<open>Differences of readings.\<close>

lemma sint_diff_readings:
  fixes s t :: int64
  assumes "sint s \<le> sint t" "sint t - sint s \<le> 10000000"
  shows "sint (t - s) = sint t - sint s"
  using assms by (intro sint_diff_int64) (simp add: in_int64_def)

lemma update_steers:
  assumes "plc_clocks SystemClock reference" "steered w" "on_time w"
    and "update SystemClock reference w = Some ((), w')" "inSync w'"
    and "f' = variableClockFrequency (filtered (primaryFrequencyAvg w) (primaryFrequency w)) (phase w)" "\<not> dle f' (Fin 0)"
    and "f = frequency (variableFrequencyClock w)" "s = markerSrc (variableFrequencyClock w)" "R = sys_reads w"
  shows "steered w' \<and> phasePrev w' = phase w \<and> frequency (variableFrequencyClock w') = f'
    \<and> primaryFrequencyAvg w' = filtered (primaryFrequencyAvg w) (primaryFrequency w)
    \<and> variableValue w' = variableValue w
        - scaled_ticks f (shown_at w - s) + scaled_ticks f (reading w (R + 1) - s)
        + scaled_ticks f' (reading w (R + 3) - reading w (R + 2)) + scaled_ticks f' (shown_at w' - reading w (R + 4))"
proof -
  have r: "\<not> rolledOver (variableFrequencyClock w)" using assms(2) by (simp add: steered_def Let_def)
  have R: "R + 1 = sys_reads w + 1" using assms(10) by simp
  note a = plc_clocks.update_adjusts [OF assms(1) refl assms(4,5,3) r refl refl assms(6,7) R]
  have v: "variableValue w = marker (variableFrequencyClock w) + scaled_ticks f (shown_at w - s)"
    using assms(2,8,9) by (simp add: steered_def Let_def)
  have n: "R + 1 + 1 = R + 2" "R + 1 + 2 = R + 3" "R + 1 + 3 = R + 4" by simp_all
  note a = a [unfolded n]
  have "steered w'" using a assms(6) by (simp add: steered_def Let_def)
  moreover have "variableValue w' = variableValue w
        - scaled_ticks f (shown_at w - s) + scaled_ticks f (reading w (R + 1) - s)
        + scaled_ticks f' (reading w (R + 3) - reading w (R + 2)) + scaled_ticks f' (shown_at w' - reading w (R + 4))"
    unfolding v a(7) a(6) assms(8,9) by simp
  ultimately show ?thesis using a(2,4,5) by simp
qed

text \<open>C25: An update in sync and on time steers the variable clock: it sets the frequency that compensates the average and
  takes back the phase that the update \<^emph>\<open>before\<close> measured, whatever this one measures; the clock goes on from the value that it
  had, first at the old frequency and then at the new one, except between the two readings of each \<open>updateMarkers\<close>; and the value
  that is stored with the new phase is the clock's own.\<close>

theorem plc_update_steers:
  assumes "plc_clocks SystemClock reference" "steered w" "on_time w"
    and "update SystemClock reference w = Some ((), w')" "inSync w'"
    and "f' = variableClockFrequency (filtered (primaryFrequencyAvg w) (primaryFrequency w)) (phase w)" "\<not> dle f' (Fin 0)"
    and "f = frequency (variableFrequencyClock w)" "s = markerSrc (variableFrequencyClock w)" "R = sys_reads w"
  shows "steered w' \<and> phasePrev w' = phase w \<and> frequency (variableFrequencyClock w') = f'
    \<and> primaryFrequencyAvg w' = filtered (primaryFrequencyAvg w) (primaryFrequency w)
    \<and> variableValue w' = variableValue w
        - scaled_ticks f (shown_at w - s) + scaled_ticks f (reading w (R + 1) - s)
        + scaled_ticks f' (reading w (R + 3) - reading w (R + 2)) + scaled_ticks f' (shown_at w' - reading w (R + 4))"
  by (rule update_steers [OF assms])

section \<open>A clock that follows the clock it runs on\<close>

text \<open>The system's clock can be its own reference, as in the program's unit tests.\<close>

interpretation self: plc_clocks SystemClock "SystemClock :: 'a plc_scheme Clock"
  by unfold_locales
    (auto simp: SystemClock_simps Clock_getPhase_def Option.bind_eq_Some_conv dest: control_vfc.SystemClock_view)

text \<open>A state in sync: ten readings of the system's clock in every 200 ms, which all show the same time.\<close>

definition ticking :: "nat \<Rightarrow> int64" where
  "ticking i = of_nat (i div 10) * 200000000"

definition steady :: plc where
  "steady = demo_plc\<lparr>sys_now := ticking, sys_reads := 10, inSync := True, updatePrev := 0, updatePanic := 5000000,
     variableFrequencyClock := \<lparr>frequency = Fin 1000000, markerSrc = 0, marker = 0, rolledOver = False\<rparr>,
     variableValue := 0, variableValuePrev := - 200000, primaryValue := 0, primaryValuePrev := - 200000,
     phase := 0, phasePrev := 0, phasePanic := 5000, primaryFrequencyAvg := Fin 1000000\<rparr>"

lemma ticking_reading:
  "sys_now w = ticking \<Longrightarrow> i div 10 = 1 \<Longrightarrow> reading w i = 200000"
  "sys_now w = ticking \<Longrightarrow> i div 10 = 0 \<Longrightarrow> reading w i = 0"
  by (simp_all add: reading_def ticking_def cdiv_def signed_divide_int_def)

lemma nominal_loop:
  "primaryFrequency steady = Fin 1000000" "filtered (Fin 1000000) (Fin 1000000) = Fin 1000000"
  "variableClockFrequency (Fin 1000000) 0 = Fin 1000000"
proof -
  have fl: "fl 200000000000 = Fin 200000000000" "fl 1000000 = Fin 1000000" "fl 0 = Fin 0"
    using fl_of_int [of 200000000000] fl_of_int [of 1000000] fl_of_int [of 0] by simp_all
  have d: "double_of_int64 200000 = Fin 200000" "double_of_int64 0 = Fin 0"
    using double_of_int64_exact [of 200000] double_of_int64_exact [of 0] by simp_all
  show "primaryFrequency steady = Fin 1000000" by (simp add: primaryFrequency_def steady_def d fl Let_def)
  show "filtered (Fin 1000000) (Fin 1000000) = Fin 1000000" by (simp add: filtered_def tenth_eq fl)
  show "variableClockFrequency (Fin 1000000) 0 = Fin 1000000"
    by (simp add: variableClockFrequency_def Let_def d tenth_eq fl)
qed

lemma ticking_SystemClock:
  "sys_now w = ticking \<Longrightarrow> sys_reads w div 10 = 1 \<Longrightarrow>
    SystemClock_getValue w = Some (200000, w\<lparr>sys_reads := Suc (sys_reads w)\<rparr>)"
  by (simp add: SystemClock_getValue_eq sys_time_reading ticking_reading)

abbreviation following :: "int64 \<Rightarrow> vfc" where
  "following t \<equiv> \<lparr>frequency = Fin 1000000, markerSrc = t, marker = t, rolledOver = False\<rparr>"

lemma following_value:
  "vfc_value (following 0) 200000 = 200000" "vfc_value (following 200000) 200000 = 200000"
  "vfc_roll (following 200000) 200000 = following 200000"
  using scaled_ticks_nominal [of 200000] scaled_ticks_nominal [of 0]
  by (simp_all add: vfc_value_def vfc_roll_def diff_def invalid_eq usecInvalid_def word_sless_alt)

lemma following_getValue:
  "sys_now w = ticking \<Longrightarrow> sys_reads w div 10 = 1 \<Longrightarrow> variableFrequencyClock w = following 200000 \<Longrightarrow>
    vfc_getValue SystemClock w = Some (200000, w\<lparr>sys_reads := Suc (sys_reads w)\<rparr>)"
  by (simp add: vfc_getValue_def vfc_call_def SystemClock_simps vfc_getValue_read ticking_SystemClock following_value)

lemma steady_simps [simp]:
  "sys_now steady = ticking" "sys_reads steady = 10" "inSync steady" "updatePrev steady = 0" "updatePanic steady = 5000000"
  "variableFrequencyClock steady = following 0" "variableValue steady = 0" "phase steady = 0" "phasePrev steady = 0"
  "phasePanic steady = 5000" "primaryFrequencyAvg steady = Fin 1000000"
  by (simp_all add: steady_def)

definition steady_next :: plc where
  "steady_next = steady\<lparr>sys_reads := 20, updatePrev := 200000, variableFrequencyClock := following 200000,
     variableValue := 200000, variableValuePrev := 0, primaryValue := 200000, primaryValuePrev := primaryValue steady\<rparr>"

lemma steady_update: "update SystemClock SystemClock steady = Some ((), steady_next)"
proof -
  let ?w1 = "steady\<lparr>sys_reads := 11\<rparr>" and ?w2 = "steady\<lparr>sys_reads := 15, variableFrequencyClock := following 200000\<rparr>"
  note sys = SystemClock_simps ticking_SystemClock
  have c: "check_update SystemClock steady = Some ((), ?w1)"
    by (simp add: check_update_def sys invalid_eq usecInvalid_def word_sless_alt)
  have p: "primaryFrequency ?w1 = Fin 1000000"
    using nominal_loop(1) by (simp add: primaryFrequency_def)
  have s: "vfc_setFrequency SystemClock (Fin 1000000) ?w1 = Some ((), ?w2)"
    by (simp add: vfc_setFrequency_def vfc_call_def VariableFrequencyClock_setFrequency_def sys
        vfc_updateMarkers_read [OF _ ticking_SystemClock ticking_SystemClock] following_value)
  have e: "?w1\<lparr>primaryFrequencyAvg := Fin 1000000\<rparr> = ?w1" by (simp add: steady_def)
  have u: "updateClock SystemClock ?w1 = Some (True, ?w2)"
    using s by (simp add: updateClock_def e p nominal_loop invalid_eq usecInvalid_def word_sless_alt Let_def)
  have "finish_update SystemClock SystemClock ?w2 = Some ((), steady_next)"
    by (simp add: finish_update_def updatePhase_def Clock_getPhase_def sys following_getValue steady_next_def
        diff_def invalid_eq usecInvalid_def Let_def)
  with c u show ?thesis by (simp add: update_def)
qed

lemma steady_on_time: "on_time steady"
  by (simp add: on_time_def sys_time_reading ticking_reading invalid_eq usecInvalid_def word_sless_alt)

lemma steady_steered: "steered steady"
proof -
  have "shown_at steady = 0" by (simp add: shown_at_def ticking_reading)
  then show ?thesis
    using scaled_ticks_nominal [of 0] by (simp add: steered_def nominal_loop invalid_eq usecInvalid_def Let_def)
qed

theorem plc_update_steers_witness:
  "steered steady_next \<and> frequency (variableFrequencyClock steady_next) = Fin 1000000"
proof -
  have "inSync steady_next" by (simp add: steady_next_def)
  moreover have "Fin 1000000 = variableClockFrequency (filtered (primaryFrequencyAvg steady) (primaryFrequency steady)) (phase steady)"
    by (simp add: nominal_loop)
  moreover have "\<not> dle (Fin 1000000) (Fin 0)" by simp
  ultimately show ?thesis
    using plc_update_steers [OF self.plc_clocks_axioms steady_steered steady_on_time steady_update _ _ _ refl refl refl] by blast
qed

end
