(* ===== verification/Convergence.thy ===== *)
theory Convergence
  imports LoopStep
begin

text \<open>
  What the control loop is for: update by update, the phase between the variable clock and the
  reference shrinks.  The average frequency of the primary clock is compensated to first order, and a tenth of the phase
  is taken back per second, with the delay of one update that the code has.  All rounding of the double arithmetic, the
  truncation to whole microseconds, and the time that passes between the readings of one update are accounted for.

  The lemmas bound the errors of the operations, then one update, then any number of updates.
\<close>

section \<open>Rounding errors\<close>

lemma rnd_error:
  assumes "\<bar>x\<bar> < 2 ^ k"
  shows "\<bar>rnd x - x\<bar> \<le> 2 ^ k / 2 ^ 54"
proof (cases "x = 0")
  case False
  let ?e = "max (expo \<bar>x\<bar>) (- 1022)"
  have "2 powi expo \<bar>x\<bar> \<le> \<bar>x\<bar>" using expo_bounds(1) False by simp
  also have "\<dots> < 2 ^ k" by (rule assms)
  also have "\<dots> = 2 powi int k" by simp
  finally have "2 powi expo \<bar>x\<bar> < (2 :: rat) powi int k" .
  then have "expo \<bar>x\<bar> < int k" unfolding pow2_less_iff .
  then have "?e - 52 \<le> int k - 53" by simp
  then have u: "ulp x \<le> 2 powi (int k - 53)" unfolding ulp_def pow2_le_iff .
  have "x = x / ulp x * ulp x" by simp
  then have "rnd x - x = (of_int (round_half_even (x / ulp x)) - x / ulp x) * ulp x"
    using False by (simp add: rnd_def left_diff_distrib)
  then have "\<bar>rnd x - x\<bar> = \<bar>of_int (round_half_even (x / ulp x)) - x / ulp x\<bar> * ulp x"
    by (simp add: abs_mult)
  also have "\<dots> \<le> 1 / 2 * 2 powi (int k - 53)"
    using round_half_even_error u by (intro mult_mono) simp_all
  also have "(2 :: rat) powi (int k - 53) = 2 ^ k / 2 ^ 53" using pow2_nat [of "int k - 53" 53] by simp
  finally show ?thesis by simp
qed simp

lemma fl_error:
  assumes "\<bar>x\<bar> < 2 ^ k" "k \<le> 1000"
  shows "fl x = Fin (rnd x)" "rnd x - x \<le> 2 ^ k / 2 ^ 54" "x - rnd x \<le> 2 ^ k / 2 ^ 54"
proof -
  have "representable (2 ^ k)" using representable_pow2 [of "int k"] by simp
  moreover have "(2 :: rat) ^ k < 2 ^ 1024" using assms(2) by (intro power_strict_increasing) simp_all
  ultimately show "fl x = Fin (rnd x)" using fl_bounded(1) assms(1) by simp
  show "rnd x - x \<le> 2 ^ k / 2 ^ 54" "x - rnd x \<le> 2 ^ k / 2 ^ 54"
    using rnd_error [OF assms(1)] unfolding abs_le_iff by linarith+
qed

lemma trunc_error: "\<bar>of_int (trunc x) - x\<bar> < 1"
  using floor_correct [of x] ceiling_correct [of x] by (simp add: trunc_def abs_less_iff) linarith

lemma rnd_tenth_error: "\<bar>rnd (1 / 10) - 1 / 10\<bar> \<le> 1 / 2 ^ 54"
  using rnd_error [of "1 / 10" 0] by simp

section \<open>One step\<close>

text \<open>The frequency that \<open>updateClock\<close> sets, and how far it is from the exact one.\<close>

lemma variableClockFrequency_error:
  assumes "\<bar>a - 1000000\<bar> \<le> 1000" "\<bar>sint ph\<bar> \<le> 5000"
  shows "\<exists>f. variableClockFrequency (Fin a) ph = Fin f \<and> \<bar>f - (2000000 - a + of_int (sint ph) / 10)\<bar> \<le> 1 / 2 ^ 32"
proof -
  let ?c = "rnd (1 / 10)" and ?p = "of_int (sint ph) :: rat"
  have p: "\<bar>?p\<bar> \<le> 5000" using assms(2) by (metis of_int_abs of_int_le_iff of_int_numeral)
  have dp: "double_of_int64 ph = Fin ?p" using assms(2) by (intro double_of_int64_exact) simp
  have c: "\<bar>?p * ?c - ?p / 10\<bar> \<le> 5000 / 2 ^ 54"
  proof -
    have "?p * ?c - ?p / 10 = ?p * (?c - 1 / 10)" by (simp add: algebra_simps)
    then have "\<bar>?p * ?c - ?p / 10\<bar> = \<bar>?p\<bar> * \<bar>?c - 1 / 10\<bar>" by (simp add: abs_mult)
    also have "\<dots> \<le> 5000 * (1 / 2 ^ 54)" by (intro mult_mono p rnd_tenth_error) simp_all
    finally show ?thesis by simp
  qed
  have p': "?p \<le> 5000" "- ?p \<le> 5000" and c': "?p * ?c - ?p / 10 \<le> 5000 / 2 ^ 54" "?p / 10 - ?p * ?c \<le> 5000 / 2 ^ 54"
    using p c unfolding abs_le_iff by linarith+
  let ?d = "rnd (1000000 - a)" and ?s = "rnd (1000000 + rnd (1000000 - a))" and ?q = "rnd (?p * ?c)"
  note d = fl_error [of "1000000 - a" 10] and s = fl_error [of "1000000 + ?d" 20] and q = fl_error [of "?p * ?c" 10]
    and f = fl_error [of "?s + ?q" 21]
  have 1: "\<bar>1000000 - a\<bar> < 2 ^ 10" using assms(1) by (simp add: abs_le_iff abs_less_iff)
  note d = d [OF 1]
  have 2: "\<bar>1000000 + ?d\<bar> < 2 ^ 20" using assms(1) d by (simp add: abs_le_iff abs_less_iff)
  note s = s [OF 2]
  have 3: "\<bar>?p * ?c\<bar> < 2 ^ 10" using p' c' by (simp add: abs_less_iff)
  note q = q [OF 3]
  have 4: "\<bar>?s + ?q\<bar> < 2 ^ 21" using assms(1) p' c' d s q by (simp add: abs_le_iff abs_less_iff)
  note f = f [OF 4]
  have "variableClockFrequency (Fin a) ph = Fin (rnd (?s + ?q))"
    by (simp only: variableClockFrequency_def Let_def dp tenth_eq dsub_Fin dmul.simps dadd.simps Usec_conv
        d(1) s(1) q(1) f(1))
  moreover have "\<bar>rnd (?s + ?q) - (2000000 - a + ?p / 10)\<bar> \<le> 1 / 2 ^ 32"
    using c' d(2,3) s(2,3) q(2,3) f(2,3) unfolding abs_le_iff by simp
  ultimately show ?thesis by blast
qed

text \<open>The ticks that a clock of that frequency counts while the primary clock counts \<open>n\<close>.\<close>

lemma gain_error:
  assumes "900000 \<le> f" "f \<le> 1100000" "0 \<le> sint n" "sint n \<le> 10000000"
  shows "of_int (gain f n) - of_int (sint n) * f / 1000000 \<le> 1 + 1 / 1000"
    "of_int (sint n) * f / 1000000 - of_int (gain f n) \<le> 1 + 1 / 1000"
proof -
  let ?n = "of_int (sint n) :: rat" and ?r = "rnd (f / 1000000)"
  have n: "0 \<le> ?n" "?n \<le> 10000000" using assms(3,4) by (metis of_int_0_le_iff, metis of_int_le_iff of_int_numeral)
  have x: "rnd ?n = ?n" using assms(3,4) by (intro rnd_exact representable_of_int) simp
  have "\<bar>f / 1000000\<bar> < 2 ^ 1" using assms(1,2) by simp
  from fl_error(2,3) [OF this] have "\<bar>?r - f / 1000000\<bar> \<le> 1 / 100000000000000"
    unfolding abs_le_iff by simp
  then have "\<bar>?n\<bar> * \<bar>?r - f / 1000000\<bar> \<le> 10000000 * (1 / 100000000000000)" using n by (intro mult_mono) simp_all
  then have "\<bar>?n * ?r - ?n * f / 1000000\<bar> \<le> 1 / 10000000" by (simp add: abs_mult [symmetric] right_diff_distrib)
  then have e: "?n * ?r - ?n * f / 1000000 \<le> 1 / 10000000" "?n * f / 1000000 - ?n * ?r \<le> 1 / 10000000"
    by (simp_all only: abs_le_iff minus_diff_eq)
  have m: "0 \<le> ?n * f" "?n * f \<le> 11000000000000"
    using n assms(1,2) mult_mono [of ?n 10000000 f 1100000] by simp_all
  have "?n * ?r < 16777216" "- 16777216 < ?n * ?r" using e m by linarith+
  then have "\<bar>?n * ?r\<bar> < 2 ^ 24" by (simp add: abs_less_iff)
  from fl_error(2,3) [OF this] have z: "rnd (?n * ?r) - ?n * ?r \<le> 1 / 1000000" "?n * ?r - rnd (?n * ?r) \<le> 1 / 1000000"
    by simp_all
  have g: "gain f n = trunc (rnd (?n * ?r))" by (simp only: gain_def x)
  have t: "of_int (gain f n) - rnd (?n * ?r) < 1" "rnd (?n * ?r) - of_int (gain f n) < 1"
    using trunc_error [of "rnd (?n * ?r)"] unfolding g abs_less_iff by linarith+
  show "of_int (gain f n) - ?n * f / 1000000 \<le> 1 + 1 / 1000" "?n * f / 1000000 - of_int (gain f n) \<le> 1 + 1 / 1000"
    using t z e by linarith+
qed

lemma ticks_error:
  assumes "900000 \<le> f" "f \<le> 1100000" "0 \<le> sint n" "sint n \<le> 10000000"
  shows "of_int (sint (scaled_ticks (Fin f) n)) - of_int (sint n) * f / 1000000 \<le> 1 + 1 / 1000"
    "of_int (sint n) * f / 1000000 - of_int (sint (scaled_ticks (Fin f) n)) \<le> 1 + 1 / 1000"
    "\<bar>sint (scaled_ticks (Fin f) n)\<bar> \<le> 2 ^ 30"
proof -
  let ?n = "of_int (sint n) :: rat"
  note g = gain_error [OF assms]
  have n: "0 \<le> ?n" "?n \<le> 10000000" using assms(3,4) by (metis of_int_0_le_iff, metis of_int_le_iff of_int_numeral)
  have m: "0 \<le> ?n * f" "?n * f \<le> 11000000000000"
    using n assms(1,2) mult_mono [of ?n 10000000 f 1100000] by simp_all
  have "of_int (gain f n) \<le> (11000002 :: rat)" "- 2 \<le> (of_int (gain f n) :: rat)"
    using g m by linarith+
  then have "(of_int (gain f n) :: rat) \<le> of_int 11000002" "of_int (- 2) \<le> (of_int (gain f n) :: rat)" by simp_all
  then have i: "gain f n \<le> 11000002" "- 2 \<le> gain f n" unfolding of_int_le_iff .
  then have "in_int64 (gain f n)" by (simp add: in_int64_def)
  then have s: "sint (scaled_ticks (Fin f) n) = gain f n"
    using assms(1,2) by (intro scaled_ticks_gain) simp_all
  show "of_int (sint (scaled_ticks (Fin f) n)) - ?n * f / 1000000 \<le> 1 + 1 / 1000"
    "?n * f / 1000000 - of_int (sint (scaled_ticks (Fin f) n)) \<le> 1 + 1 / 1000" "\<bar>sint (scaled_ticks (Fin f) n)\<bar> \<le> 2 ^ 30"
    unfolding s using g i by (simp_all add: abs_le_iff)
qed

text \<open>The value that is shown after an update, from the one before: the clock ran at its old frequency to the adjustment
  and at the new one from there, but for the two gaps between the readings in \<open>setFrequency\<close>.\<close>

lemma sint_shift:
  fixes v a b c d :: int64
  assumes "\<bar>sint v\<bar> \<le> 2 ^ 62" "\<bar>sint a\<bar> \<le> 2 ^ 30" "\<bar>sint b\<bar> \<le> 2 ^ 30" "\<bar>sint c\<bar> \<le> 2 ^ 30" "\<bar>sint d\<bar> \<le> 2 ^ 30"
  shows "sint (v - a + b + c + d) = sint v - sint a + sint b + sint c + sint d"
proof -
  have 1: "sint (v - a) = sint v - sint a" using assms by (intro sint_diff_int64) (simp add: in_int64_def abs_le_iff)
  have 2: "sint (v - a + b) = sint v - sint a + sint b"
    unfolding 1 [symmetric] using 1 assms by (intro sint_add_int64) (simp add: in_int64_def abs_le_iff)
  have 3: "sint (v - a + b + c) = sint v - sint a + sint b + sint c"
    unfolding 2 [symmetric] using 2 assms by (intro sint_add_int64) (simp add: in_int64_def abs_le_iff)
  show ?thesis
    unfolding 3 [symmetric] using 3 assms by (intro sint_add_int64) (simp add: in_int64_def abs_le_iff)
qed

lemma mean_frequency:
  fixes f f' s r0 r1 r2 r3 t D :: rat
  assumes "\<bar>f' - f\<bar> \<le> D" "0 \<le> f'" "f' \<le> 2000000" "r0 \<le> r1" "r1 \<le> r2" "r2 \<le> r3" "r3 \<le> t"
  shows "\<bar>(t - s) * f - ((r0 - s) * f + (r2 - r1 + (t - r3)) * f')\<bar> \<le> (t - r0) * D + 2000000 * ((r1 - r0) + (r3 - r2))"
proof -
  have "(t - s) * f - ((r0 - s) * f + (r2 - r1 + (t - r3)) * f') = (t - r0) * (f - f') + ((r1 - r0) + (r3 - r2)) * f'"
    by (simp add: algebra_simps)
  moreover have "\<bar>(t - r0) * (f - f')\<bar> \<le> (t - r0) * D"
    unfolding abs_mult using assms by (simp add: abs_minus_commute mult_left_mono)
  moreover have "\<bar>((r1 - r0) + (r3 - r2)) * f'\<bar> \<le> ((r1 - r0) + (r3 - r2)) * 2000000"
    unfolding abs_mult using assms by (intro mult_mono) simp_all
  ultimately show ?thesis by linarith
qed

section \<open>One update\<close>

text \<open>The quantities of one turn: the time on the reference as the code measures it (\<open>referenceValue\<close>), how much of it passed, what
  the primary clock counted meanwhile, how long the update took from its adjustment on, and the gaps in \<open>setFrequency\<close>.\<close>

definition reference_time :: "'a plc_scheme \<Rightarrow> int" where
  "reference_time w = sint (variableValue w) + sint (phase w)"

definition elapsed :: "'a plc_scheme \<Rightarrow> 'a plc_scheme \<Rightarrow> rat" where
  "elapsed w w' = of_int (reference_time w' - reference_time w)"

definition counted :: "'a plc_scheme \<Rightarrow> 'a plc_scheme \<Rightarrow> rat" where
  "counted w w' = of_int (sint (shown_at w') - sint (shown_at w))"

definition handling :: "'a plc_scheme \<Rightarrow> 'a plc_scheme \<Rightarrow> rat" where
  "handling w w' = of_int (sint (shown_at w') - read_at w 1)"

definition gaps :: "'a plc_scheme \<Rightarrow> rat" where
  "gaps w = of_int (read_at w 2 - read_at w 1 + (read_at w 4 - read_at w 3))"

text \<open>The frequency average is within 1000 ppm of nominal.\<close>

definition avg :: "'a plc_scheme \<Rightarrow> rat" where
  "avg w = (case primaryFrequencyAvg w of Fin a \<Rightarrow> a | _ \<Rightarrow> 0)"

definition nominal :: "'a plc_scheme \<Rightarrow> bool" where
  "nominal w \<longleftrightarrow> primaryFrequencyAvg w = Fin (avg w) \<and> \<bar>avg w - 1000000\<bar> \<le> 1000"

text \<open>What disturbs a turn, in microseconds: the average predicts the count up to \<open>d\<close>, and \<open>e\<close> bounds what the clock shows too much
  or too little because the new frequency starts within the turn and because it stands still in the gaps.\<close>

definition disturbed :: "rat \<Rightarrow> rat \<Rightarrow> 'a plc_scheme \<Rightarrow> 'a plc_scheme \<Rightarrow> bool" where
  "disturbed d e w w' \<longleftrightarrow> 0 \<le> elapsed w w'
    \<and> \<bar>counted w w' - avg w * elapsed w w' / 1000000\<bar> \<le> d
    \<and> handling w w' * (\<bar>avg w' - avg w\<bar> + \<bar>of_int (sint (phase w)) - of_int (sint (phasePrev w))\<bar> / 10 + 1) / 1000000
        + 2 * gaps w \<le> e"

lemma compensation:
  fixes a q n T d :: rat
  assumes "\<bar>a - 1000000\<bar> \<le> 1000" "\<bar>n - a * T / 1000000\<bar> \<le> d" "0 \<le> T"
  shows "\<bar>T - n * (2000000 - a + q / 10) / 1000000 + n / 10000000 * q\<bar> \<le> T * ((a - 1000000) / 1000000)\<^sup>2 + 2 * d"
proof -
  let ?e = "n - a * T / 1000000" and ?b = "(2000000 - a) / 1000000"
  have b: "0 \<le> ?b" "?b \<le> 2" using assms(1) unfolding abs_le_iff by simp_all
  have d: "0 \<le> d" using assms(2) abs_ge_zero order_trans by blast
  have "\<bar>?e * ?b\<bar> \<le> d * 2" unfolding abs_mult using assms(2) b d by (intro mult_mono) simp_all
  moreover have "T - n * (2000000 - a + q / 10) / 1000000 + n / 10000000 * q = T * ((a - 1000000) / 1000000)\<^sup>2 - ?e * ?b"
    by (simp add: power2_eq_square field_simps)
  moreover have "0 \<le> T * ((a - 1000000) / 1000000)\<^sup>2" using assms(3) by simp
  ultimately show ?thesis by linarith
qed

lemma frequency_near:
  assumes "nominal w" "\<bar>sint q\<bar> \<le> 5000"
  obtains f where "variableClockFrequency (primaryFrequencyAvg w) q = Fin f"
    "\<bar>f - (2000000 - avg w + of_int (sint q) / 10)\<bar> \<le> 1 / 1000000000" "998000 \<le> f" "f \<le> 1002000"
proof -
  have a: "primaryFrequencyAvg w = Fin (avg w)" "\<bar>avg w - 1000000\<bar> \<le> 1000" using assms(1) by (simp_all add: nominal_def)
  obtain f where f: "variableClockFrequency (Fin (avg w)) q = Fin f"
    "\<bar>f - (2000000 - avg w + of_int (sint q) / 10)\<bar> \<le> 1 / 2 ^ 32"
    using variableClockFrequency_error [OF a(2) assms(2)] by blast
  have q: "\<bar>of_int (sint q) :: rat\<bar> \<le> 5000" using assms(2) by (metis of_int_abs of_int_le_iff of_int_numeral)
  have d: "\<bar>f - (2000000 - avg w + of_int (sint q) / 10)\<bar> \<le> 1 / 1000000000" using f(2) by simp
  show thesis
    by (rule that [of f]) (use f(1) d a q in \<open>simp_all only: abs_le_iff minus_diff_eq, simp_all\<close>)
qed

text \<open>By how much the value that is stored advances in a turn.\<close>

lemma shown_advance:
  assumes "plc_clocks SystemClock reference" "turn reference w w'" "steered w" "\<bar>sint (variableValue w)\<bar> \<le> 2 ^ 62"
    and "frequency (variableFrequencyClock w) = Fin f" "998000 \<le> f" "f \<le> 1002000"
    and "variableClockFrequency (filtered (primaryFrequencyAvg w) (primaryFrequency w)) (phase w) = Fin f'"
    and "998000 \<le> f'" "f' \<le> 1002000" "\<bar>f' - f\<bar> \<le> D"
  shows "\<bar>of_int (sint (variableValue w') - sint (variableValue w)) - counted w w' * f / 1000000\<bar>
    \<le> handling w w' * D / 1000000 + 2 * gaps w + (4 + 1 / 100)"
proof -
  have tn: "on_time w" "update SystemClock reference w = Some ((), w')" "inSync w'" "in_order w w'"
    using assms(2) by (simp_all add: turn_def)
  have p: "\<not> dle (Fin f') (Fin 0)" using assms(9) by simp
  let ?s = "markerSrc (variableFrequencyClock w)" and ?R = "sys_reads w"
  let ?a = "scaled_ticks (Fin f) (shown_at w - ?s)" and ?b = "scaled_ticks (Fin f) (reading w (?R + 1) - ?s)"
    and ?c = "scaled_ticks (Fin f') (reading w (?R + 3) - reading w (?R + 2))"
    and ?d = "scaled_ticks (Fin f') (shown_at w' - reading w (?R + 4))"
  define s s0 r1 r2 r3 r4 t where r: "s = sint ?s" "s0 = sint (shown_at w)" "r1 = sint (reading w (?R + 1))"
    "r2 = sint (reading w (?R + 2))" "r3 = sint (reading w (?R + 3))" "r4 = sint (reading w (?R + 4))" "t = sint (shown_at w')"
  have o: "s \<le> s0" "s0 \<le> r1" "r1 \<le> r2" "r2 \<le> r3" "r3 \<le> r4" "r4 \<le> t" "t - s \<le> 10000000"
    using tn(4) by (simp_all add: in_order_def Let_def read_at_def r)
  have di: "sint (shown_at w - ?s) = s0 - s" "sint (reading w (?R + 1) - ?s) = r1 - s"
    "sint (reading w (?R + 3) - reading w (?R + 2)) = r3 - r2" "sint (shown_at w' - reading w (?R + 4)) = t - r4"
    unfolding r by (intro sint_diff_readings; use o in \<open>simp add: r\<close>)+
  have fb: "900000 \<le> f" "f \<le> 1100000" "900000 \<le> f'" "f' \<le> 1100000" using assms(6,7,9,10) by simp_all
  note A = ticks_error [OF fb(1,2), of "shown_at w - ?s", unfolded di]
    and B = ticks_error [OF fb(1,2), of "reading w (?R + 1) - ?s", unfolded di]
    and C = ticks_error [OF fb(3,4), of "reading w (?R + 3) - reading w (?R + 2)", unfolded di]
    and D = ticks_error [OF fb(3,4), of "shown_at w' - reading w (?R + 4)", unfolded di]
  have g: "0 \<le> s0 - s" "s0 - s \<le> 10000000" "0 \<le> r1 - s" "r1 - s \<le> 10000000" "0 \<le> r3 - r2" "r3 - r2 \<le> 10000000"
    "0 \<le> t - r4" "t - r4 \<le> 10000000" using o by linarith+
  note A = A [OF g(1,2)] and B = B [OF g(3,4)] and C = C [OF g(5,6)] and D = D [OF g(7,8)]
  have "variableValue w' = variableValue w - ?a + ?b + ?c + ?d"
    using update_steers [OF assms(1,3) tn(1-3) assms(8) [symmetric] p assms(5) [symmetric] refl refl] by blast
  then have V: "sint (variableValue w') - sint (variableValue w) = - sint ?a + sint ?b + sint ?c + sint ?d"
    using sint_shift [OF assms(4) A(3) B(3) C(3) D(3)] by simp
  have M: "\<bar>counted w w' * f - ((of_int r1 - of_int s0) * f + (of_int r3 - of_int r2 + (of_int t - of_int r4)) * f')\<bar>
      \<le> handling w w' * D + 2000000 * gaps w"
  proof -
    have "(of_int r1 :: rat) \<le> of_int r2" "(of_int r2 :: rat) \<le> of_int r3" "(of_int r3 :: rat) \<le> of_int r4"
      "(of_int r4 :: rat) \<le> of_int t" "0 \<le> f'" "f' \<le> 2000000" using o assms(9,10) by simp_all
    moreover have "counted w w' = of_int t - of_int s0" "handling w w' = of_int t - of_int r1"
      "gaps w = (of_int r2 - of_int r1) + (of_int r4 - of_int r3)"
      by (simp_all add: counted_def handling_def gaps_def read_at_def r)
    ultimately show ?thesis using mean_frequency [OF assms(11)] by (simp only:)
  qed
  have E: "of_int (- sint ?a + sint ?b + sint ?c + sint ?d) =
      of_int (sint ?b) - of_int (sint ?a) + (of_int (sint ?c) + of_int (sint ?d) :: rat)" by simp
  have G: "of_int (r1 - s) * f - of_int (s0 - s) * f + (of_int (r3 - r2) * f' + of_int (t - r4) * f')
      = (of_int r1 - of_int s0) * f + (of_int r3 - of_int r2 + (of_int t - of_int r4)) * f'"
    by (simp add: algebra_simps)
  show ?thesis
    unfolding V E using M G A(1,2) B(1,2) C(1,2) D(1,2) by linarith
qed

text \<open>The phase measured by an update, from the two before.\<close>

lemma phase_recurrence:
  assumes "plc_clocks SystemClock reference" "turn reference w w'" "steered w" "nominal w" "nominal w'"
    and "\<bar>sint (phase w)\<bar> \<le> 5000" "\<bar>sint (phasePrev w)\<bar> \<le> 5000" "\<bar>sint (variableValue w)\<bar> \<le> 2 ^ 62"
    and "disturbed d e w w'"
  shows "steered w' \<and> phasePrev w' = phase w \<and>
    \<bar>of_int (sint (phase w')) - (of_int (sint (phase w)) - counted w w' / 10000000 * of_int (sint (phasePrev w)))\<bar>
      \<le> elapsed w w' * ((avg w - 1000000) / 1000000)\<^sup>2 + 2 * d + e + 5"
proof -
  have tn: "on_time w" "update SystemClock reference w = Some ((), w')" "inSync w'" "in_order w w'"
    using assms(2) by (simp_all add: turn_def)
  let ?n = "counted w w'" and ?q = "of_int (sint (phasePrev w)) :: rat" and ?p = "of_int (sint (phase w)) :: rat"
  let ?D = "\<bar>avg w' - avg w\<bar> + \<bar>?p - ?q\<bar> / 10 + 1" and ?y = "2000000 - avg w + ?q / 10"
  obtain f where f: "variableClockFrequency (primaryFrequencyAvg w) (phasePrev w) = Fin f"
    "\<bar>f - ?y\<bar> \<le> 1 / 1000000000" "998000 \<le> f" "f \<le> 1002000" by (rule frequency_near [OF assms(4,7)])
  obtain f' where f': "variableClockFrequency (primaryFrequencyAvg w') (phase w) = Fin f'"
    "\<bar>f' - (2000000 - avg w' + ?p / 10)\<bar> \<le> 1 / 1000000000" "998000 \<le> f'" "f' \<le> 1002000"
    by (rule frequency_near [OF assms(5,6)])
  have fa: "variableClockFrequency (filtered (primaryFrequencyAvg w) (primaryFrequency w)) (phase w) = Fin f'"
    using plc_clocks.update_filters [OF assms(1) refl tn(2,3,1)] f'(1) by simp
  have fw: "frequency (variableFrequencyClock w) = Fin f" using assms(3) f(1) by (simp add: steered_def Let_def)
  have "\<not> dle (Fin f') (Fin 0)" using f'(3) by simp
  note u = update_steers [OF assms(1,3) tn(1-3) fa [symmetric] this fw [symmetric] refl refl]
  have "\<bar>f' - f\<bar> \<le> ?D"
    using f(2) f'(2) abs_ge_self [of "avg w' - avg w"] abs_ge_minus_self [of "avg w' - avg w"]
      abs_ge_self [of "?p - ?q"] abs_ge_minus_self [of "?p - ?q"]
    unfolding abs_le_iff minus_diff_eq by (elim conjE, intro conjI; linarith)
  note V = shown_advance [OF assms(1-3,8) fw f(3,4) fa f'(3,4) this]
  have dd: "0 \<le> elapsed w w'" "\<bar>?n - avg w * elapsed w w' / 1000000\<bar> \<le> d"
    "handling w w' * ?D / 1000000 + 2 * gaps w \<le> e" using assms(9) by (simp_all add: disturbed_def)
  have "\<bar>avg w - 1000000\<bar> \<le> 1000" using assms(4) by (simp add: nominal_def)
  note K = compensation [OF this dd(2,1), of ?q]
  have n: "0 \<le> ?n" "?n \<le> 10000000"
    using tn(4) by (simp_all add: counted_def in_order_def Let_def of_int_le_iff [symmetric] del: of_int_diff of_int_le_iff)
  have "\<bar>?n * (f - ?y)\<bar> \<le> 10000000 * (1 / 1000000000)"
    unfolding abs_mult using n f(2) by (intro mult_mono) simp_all
  then have N: "\<bar>?n * f - ?n * ?y\<bar> \<le> 1 / 100" by (simp only: right_diff_distrib [of ?n f ?y])
  have x: "of_int (sint (phase w')) = ?p + elapsed w w' - of_int (sint (variableValue w') - sint (variableValue w))"
    by (simp add: elapsed_def reference_time_def)
  have "\<bar>of_int (sint (phase w')) - (?p - ?n / 10000000 * ?q)\<bar>
      \<le> elapsed w w' * ((avg w - 1000000) / 1000000)\<^sup>2 + 2 * d + e + 5"
    using V K N dd(3) x by linarith
  with u show ?thesis by blast
qed

section \<open>Any number of updates\<close>

text \<open>The loop reacts to a phase one update late; that it still converges needs more than a contraction.\<close>

lemma delayed_step:
  fixes x0 x1 x2 x3 m m' r A L c :: rat
  assumes "\<bar>x2 - (x1 - m' * x0)\<bar> \<le> c" "\<bar>x3 - (x2 - m * x1)\<bar> \<le> c"
    and "\<bar>x0\<bar> \<le> A + L" "\<bar>x2\<bar> \<le> r * r * A + L" "0 \<le> m" "m \<le> 1" "0 \<le> m'"
    and "(1 - m) * (r * r) + m * m' \<le> r * r * r" "c * (1 + m) \<le> m * (1 - m') * L" "0 \<le> A"
  shows "\<bar>x3\<bar> \<le> r * r * r * A + L"
proof -
  have d: "\<bar>x2 - x1\<bar> \<le> m' * (A + L) + c"
  proof -
    have "\<bar>m' * x0\<bar> \<le> m' * (A + L)" unfolding abs_mult using assms(3,7) by (simp add: mult_left_mono)
    with assms(1) show ?thesis by linarith
  qed
  have "x2 - m * x1 = (1 - m) * x2 + m * (x2 - x1)" by (simp add: algebra_simps)
  moreover have "\<bar>(1 - m) * x2\<bar> \<le> (1 - m) * (r * r * A + L)"
    unfolding abs_mult using assms(4,6) by (simp add: mult_left_mono)
  moreover have "\<bar>m * (x2 - x1)\<bar> \<le> m * (m' * (A + L) + c)"
    unfolding abs_mult using assms(5) d by (simp add: mult_left_mono)
  ultimately have "\<bar>x3\<bar> \<le> (1 - m) * (r * r * A + L) + m * (m' * (A + L) + c) + c" using assms(2) by linarith
  also have "\<dots> = ((1 - m) * (r * r) + m * m') * A + L - m * (1 - m') * L + c * (1 + m)" by (simp add: algebra_simps)
  also have "\<dots> \<le> r * r * r * A + L" using mult_right_mono [OF assms(8,10)] assms(9) by linarith
  finally show ?thesis .
qed

lemma delayed_rate:
  fixes u m m' c L r :: rat
  assumes "0 < u" "u \<le> m" "m \<le> 1 / 4" "0 \<le> m'" "m' \<le> 1 / 4" "0 \<le> c" "L = 2 * c / u" "r = 1 - u / 2"
  shows "(1 - m) * (r * r) + m * m' \<le> r * r * r" "c * (1 + m) \<le> m * (1 - m') * L"
proof -
  have r: "7 / 8 \<le> r" using assms by simp
  then have "7 / 8 * (7 / 8) \<le> r * r" by (intro mult_mono) simp_all
  then have "m / 2 * (1 / 2) \<le> m / 2 * (r * r)" using assms(1,2) by (intro mult_left_mono) simp_all
  moreover have "(m / 2) * (r * r) \<le> (m - u / 2) * (r * r)" using assms(1,2) by (intro mult_right_mono) simp_all
  moreover have "m * m' \<le> m * (1 / 4)" using assms(1,2,5) by (intro mult_left_mono) simp_all
  ultimately have "m * m' \<le> (m - u / 2) * (r * r)" by simp
  moreover have "m - u / 2 = r - (1 - m)" by (simp add: assms(8))
  then have "r * r * r - (1 - m) * (r * r) = (m - u / 2) * (r * r)" by (simp only: left_diff_distrib mult.assoc)
  ultimately show "(1 - m) * (r * r) + m * m' \<le> r * r * r" by linarith
  have "0 \<le> L" using assms(1,6,7) by simp
  then have "u * (3 / 4) * L \<le> m * (1 - m') * L" using assms(1-5) by (intro mult_right_mono mult_mono) simp_all
  moreover have "u * (3 / 4) * L = 3 / 2 * c" using assms(1,7) by simp
  moreover have "c * (1 + m) \<le> c * (5 / 4)" using assms(3,6) by (intro mult_left_mono) simp_all
  ultimately show "c * (1 + m) \<le> m * (1 - m') * L" using assms(6) by linarith
qed

lemma delayed_convergence:
  fixes x m :: "nat \<Rightarrow> rat" and u b c B :: rat
  assumes "0 < u" "u \<le> 1 / 4" "0 \<le> c" "\<bar>x 0\<bar> \<le> b" "\<bar>x 1\<bar> \<le> b" "2 * b + 2 * c / u \<le> B"
    and "\<And>k. k < K \<Longrightarrow> u \<le> m k \<and> m k \<le> 1 / 4"
    and "\<And>k. k < K \<Longrightarrow> \<bar>x k\<bar> \<le> B \<Longrightarrow> \<bar>x (Suc k)\<bar> \<le> B \<Longrightarrow> \<bar>x (Suc (Suc k)) - (x (Suc k) - m k * x k)\<bar> \<le> c"
  shows "k \<le> Suc K \<Longrightarrow> \<bar>x k\<bar> \<le> B \<and> \<bar>x k\<bar> \<le> 2 * b * (1 - u / 2) ^ k + 2 * c / u"
proof (induction k rule: less_induct)
  case (less k)
  let ?r = "1 - u / 2" and ?L = "2 * c / u"
  have b: "0 \<le> b" using assms(4) abs_ge_zero order_trans by blast
  have L: "8 * c \<le> ?L"
  proof -
    have "8 * c * u \<le> 2 * c" using mult_left_mono [OF assms(2), of "8 * c"] assms(3) by simp
    then show ?thesis using assms(1) by (simp add: pos_le_divide_eq)
  qed
  have r: "7 / 8 \<le> ?r" "0 \<le> ?r" "?r \<le> 1" using assms(1,2) by simp_all
  have st: "\<bar>x (Suc (Suc j)) - (x (Suc j) - m j * x j)\<bar> \<le> c" "u \<le> m j" "m j \<le> 1 / 4" "0 \<le> m j" if "Suc (Suc j) \<le> k" for j
  proof -
    have "j < K" "j < k" "Suc j < k" "j \<le> Suc K" "Suc j \<le> Suc K" using that less.prems by simp_all
    then show "\<bar>x (Suc (Suc j)) - (x (Suc j) - m j * x j)\<bar> \<le> c" "u \<le> m j" "m j \<le> 1 / 4"
      using assms(7,8) less.IH by blast+
    then show "0 \<le> m j" using assms(1) by linarith
  qed
  consider "k = 0" | "k = 1" | "k = 2" | j where "k = Suc (Suc (Suc j))"
    by (metis One_nat_def Suc_1 not0_implies_Suc)
  then have *: "\<bar>x k\<bar> \<le> 2 * b * ?r ^ k + ?L"
  proof cases
    case 1
    then show ?thesis using assms(3,4) b L by simp
  next
    case 2
    have "2 * b * (7 / 8) \<le> 2 * b * ?r" using b r by (intro mult_left_mono) simp_all
    with assms(3,5) b L 2 show ?thesis by simp
  next
    case 3
    have "7 / 8 * (7 / 8) \<le> ?r * ?r" using r by (intro mult_mono) simp_all
    then have R: "2 * b * (49 / 64) \<le> 2 * b * (?r * ?r)" using b by (intro mult_left_mono) simp_all
    have "Suc (Suc 0) \<le> k" using 3 by simp
    note s = st [OF this]
    have "\<bar>m 0 * x 0\<bar> \<le> 1 / 4 * b" unfolding abs_mult using s assms(4) by (intro mult_mono) simp_all
    then have "\<bar>x 2\<bar> \<le> 2 * b * (?r * ?r) + ?L"
      using s(1) assms(3,5) L R b unfolding One_nat_def numeral_2_eq_2 by linarith
    with 3 show ?thesis by (simp only: power2_eq_square)
  next
    case (4 j)
    have j: "Suc (Suc j) \<le> k" "Suc (Suc (Suc j)) \<le> k" "j < k" "Suc (Suc j) < k" "j \<le> Suc K" "Suc (Suc j) \<le> Suc K"
      using 4 less.prems by simp_all
    note s = st [OF j(1)] and s' = st [OF j(2)]
    note d = delayed_rate [OF assms(1) s'(2,3) s(4,3) assms(3) refl refl]
    have "\<bar>x j\<bar> \<le> 2 * b * ?r ^ j + ?L" "\<bar>x (Suc (Suc j))\<bar> \<le> ?r * ?r * (2 * b * ?r ^ j) + ?L"
      using less.IH [OF j(3,5)] less.IH [OF j(4,6)] by (simp_all add: mult.assoc mult.left_commute)
    moreover have "m (Suc j) \<le> 1" "0 \<le> 2 * b * ?r ^ j" using s' b r by simp_all
    ultimately have "\<bar>x (Suc (Suc (Suc j)))\<bar> \<le> ?r * ?r * ?r * (2 * b * ?r ^ j) + ?L"
      using delayed_step [OF s(1) s'(1) _ _ s'(4) _ s(4) d] by blast
    with 4 show ?thesis by (simp add: mult.assoc mult.left_commute)
  qed
  moreover have "2 * b * ?r ^ k \<le> 2 * b * 1" using b r by (intro mult_left_mono power_le_one) simp_all
  ultimately show ?case using assms(6) by simp
qed

text \<open>The phases of a run of the loop, from the one before its first state on.\<close>

definition phases :: "(nat \<Rightarrow> 'a plc_scheme) \<Rightarrow> nat \<Rightarrow> rat" where
  "phases W k = (case k of 0 \<Rightarrow> of_int (sint (phasePrev (W 0))) | Suc j \<Rightarrow> of_int (sint (phase (W j))))"

lemma phases_simps [simp]:
  "phases W 0 = of_int (sint (phasePrev (W 0)))" "phases W (Suc k) = of_int (sint (phase (W k)))"
  by (simp_all add: phases_def)

lemma converging_run:
  fixes W :: "nat \<Rightarrow> 'a plc_scheme" and b c d e m :: rat
  assumes "plc_clocks SystemClock reference" "\<And>k. k < K \<Longrightarrow> turn reference (W k) (W (Suc k))" "steered (W 0)"
    and "\<And>k. k \<le> K \<Longrightarrow> nominal (W k) \<and> \<bar>sint (variableValue (W k))\<bar> \<le> 2 ^ 62"
    and "\<And>k. k < K \<Longrightarrow> disturbed d e (W k) (W (Suc k))
      \<and> elapsed (W k) (W (Suc k)) * ((avg (W k) - 1000000) / 1000000)\<^sup>2 + 2 * d + e + 5 \<le> c"
    and "\<And>k. k < K \<Longrightarrow> m \<le> counted (W k) (W (Suc k)) \<and> counted (W k) (W (Suc k)) \<le> 2500000"
    and "0 < m" "m \<le> 2500000" "0 \<le> c" "\<bar>phases W 0\<bar> \<le> b" "\<bar>phases W 1\<bar> \<le> b" "2 * b + 2 * c / (m / 10000000) \<le> 5000"
  shows "\<bar>phases W (Suc K)\<bar> \<le> 5000 \<and> \<bar>phases W (Suc K)\<bar> \<le> 2 * b * (1 - m / 10000000 / 2) ^ Suc K + 2 * c / (m / 10000000)"
proof -
  let ?m = "\<lambda>k. counted (W k) (W (Suc k)) / 10000000"
  let ?rec = "\<lambda>j. \<bar>phases W (Suc (Suc j)) - (phases W (Suc j) - ?m j * phases W j)\<bar> \<le> c"
  have u: "0 < m / 10000000" "m / 10000000 \<le> 1 / 4" using assms(7,8) by simp_all
  note dc = delayed_convergence [OF u assms(9,10,11,12), where m = ?m]
  have five: "\<bar>sint q\<bar> \<le> 5000" if "\<bar>of_int (sint q) :: rat\<bar> \<le> 5000" for q :: dur
    using that by (metis of_int_abs of_int_le_iff of_int_numeral)
  have "steered (W n) \<and> of_int (sint (phasePrev (W n))) = phases W n \<and> (\<forall>j < n. ?rec j)" if "n \<le> K" for n
    using that
  proof (induction n)
    case 0
    then show ?case using assms(3) by simp
  next
    case (Suc n)
    then have n: "n < K" "n \<le> K" and IH: "steered (W n)" "of_int (sint (phasePrev (W n))) = phases W n" "\<forall>j < n. ?rec j"
      by simp_all
    have "m / 10000000 \<le> ?m j \<and> ?m j \<le> 1 / 4" if "j < n" for j
      using assms(6) [of j] that n by simp
    then have "\<bar>phases W j\<bar> \<le> 5000" if "j \<le> Suc n" for j
      using dc [of n j] that IH(3) by blast
    from this [of n] this [of "Suc n"] have p: "\<bar>sint (phasePrev (W n))\<bar> \<le> 5000" "\<bar>sint (phase (W n))\<bar> \<le> 5000"
      using IH(2) five by simp_all
    have "nominal (W n)" "nominal (W (Suc n))" "\<bar>sint (variableValue (W n))\<bar> \<le> 2 ^ 62" using assms(4) Suc.prems n by simp_all
    note r = phase_recurrence [OF assms(1) assms(2) [OF n(1)] IH(1) this(1,2) p(2,1) this(3)]
    have k: "disturbed d e (W n) (W (Suc n))"
      "elapsed (W n) (W (Suc n)) * ((avg (W n) - 1000000) / 1000000)\<^sup>2 + 2 * d + e + 5 \<le> c" using assms(5) [OF n(1)] by simp_all
    note r = r [OF k(1)]
    have "?rec n" using r k(2) unfolding phases_simps IH(2) by linarith
    with IH(3) have "\<forall>j < Suc n. ?rec j" by (simp add: less_Suc_eq)
    with r show ?case by simp
  qed
  from this [of K] have "\<forall>j < K. ?rec j" by simp
  moreover have "m / 10000000 \<le> ?m j \<and> ?m j \<le> 1 / 4" if "j < K" for j
    using assms(6) [OF that] by simp
  ultimately show ?thesis using dc [of K "Suc K"] by blast
qed

lemma converged_run:
  fixes W :: "nat \<Rightarrow> 'a plc_scheme" and b c d e m :: rat
  assumes "plc_clocks SystemClock reference" "\<And>k. k < K \<Longrightarrow> turn reference (W k) (W (Suc k))" "steered (W 0)"
    and "\<And>k. k \<le> K \<Longrightarrow> nominal (W k) \<and> \<bar>sint (variableValue (W k))\<bar> \<le> 2 ^ 62"
    and "\<And>k. k < K \<Longrightarrow> disturbed d e (W k) (W (Suc k))
      \<and> elapsed (W k) (W (Suc k)) * ((avg (W k) - 1000000) / 1000000)\<^sup>2 + 2 * d + e + 5 \<le> c"
    and "\<And>k. k < K \<Longrightarrow> m \<le> counted (W k) (W (Suc k)) \<and> counted (W k) (W (Suc k)) \<le> 2500000"
    and "0 < m" "m \<le> 2500000" "0 \<le> c" "2 * b + 20000000 * c / m \<le> 5000"
    and "\<bar>of_int (sint (phasePrev (W 0)))\<bar> \<le> b" "\<bar>of_int (sint (phase (W 0)))\<bar> \<le> b"
  shows "\<bar>sint (phase (W K))\<bar> \<le> 5000
    \<and> \<bar>of_int (sint (phase (W K)))\<bar> \<le> 2 * b * (1 - m / 20000000) ^ Suc K + 20000000 * c / m"
proof -
  have e: "2 * c / (m / 10000000) = 20000000 * c / m" "m / 10000000 / 2 = m / 20000000" by simp_all
  have "\<bar>phases W (Suc K)\<bar> \<le> 5000 \<and> \<bar>phases W (Suc K)\<bar> \<le> 2 * b * (1 - m / 10000000 / 2) ^ Suc K + 2 * c / (m / 10000000)"
    by (rule converging_run [OF assms(1-9)]) (use assms(10-12) in \<open>simp_all add: e\<close>)
  then have "\<bar>of_int (sint (phase (W K))) :: rat\<bar> \<le> 5000"
    "\<bar>of_int (sint (phase (W K)))\<bar> \<le> 2 * b * (1 - m / 20000000) ^ Suc K + 20000000 * c / m"
    unfolding e phases_simps by blast+
  then show ?thesis by (metis of_int_abs of_int_le_iff of_int_numeral)
qed

text \<open>C5: The control loop converges.  Let \<open>W 0, \<dots>, W K\<close> be the states of the clock after successive updates on the system's
  clock, in sync and on time, the first of them the state after such an update.  Let every update count between \<open>m\<close>
  microseconds and 2.5 seconds, let the frequency average stay within 1000 ppm of nominal and predict the count up to \<open>d\<close>,
  and let \<open>e\<close> bound the effect of the update's own duration, so that \<open>c\<close> bounds what disturbs a turn.  Then the phase never
  reaches the panic threshold of 5000, and from at most \<open>b\<close> it shrinks by at least the factor \<open>1 - m / (2 * 10 ^ 7)\<close> in every
  update, twice \<open>b\<close> at first, down to \<open>2 * 10 ^ 7 * c / m\<close>.\<close>

theorem plc_phase_converges:
  fixes W :: "nat \<Rightarrow> 'a plc_scheme" and b c d e m :: rat
  assumes "plc_clocks SystemClock reference" "\<And>k. k < K \<Longrightarrow> turn reference (W k) (W (Suc k))" "steered (W 0)"
    and "\<And>k. k \<le> K \<Longrightarrow> nominal (W k) \<and> \<bar>sint (variableValue (W k))\<bar> \<le> 2 ^ 62"
    and "\<And>k. k < K \<Longrightarrow> disturbed d e (W k) (W (Suc k))
      \<and> elapsed (W k) (W (Suc k)) * ((avg (W k) - 1000000) / 1000000)\<^sup>2 + 2 * d + e + 5 \<le> c"
    and "\<And>k. k < K \<Longrightarrow> m \<le> counted (W k) (W (Suc k)) \<and> counted (W k) (W (Suc k)) \<le> 2500000"
    and "0 < m" "m \<le> 2500000" "0 \<le> c" "2 * b + 20000000 * c / m \<le> 5000"
    and "\<bar>of_int (sint (phasePrev (W 0)))\<bar> \<le> b" "\<bar>of_int (sint (phase (W 0)))\<bar> \<le> b"
  shows "\<bar>sint (phase (W K))\<bar> \<le> 5000
    \<and> \<bar>of_int (sint (phase (W K)))\<bar> \<le> 2 * b * (1 - m / 20000000) ^ Suc K + 20000000 * c / m"
  by (rule converged_run [OF assms])

lemma steady_readings:
  "read_at steady 1 = 200000" "read_at steady 2 = 200000" "read_at steady 3 = 200000" "read_at steady 4 = 200000"
  "shown_at steady = 0" "shown_at steady_next = 200000"
  by (simp_all add: read_at_def shown_at_def ticking_reading steady_next_def)

theorem plc_phase_converges_witness: "\<bar>of_int (sint (phase steady_next))\<bar> \<le> (500 :: rat)"
proof -
  let ?W = "\<lambda>k :: nat. if k = 0 then steady else steady_next"
  have n: "primaryFrequencyAvg steady_next = Fin 1000000" "phase steady_next = 0" "variableValue steady_next = 200000"
    "inSync steady_next" by (simp_all add: steady_next_def)
  have a: "avg steady = 1000000" "avg steady_next = 1000000" "nominal steady" "nominal steady_next"
    by (simp_all add: nominal_def avg_def n)
  have l: "elapsed steady steady_next = 200000" "counted steady steady_next = 200000"
    "handling steady steady_next = 0" "gaps steady = 0"
    by (simp_all add: elapsed_def reference_time_def counted_def handling_def gaps_def steady_readings steady_readings(1) [unfolded One_nat_def] n)
  have t: "turn SystemClock steady steady_next"
    by (simp add: turn_def steady_on_time steady_update n in_order_def steady_readings steady_readings(1) [unfolded One_nat_def])
  have d: "disturbed 0 0 steady steady_next" by (simp add: disturbed_def l a)
  have "\<bar>sint (phase (?W 1))\<bar> \<le> 5000
    \<and> \<bar>of_int (sint (phase (?W 1)))\<bar> \<le> 2 * 0 * (1 - 200000 / 20000000) ^ Suc 1 + 20000000 * 5 / (200000 :: rat)"
    by (rule plc_phase_converges [where reference = SystemClock and d = 0 and e = 0])
      (simp_all add: self.plc_clocks_axioms t d l a n steady_steered)
  then show ?thesis by simp
qed

end
