(* ===== verification/UnitTests.thy ===== *)
theory UnitTests
  imports Convergence
begin

text \<open>
  The unit tests of the clocks, \<open>test-unit.cpp\<close>: pairs of variable clocks on the system's clock are compared again and
  again while a countdown runs.  What the tests of such pairs share is one loop; the time that passes in a sleep
  is up to the readings of the system's clock.  \<open>abs\<close> is taken to be the one for the type of its argument.

  The order in which the two clocks of \<open>diff(c1.getValue(), c2.getValue())\<close> are read is left to the compiler; here the
  first is read first, as \<open>speedyclocks\<close> asks for.

  The lemmas show under which readings the tests pass, which is what they promise of \<open>VariableFrequencyClock\<close>, and what the
  variable that \<open>slowclock\<close> and \<open>fastclock\<close> do not initialize does to them.
\<close>

section \<open>The tests\<close>

record Countdown =
  step :: dur
  runtime :: dur

text \<open>The conversion to \<open>bool\<close>: it waits, counts down, and tells whether the countdown is still running.\<close>

definition Countdown_bool :: "Countdown \<Rightarrow> bool \<times> Countdown" where
  "Countdown_bool c = (let c = c\<lparr>runtime := runtime c - step c\<rparr> in (0 <s runtime c, c))"

definition abs64 :: "int64 \<Rightarrow> int64" where
  "abs64 d = (if d <s 0 then - d else d)"

text \<open>The loop: the expected \<open>drift\<close> grows by \<open>grow\<close> in every turn, and the clocks may differ from it by \<open>tolerance\<close>.\<close>

partial_function (option) compare_loop ::
  "Countdown \<Rightarrow> dur \<Rightarrow> dur \<Rightarrow> int64 \<Rightarrow> vfc \<Rightarrow> vfc \<Rightarrow> ('a os_scheme, bool) call" where
  "compare_loop countdown drift grow tolerance c1 c2 w =
    (let (running, countdown) = Countdown_bool countdown in
     if \<not> running then Some (True, w)
     else
       let drift = drift + grow in do {
         (t1, (c1, w)) \<leftarrow> VariableFrequencyClock_getValue SystemClock_getValue (c1, w);
         (t2, (c2, w)) \<leftarrow> VariableFrequencyClock_getValue SystemClock_getValue (c2, w);
         if tolerance <s abs64 (UsecFromDur (diff t1 t2) - UsecFromDur drift) then Some (False, w)
         else compare_loop countdown drift grow tolerance c1 c2 w
       })"

definition clones_vfc :: "('a os_scheme, bool) call" where
  "clones_vfc w = do {
     (c1, w) \<leftarrow> VariableFrequencyClock_new SystemClock_getValue (Fin 1000000) w;
     (c2, w) \<leftarrow> VariableFrequencyClock_new SystemClock_getValue (Fin 1000000) w;
     compare_loop \<lparr>step = 10000, runtime = 500000\<rparr> 0 0 20 c1 c2 w
   }"

text \<open>\<open>drift\<close> has whatever value it happens to have, because the default constructor of a duration leaves it
  uninitialized.\<close>

definition slowclock :: "dur \<Rightarrow> ('a os_scheme, bool) call" where
  "slowclock drift w = do {
     (c1, w) \<leftarrow> VariableFrequencyClock_new SystemClock_getValue (Fin 1000000) w;
     (c2, w) \<leftarrow> VariableFrequencyClock_new SystemClock_getValue (Fin 990000) w;
     compare_loop \<lparr>step = 10000, runtime = 250000\<rparr> drift 100 100 c1 c2 w
   }"

definition fastclock :: "dur \<Rightarrow> ('a os_scheme, bool) call" where
  "fastclock drift w = do {
     (c1, w) \<leftarrow> VariableFrequencyClock_new SystemClock_getValue (Fin 1000000) w;
     (c2, w) \<leftarrow> VariableFrequencyClock_new SystemClock_getValue (Fin 1050000) w;
     compare_loop \<lparr>step = 8000, runtime = 200000\<rparr> drift (- 400) 300 c1 c2 w
   }"

definition speedyclocks :: "('a os_scheme, bool) call" where
  "speedyclocks w = do {
     (c1, w) \<leftarrow> VariableFrequencyClock_new SystemClock_getValue (Fin 5000000) w;
     (c2, w) \<leftarrow> VariableFrequencyClock_new SystemClock_getValue (Fin 5000000) w;
     compare_loop \<lparr>step = 10000, runtime = 200000\<rparr> 0 0 10 c1 c2 w
   }"

text \<open>Two clocks whose reference is the system's clock, each with a thread that updates it; what the threads do to the two clocks
  during the \<open>n\<close>th sleep is \<open>others n\<close>.  When the test returns early, the threads run on, and the destructor of the vector that holds
  them stops the process by \<open>std::terminate\<close>.  Otherwise they are told to end, and are joined.\<close>

datatype clones_outcome = Clones_passed | Std_terminate

partial_function (option) clones_plc_loop ::
  "(nat \<Rightarrow> plc \<times> plc \<Rightarrow> (plc \<times> plc) option) \<Rightarrow> nat \<Rightarrow> Countdown \<Rightarrow> plc \<times> plc \<Rightarrow> clones_outcome option" where
  "clones_plc_loop others n countdown cs = do {
     (c1, c2) \<leftarrow> others n cs;
     let (running, countdown) = Countdown_bool countdown in
     if \<not> running then Some Clones_passed
     else do {
       (t1, c1) \<leftarrow> PhaseLockedClock_getValue SystemClock c1;
       (t2, c2) \<leftarrow> PhaseLockedClock_getValue SystemClock c2;
       if 20 <s abs64 (UsecFromDur (diff t1 t2)) then Some Std_terminate
       else clones_plc_loop others (Suc n) countdown (c1, c2)
     }
   }"

definition clones_plc ::
  "(nat \<Rightarrow> plc \<times> plc \<Rightarrow> (plc \<times> plc) option) \<Rightarrow> client \<Rightarrow> client \<Rightarrow> clones_outcome option" where
  "clones_plc others w1 w2 = do {
     c1 \<leftarrow> PhaseLockedClock_new SystemClock w1;
     c2 \<leftarrow> PhaseLockedClock_new SystemClock w2;
     clones_plc_loop others 0 \<lparr>step = 10000, runtime = 250000\<rparr> (c1, c2)
   }"

text \<open>\<open>main\<close>: the exit status, unless the process is stopped.  \<open>slow\<close> and \<open>fast\<close> are what the uninitialized variables hold.\<close>

datatype unit_result = Exited int | Terminated

definition UnitMain ::
  "(nat \<Rightarrow> plc \<times> plc \<Rightarrow> (plc \<times> plc) option) \<Rightarrow> client \<Rightarrow> client \<Rightarrow> dur \<Rightarrow> dur \<Rightarrow> ('a os_scheme, unit_result) call" where
  "UnitMain others w1 w2 slow fast w = do {
     (ok, w) \<leftarrow> clones_vfc w;
     if \<not> ok then Some (Exited 1, w)
     else do {
       outcome \<leftarrow> clones_plc others w1 w2;
       if outcome = Std_terminate then Some (Terminated, w)
       else do {
         (ok, w) \<leftarrow> slowclock slow w;
         if \<not> ok then Some (Exited 1, w)
         else do {
           (ok, w) \<leftarrow> fastclock fast w;
           if \<not> ok then Some (Exited 1, w)
           else do {
             (ok, w) \<leftarrow> speedyclocks w;
             Some (Exited (if \<not> ok then 1 else 0), w)
           }
         }
       }
     }
   }"

section \<open>The loop\<close>

text \<open>A clock that was created at \<open>s\<close> and is read at \<open>r\<close>, not before.\<close>

lemma created_getValue:
  assumes "sint s \<le> sint (sys_time w)" "\<bar>sint s\<bar> \<le> 2 ^ 61" "v = \<lparr>frequency = f, markerSrc = s, marker = tp0, rolledOver = False\<rparr>"
  shows "VariableFrequencyClock_getValue SystemClock_getValue (v, w)
    = Some (scaled_ticks f (sys_time w - s), (v, w\<lparr>sys_reads := Suc (sys_reads w)\<rparr>))"
    "sint (sys_time w - s) = sint (sys_time w) - sint s"
proof -
  have b: "sint (sys_time w) < 2 ^ 62" using sys_time_bounds [of w] by simp
  have i: "in_int64 (sint (sys_time w) - sint s)" using b assms(1,2) by (simp add: in_int64_def abs_le_iff)
  show d: "sint (sys_time w - s) = sint (sys_time w) - sint s" by (rule sint_diff_int64 [OF i])
  have "s \<noteq> tpInvalid" using assms(2) by (simp add: valid_iff abs_le_iff)
  then have "diff (sys_time w) s = sys_time w - s" by (simp add: diff_def)
  moreover have "sys_time w - s \<noteq> durInvalid" "\<not> sys_time w - s <s 0"
    using d b assms(1,2) by (simp_all add: valid_iff word_sless_alt abs_le_iff)
  moreover have "tp0 \<noteq> tpInvalid" by (simp add: tp0_def)
  ultimately have "vfc_value v (sys_time w) = scaled_ticks f (sys_time w - s)" "vfc_roll v (sys_time w) = v"
    by (simp_all add: assms(3) vfc_value_def vfc_roll_def tp0_def)
  then show "VariableFrequencyClock_getValue SystemClock_getValue (v, w)
    = Some (scaled_ticks f (sys_time w - s), (v, w\<lparr>sys_reads := Suc (sys_reads w)\<rparr>))"
    by (simp add: vfc_getValue_read [OF _ SystemClock_getValue_eq] assms(3))
qed

lemma abs64_less: "\<bar>sint d\<bar> \<le> sint t \<Longrightarrow> \<not> t <s abs64 d"
proof -
  assume d: "\<bar>sint d\<bar> \<le> sint t"
  then have "in_int64 (- sint d)" using sint_int64_bounds [of t] by (simp add: in_int64_def abs_le_iff)
  with d show ?thesis by (auto simp: abs64_def word_sless_alt sint_minus_int64)
qed

text \<open>What one turn compares, when the two clocks were created at \<open>s1\<close> and \<open>s2\<close> and are read at \<open>r1\<close> and \<open>r2\<close>.\<close>

definition compared :: "double \<Rightarrow> double \<Rightarrow> tp \<Rightarrow> tp \<Rightarrow> tp \<Rightarrow> tp \<Rightarrow> dur" where
  "compared f1 f2 s1 s2 r1 r2 = diff (scaled_ticks f1 (r1 - s1)) (scaled_ticks f2 (r2 - s2))"

abbreviation created :: "double \<Rightarrow> tp \<Rightarrow> vfc" where
  "created f s \<equiv> \<lparr>frequency = f, markerSrc = s, marker = tp0, rolledOver = False\<rparr>"

text \<open>The readings of the \<open>j\<close>-th turn are not earlier than the creation.\<close>

definition later :: "tp \<Rightarrow> tp \<Rightarrow> 'a os_scheme \<Rightarrow> nat \<Rightarrow> bool" where
  "later s1 s2 w j \<longleftrightarrow> \<bar>sint s1\<bar> \<le> 2 ^ 61 \<and> \<bar>sint s2\<bar> \<le> 2 ^ 61
    \<and> sint s1 \<le> read_at w (2 * j) \<and> sint s2 \<le> read_at w (2 * j + 1)"

lemma compare_turn:
  assumes "0 <s rt - st" "later s1 s2 w 0"
  shows "compare_loop \<lparr>step = st, runtime = rt\<rparr> d g tol (created f1 s1) (created f2 s2) w =
    (let w' = w\<lparr>sys_reads := sys_reads w + 2\<rparr> in
     if tol <s abs64 (compared f1 f2 s1 s2 (reading w (sys_reads w)) (reading w (sys_reads w + 1)) - (d + g)) then Some (False, w')
     else compare_loop \<lparr>step = st, runtime = rt - st\<rparr> (d + g) g tol (created f1 s1) (created f2 s2) w')"
proof -
  let ?w1 = "w\<lparr>sys_reads := Suc (sys_reads w)\<rparr>"
  have l: "sint s1 \<le> sint (sys_time w)" "sint s2 \<le> sint (sys_time ?w1)" "\<bar>sint s1\<bar> \<le> 2 ^ 61" "\<bar>sint s2\<bar> \<le> 2 ^ 61"
    using assms(2) by (simp_all add: later_def read_at_def sys_time_reading)
  note g1 = created_getValue(1) [OF l(1,3) refl, of f1] and g2 = created_getValue(1) [OF l(2,4) refl, of f2]
  show ?thesis
    using assms(1) g1 g2
    by (subst compare_loop.simps) (simp add: Countdown_bool_def compared_def sys_time_reading numeral_2_eq_2 Let_def)
qed

lemma compare_end: "\<not> 0 <s rt - st \<Longrightarrow> compare_loop \<lparr>step = st, runtime = rt\<rparr> d g tol c1 c2 w = Some (True, w)"
  by (subst compare_loop.simps) (simp add: Countdown_bool_def)

lemma running_down:
  fixes st :: dur
  assumes "0 < sint st" "int (Suc n) * sint st < 2 ^ 62"
  shows "0 <s of_nat (Suc n) * st"
proof -
  have p: "0 < int (Suc n) * sint st" using assms(1) by simp
  with assms(2) have i: "in_int64 (int (Suc n) * sint st)" by (simp add: in_int64_def del: of_nat_Suc)
  have "of_nat (Suc n) * st = word_of_int (int (Suc n) * sint st)" by simp
  then have "sint (of_nat (Suc n) * st) = int (Suc n) * sint st" using i by (simp only: sint_of_int64)
  then show ?thesis using p by (simp only: word_sless_alt sint_0)
qed

lemma compare_passes:
  assumes "rt = of_nat (Suc n) * st" "0 < sint st" "int (Suc n) * sint st < 2 ^ 62"
    and "\<And>j. j < n \<Longrightarrow> later s1 s2 w j \<and> \<not> tol <s abs64 (compared f1 f2 s1 s2
      (reading w (sys_reads w + 2 * j)) (reading w (sys_reads w + (2 * j + 1))) - (d + of_nat (Suc j) * g))"
  shows "compare_loop \<lparr>step = st, runtime = rt\<rparr> d g tol (created f1 s1) (created f2 s2) w
    = Some (True, w\<lparr>sys_reads := sys_reads w + 2 * n\<rparr>)"
  using assms
proof (induction n arbitrary: rt d w)
  case 0
  then show ?case by (simp add: compare_end)
next
  case (Suc n)
  have r: "rt - st = of_nat (Suc n) * st" using Suc.prems(1) by (simp add: algebra_simps)
  have "int (Suc n) * sint st < 2 ^ 62" using Suc.prems(2,3) by (simp add: algebra_simps)
  then have p: "0 <s rt - st" unfolding r by (rule running_down [OF Suc.prems(2)])
  have z: "later s1 s2 w 0" "\<not> tol <s abs64 (compared f1 f2 s1 s2 (reading w (sys_reads w)) (reading w (sys_reads w + 1)) - (d + g))"
    using Suc.prems(4) [of 0] by simp_all
  let ?w = "w\<lparr>sys_reads := sys_reads w + 2\<rparr>"
  have "compare_loop \<lparr>step = st, runtime = rt - st\<rparr> (d + g) g tol (created f1 s1) (created f2 s2) ?w
      = Some (True, ?w\<lparr>sys_reads := sys_reads ?w + 2 * n\<rparr>)"
  proof (rule Suc.IH [OF r Suc.prems(2)])
    show "int (Suc n) * sint st < 2 ^ 62" using Suc.prems(2,3) by (simp add: algebra_simps)
    fix j
    assume "j < n"
    with Suc.prems(4) [of "Suc j"] show "later s1 s2 ?w j \<and> \<not> tol <s abs64 (compared f1 f2 s1 s2
      (reading ?w (sys_reads ?w + 2 * j)) (reading ?w (sys_reads ?w + (2 * j + 1))) - (d + g + of_nat (Suc j) * g))"
      by (simp add: later_def read_at_def algebra_simps)
  qed
  then show ?case using z by (simp add: compare_turn [OF p z(1)] Let_def)
qed

section \<open>Clones agree\<close>

lemma created_pair:
  "VariableFrequencyClock_new SystemClock_getValue f w = Some (created f (reading w (sys_reads w)), w\<lparr>sys_reads := Suc (sys_reads w)\<rparr>)"
  by (simp add: VariableFrequencyClock_new_def SystemClock_getValue_eq sys_time_reading)

lemma sint_reading_diff:
  fixes r s :: int64
  assumes "\<bar>sint s\<bar> \<le> 2 ^ 61" "0 \<le> sint r - sint s" "sint r - sint s \<le> 2 ^ 53"
  shows "sint (r - s) = sint r - sint s"
  using assms by (intro sint_diff_int64) (simp add: in_int64_def)


section \<open>The slow clock\<close>

text \<open>The clock that runs one percent slow loses a hundredth of the time, up to 6 microseconds.\<close>

lemma slow_compared:
  assumes "\<bar>sint s1\<bar> \<le> 2 ^ 60" "sint s1 \<le> sint s2" "sint s2 - sint s1 \<le> 4" "sint s2 \<le> sint r1" "sint r1 \<le> sint r2"
    and "sint r2 - sint r1 \<le> 4" "sint r2 - sint s1 \<le> 1000000"
  shows "\<bar>of_int (sint (compared (Fin 1000000) (Fin 990000) s1 s2 r1 r2)) - of_int (sint r1 - sint s1) / 100\<bar> \<le> (6 :: rat)"
proof -
  have b: "\<bar>sint s1\<bar> \<le> 2 ^ 61" "\<bar>sint s2\<bar> \<le> 2 ^ 61" using assms(1-3) by (simp_all add: abs_le_iff)
  have d: "sint (r1 - s1) = sint r1 - sint s1" "sint (r2 - s2) = sint r2 - sint s2"
    by (rule sint_reading_diff; use b assms(2-7) in simp)+
  have n: "scaled_ticks (Fin 1000000) (r1 - s1) = r1 - s1"
    by (rule scaled_ticks_nominal) (use d assms(2-7) in simp)
  let ?y = "scaled_ticks (Fin 990000) (r2 - s2)"
  have "0 \<le> sint (r2 - s2)" "sint (r2 - s2) \<le> 10000000" using d assms(2-7) by simp_all
  moreover have "(900000 :: rat) \<le> 990000" "(990000 :: rat) \<le> 1100000" by simp_all
  ultimately have t: "of_int (sint ?y) - of_int (sint r2 - sint s2) * 990000 / 1000000 \<le> (1 + 1 / 1000 :: rat)"
    "of_int (sint r2 - sint s2) * 990000 / 1000000 - of_int (sint ?y) \<le> (1 + 1 / 1000 :: rat)" "\<bar>sint ?y\<bar> \<le> 2 ^ 30"
    using ticks_error [of 990000 "r2 - s2"] unfolding d by blast+
  have v: "r1 - s1 \<noteq> tpInvalid" "?y \<noteq> tpInvalid"
    unfolding valid_iff using d t(3) assms(2-7) by (simp_all add: abs_le_iff)
  have "sint (diff (r1 - s1) ?y) = sint r1 - sint s1 - sint ?y"
    unfolding d(1) [symmetric] by (rule sint_diff [OF v]) (use d t(3) assms(2-7) in \<open>simp add: in_int64_def abs_le_iff\<close>)
  then have c: "sint (compared (Fin 1000000) (Fin 990000) s1 s2 r1 r2) = sint r1 - sint s1 - sint ?y"
    by (simp add: compared_def n)
  have "(of_int (sint s2 - sint s1) :: rat) \<le> 4" "(of_int (sint r2 - sint r1) :: rat) \<le> 4"
    "(0 :: rat) \<le> of_int (sint s2 - sint s1)" "(0 :: rat) \<le> of_int (sint r2 - sint r1)"
    using assms(2,3,5,6) by (simp_all only: of_int_le_iff of_int_0_le_iff of_int_le_numeral_iff)
  then show ?thesis using t(1,2) unfolding c abs_le_iff of_int_diff by (simp add: field_simps)
qed

lemma hundredth: "\<bar>c - r / 100\<bar> \<le> 6 \<Longrightarrow> \<bar>100 * c - r\<bar> \<le> (600 :: rat)"
  by (simp add: abs_le_iff field_simps)

lemma slowclock_loop:
  "slowclock drift w = compare_loop \<lparr>step = 10000, runtime = 250000\<rparr> drift 100 100 (created (Fin 1000000) (reading w (sys_reads w)))
    (created (Fin 990000) (reading w (sys_reads w + 1))) (w\<lparr>sys_reads := sys_reads w + 2\<rparr>)"
  by (simp add: slowclock_def created_pair numeral_2_eq_2)

text \<open>The readings that the test takes: the two creations, and two in every turn, no turn being more than 9 milliseconds away from
  where the sleeps should put it.\<close>

definition on_schedule :: "'a os_scheme \<Rightarrow> bool" where
  "on_schedule w \<longleftrightarrow> \<bar>read_at w 0\<bar> \<le> 2 ^ 60 \<and> read_at w 0 \<le> read_at w 1 \<and> read_at w 1 - read_at w 0 \<le> 4
    \<and> (\<forall>j < 24. read_at w 1 \<le> read_at w (2 * j + 2) \<and> read_at w (2 * j + 2) \<le> read_at w (2 * j + 3)
      \<and> read_at w (2 * j + 3) - read_at w (2 * j + 2) \<le> 4
      \<and> \<bar>read_at w (2 * j + 2) - read_at w 0 - 10000 * (int j + 1)\<bar> \<le> 9000)"

text \<open>What the \<open>j\<close>-th turn compares.\<close>

definition slow_turn :: "'a os_scheme \<Rightarrow> nat \<Rightarrow> dur" where
  "slow_turn w j = compared (Fin 1000000) (Fin 990000) (reading w (sys_reads w)) (reading w (sys_reads w + 1))
    (reading w (sys_reads w + (2 * j + 2))) (reading w (sys_reads w + (2 * j + 3)))"

lemma slow_turn:
  assumes "on_schedule w" "j < 24"
  shows "\<bar>sint (slow_turn w j) - 100 * (int j + 1)\<bar> \<le> 100"
    "later (reading w (sys_reads w)) (reading w (sys_reads w + 1)) (w\<lparr>sys_reads := sys_reads w + 2\<rparr>) j"
proof -
  define t0 t1 r1 r2 where t: "t0 = read_at w 0" "t1 = read_at w 1" "r1 = read_at w (2 * j + 2)" "r2 = read_at w (2 * j + 3)"
  have a: "\<bar>t0\<bar> \<le> 2 ^ 60" "t0 \<le> t1" "t1 - t0 \<le> 4" "t1 \<le> r1" "r1 \<le> r2" "r2 - r1 \<le> 4" "\<bar>r1 - t0 - 10000 * (int j + 1)\<bar> \<le> 9000"
    using assms unfolding on_schedule_def t by blast+
  have s: "sint (reading w (sys_reads w)) = t0" "sint (reading w (sys_reads w + 1)) = t1"
    "sint (reading w (sys_reads w + (2 * j + 2))) = r1" "sint (reading w (sys_reads w + (2 * j + 3))) = r2"
    by (simp_all only: t read_at_def add_0_right)
  have "r2 - t0 \<le> 1000000" using a(6,7) assms(2) by (simp add: abs_le_iff)
  then have "\<bar>of_int (sint (slow_turn w j)) - of_int (r1 - t0) / 100\<bar> \<le> (6 :: rat)"
    using slow_compared [of "reading w (sys_reads w)" "reading w (sys_reads w + 1)" "reading w (sys_reads w + (2 * j + 2))"
      "reading w (sys_reads w + (2 * j + 3))", unfolded s, OF a(1-6)] by (simp only: slow_turn_def)
  then have "\<bar>100 * of_int (sint (slow_turn w j)) - of_int (r1 - t0)\<bar> \<le> (600 :: rat)" by (rule hundredth)
  then have "\<bar>of_int (100 * sint (slow_turn w j) - (r1 - t0))\<bar> \<le> (600 :: rat)"
    by (simp only: of_int_diff [of "100 * sint (slow_turn w j)"] of_int_mult of_int_numeral)
  then have "\<bar>100 * sint (slow_turn w j) - (r1 - t0)\<bar> \<le> 600" by (metis of_int_abs of_int_le_iff of_int_numeral)
  with a(7) show "\<bar>sint (slow_turn w j) - 100 * (int j + 1)\<bar> \<le> 100" by (simp add: abs_le_iff)
  have "read_at (w\<lparr>sys_reads := sys_reads w + 2\<rparr>) (2 * j) = r1" "read_at (w\<lparr>sys_reads := sys_reads w + 2\<rparr>) (2 * j + 1) = r2"
    by (simp_all add: t read_at_def ac_simps numeral_3_eq_3)
  with a show "later (reading w (sys_reads w)) (reading w (sys_reads w + 1)) (w\<lparr>sys_reads := sys_reads w + 2\<rparr>) j"
    by (simp add: later_def s [simplified] abs_le_iff)
qed

lemma grown: "j < 24 \<Longrightarrow> sint (0 + of_nat (Suc j) * 100 :: dur) = 100 * (int j + 1)"
proof -
  assume "j < 24"
  then have i: "in_int64 (100 * (int j + 1))" by (simp add: in_int64_def)
  have e: "0 + of_nat (Suc j) * 100 = (word_of_int (100 * (int j + 1)) :: dur)" by (simp add: algebra_simps)
  show ?thesis by (simp only: e sint_of_int64 [OF i])
qed

lemma slow_turn_passes:
  assumes "on_schedule w" "j < 24"
  shows "\<not> 100 <s abs64 (slow_turn w j - (0 + of_nat (Suc j) * 100))"
proof (rule abs64_less)
  have g: "sint (0 + of_nat (Suc j) * 100 :: dur) = 100 * (int j + 1)" by (rule grown [OF assms(2)])
  have t: "\<bar>sint (slow_turn w j) - 100 * (int j + 1)\<bar> \<le> 100" by (rule slow_turn(1) [OF assms])
  have "sint (slow_turn w j - (0 + of_nat (Suc j) * 100)) = sint (slow_turn w j) - 100 * (int j + 1)"
    unfolding g [symmetric] by (rule sint_diff_int64) (use t in \<open>unfold g, simp add: in_int64_def abs_le_iff\<close>)
  with t show "\<bar>sint (slow_turn w j - (0 + of_nat (Suc j) * 100))\<bar> \<le> sint (100 :: dur)" by simp
qed

lemma slow_turn_garbage:
  assumes "on_schedule w" "20000 \<le> sint drift" "sint drift \<le> 2 ^ 61"
  shows "100 <s abs64 (slow_turn w 0 - (drift + 100))"
proof -
  have t: "\<bar>sint (slow_turn w 0) - 100\<bar> \<le> 100" using slow_turn(1) [OF assms(1), of 0] by simp
  have g: "sint (drift + 100) = sint drift + 100"
    using assms(2,3) by (subst sint_add_int64) (simp_all add: in_int64_def)
  have d: "sint (slow_turn w 0 - (drift + 100)) = sint (slow_turn w 0) - (sint drift + 100)"
    unfolding g [symmetric] by (rule sint_diff_int64) (use t assms(2,3) in \<open>simp add: g in_int64_def abs_le_iff\<close>)
  then have "sint (- (slow_turn w 0 - (drift + 100))) = sint drift + 100 - sint (slow_turn w 0)"
    using t assms(2,3) by (subst sint_minus_int64) (simp_all add: in_int64_def abs_le_iff)
  then show ?thesis using d t assms(2,3) by (simp add: abs64_def word_sless_alt abs_le_iff)
qed


lemma slow_turn_compared:
  fixes w :: "'a os_scheme"
  shows "compared (Fin 1000000) (Fin 990000) (reading w (sys_reads w)) (reading w (sys_reads w + 1))
    (reading (w\<lparr>sys_reads := sys_reads w + 2\<rparr>) (sys_reads w + 2 + 2 * j))
    (reading (w\<lparr>sys_reads := sys_reads w + 2\<rparr>) (sys_reads w + 2 + (2 * j + 1))) = slow_turn w j"
proof -
  have i: "sys_reads w + 2 + 2 * j = sys_reads w + (2 * j + 2)" "sys_reads w + 2 + (2 * j + 1) = sys_reads w + (2 * j + 3)" by simp_all
  show ?thesis unfolding i slow_turn_def by (simp only: reading_update)
qed

lemma slowclock_passes:
  fixes w :: "'a os_scheme"
  assumes "on_schedule w"
  shows "slowclock 0 w = Some (True, w\<lparr>sys_reads := sys_reads w + 50\<rparr>)"
proof -
  let ?w = "w\<lparr>sys_reads := sys_reads w + 2\<rparr>"
  have "slowclock 0 w = Some (True, ?w\<lparr>sys_reads := sys_reads ?w + 2 * 24\<rparr>)"
    unfolding slowclock_loop
  proof (rule compare_passes)
    fix j :: nat
    assume j: "j < 24"
    have "sys_reads ?w = sys_reads w + 2" by simp
    then show "later (reading w (sys_reads w)) (reading w (sys_reads w + 1)) ?w j
      \<and> \<not> 100 <s abs64 (compared (Fin 1000000) (Fin 990000) (reading w (sys_reads w)) (reading w (sys_reads w + 1))
        (reading ?w (sys_reads ?w + 2 * j)) (reading ?w (sys_reads ?w + (2 * j + 1))) - (0 + of_nat (Suc j) * 100))"
      using slow_turn(2) [OF assms j] slow_turn_passes [OF assms j] by (simp only: slow_turn_compared simp_thms)
  qed simp_all
  then show ?thesis by simp
qed

lemma slowclock_garbage:
  fixes w :: "'a os_scheme"
  assumes "on_schedule w" "20000 \<le> sint drift" "sint drift \<le> 2 ^ 61"
  shows "slowclock drift w = Some (False, w\<lparr>sys_reads := sys_reads w + 4\<rparr>)"
proof -
  have l: "later (reading w (sys_reads w)) (reading w (sys_reads w + 1)) (w\<lparr>sys_reads := sys_reads w + 2\<rparr>) 0"
    by (rule slow_turn(2) [OF assms(1)]) simp
  have "0 <s (250000 - 10000 :: dur)" by (simp add: word_sless_alt)
  note t = compare_turn [OF this l, of drift 100 100 "Fin 1000000" "Fin 990000"]
  have c: "compared (Fin 1000000) (Fin 990000) (reading w (sys_reads w)) (reading w (sys_reads w + 1))
    (reading (w\<lparr>sys_reads := sys_reads w + 2\<rparr>) (sys_reads w + 2)) (reading (w\<lparr>sys_reads := sys_reads w + 2\<rparr>) (sys_reads w + 2 + 1))
    = slow_turn w 0" using slow_turn_compared [of w 0] by (simp only: mult_0_right add_0_right add_0_left)
  have r: "sys_reads (w\<lparr>sys_reads := sys_reads w + 2\<rparr>) = sys_reads w + 2" by simp
  show ?thesis unfolding slowclock_loop t r c Let_def using slow_turn_garbage [OF assms] by simp
qed

section \<open>The tests on a concrete clock\<close>

text \<open>A system clock whose readings come in pairs, ten milliseconds apart.\<close>

definition paired_os :: os where
  "paired_os = \<lparr>sys_now = (\<lambda>n. of_nat (n div 2) * 10000000), sys_reads = 0, selects = [], waited = [], recvs = [],
     sendtos = [], sent = [], cout = []\<rparr>"

lemma read_paired: "i < 100 \<Longrightarrow> read_at paired_os i = 10000 * int (i div 2)"
proof -
  assume "i < 100"
  define k where "k = int (i div 2)"
  have k: "0 \<le> k" "k < 50" using \<open>i < 100\<close> by (simp_all add: k_def)
  have n: "sys_now paired_os i = word_of_int (k * 10000000)" by (simp add: paired_os_def k_def)
  have "in_int64 (k * 10000000)" using k by (simp add: in_int64_def)
  then have "sint (sys_now paired_os i) = k * 10000000" unfolding n by (rule sint_of_int64)
  then have "sint (cdiv (sys_now paired_os i) 1000) = k * 10000000 sdiv 1000" by (simp add: sint_cdiv)
  also have "\<dots> = 10000 * k" using k by (simp add: signed_divide_int_def sgn_if)
  finally show ?thesis by (simp add: read_at_def reading_def k_def paired_os_def)
qed

lemma read_paired_turn:
  "j < 49 \<Longrightarrow> read_at paired_os (2 * j + 2) = 10000 * (int j + 1)" "j < 49 \<Longrightarrow> read_at paired_os (2 * j + 3) = 10000 * (int j + 1)"
  "read_at paired_os 0 = 0" "read_at paired_os 1 = 0"
  by (simp_all add: read_paired)

lemma paired_on_schedule: "on_schedule paired_os"
proof -
  have "read_at paired_os 1 \<le> read_at paired_os (2 * j + 2) \<and> read_at paired_os (2 * j + 2) \<le> read_at paired_os (2 * j + 3)
    \<and> read_at paired_os (2 * j + 3) - read_at paired_os (2 * j + 2) \<le> 4
    \<and> \<bar>read_at paired_os (2 * j + 2) - read_at paired_os 0 - 10000 * (int j + 1)\<bar> \<le> 9000" if "j < 24" for j
  proof -
    from that have "j < 49" by simp
    note t = read_paired_turn(1) [OF this] read_paired_turn(2) [OF this]
    show ?thesis unfolding t read_paired_turn(3,4) by simp
  qed
  then show ?thesis unfolding on_schedule_def read_paired_turn(3,4) by simp
qed



text \<open>The test of a slow clock passes if the variable \<open>drift\<close>, which it does not initialize, happens to be 0, on every
  system clock on which no turn is more than 9 milliseconds away from where the sleeps should put it, and the two clocks are created, and
  in each turn read, within 4 microseconds of each other.  On the same system clock it fails in its first turn if the variable
  happens to hold 20 milliseconds or more, up to \<open>2 ^ 61\<close> microseconds.\<close>

theorem slowclock_drift_uninitialized:
  fixes w :: "'a os_scheme"
  assumes "on_schedule w"
  shows "slowclock 0 w = Some (True, w\<lparr>sys_reads := sys_reads w + 50\<rparr>)
    \<and> (\<forall>drift. 20000 \<le> sint drift \<and> sint drift \<le> 2 ^ 61 \<longrightarrow> slowclock drift w = Some (False, w\<lparr>sys_reads := sys_reads w + 4\<rparr>))"
  using slowclock_passes [OF assms] slowclock_garbage [OF assms] by blast

theorem slowclock_drift_uninitialized_witness:
  "fst (the (slowclock 0 paired_os)) \<and> \<not> fst (the (slowclock 1000000 paired_os))"
proof -
  have "20000 \<le> sint (1000000 :: dur) \<and> sint (1000000 :: dur) \<le> 2 ^ 61" by simp
  then have "slowclock 0 paired_os = Some (True, paired_os\<lparr>sys_reads := sys_reads paired_os + 50\<rparr>)
    \<and> slowclock 1000000 paired_os = Some (False, paired_os\<lparr>sys_reads := sys_reads paired_os + 4\<rparr>)"
    using slowclock_drift_uninitialized [OF paired_on_schedule] by blast
  then show ?thesis by simp
qed

section \<open>Clones of the control loop\<close>

text \<open>Two clocks that a test finds in agreement.\<close>

definition agreeing :: "plc \<times> plc \<Rightarrow> bool" where
  "agreeing cs \<longleftrightarrow> (\<exists>t1 d1 t2 d2. PhaseLockedClock_getValue SystemClock (fst cs) = Some (t1, d1)
     \<and> PhaseLockedClock_getValue SystemClock (snd cs) = Some (t2, d2) \<and> \<bar>sint (diff t1 t2)\<bar> \<le> 20)"

lemma clones_plc_loop_passes:
  assumes "\<And>n cs. \<exists>cs'. others n cs = Some cs' \<and> agreeing cs'" "0 < sint st"
  shows "int (Suc m) * sint st < 2 ^ 62 \<Longrightarrow> clones_plc_loop others n \<lparr>step = st, runtime = of_nat (Suc m) * st\<rparr> cs = Some Clones_passed"
proof (induction m arbitrary: n cs)
  case 0
  obtain cs' where "others n cs = Some cs'" using assms(1) by blast
  then show ?case by (cases cs') (subst clones_plc_loop.simps, simp add: Countdown_bool_def)
next
  case (Suc m)
  obtain c1 c2 where o: "others n cs = Some (c1, c2)" "agreeing (c1, c2)" using assms(1) [of n cs] by fastforce
  then obtain t1 d1 t2 d2 where g: "PhaseLockedClock_getValue SystemClock c1 = Some (t1, d1)"
    "PhaseLockedClock_getValue SystemClock c2 = Some (t2, d2)" "\<bar>sint (diff t1 t2)\<bar> \<le> 20"
    by (auto simp: agreeing_def)
  have a: "\<not> 20 <s abs64 (diff t1 t2)" by (rule abs64_less) (use g(3) in simp)
  have b: "int (Suc m) * sint st < 2 ^ 62" using Suc.prems assms(2) by (simp add: algebra_simps)
  have r: "of_nat (Suc (Suc m)) * st - st = of_nat (Suc m) * st" by (simp add: algebra_simps)
  note ih = Suc.IH [OF b, of "Suc n" "(d1, d2)"]
  have c: "Countdown_bool \<lparr>step = st, runtime = of_nat (Suc (Suc m)) * st\<rparr> = (True, \<lparr>step = st, runtime = of_nat (Suc m) * st\<rparr>)"
    using running_down [OF assms(2) b] by (simp only: Countdown_bool_def Let_def Countdown.simps r)
  show ?case
    by (subst clones_plc_loop.simps) (simp only: o(1) g(1,2) c ih a Let_def bind.bind_lunit prod.case if_False if_True not_True_eq_False UsecFromDur_def UsecFromTp_def cdiv_1)
qed

lemma clones_plc_new:
  obtains c1 c2 where "PhaseLockedClock_new SystemClock w1 = Some c1" "PhaseLockedClock_new SystemClock w2 = Some c2"
    "clones_plc others w1 w2 = clones_plc_loop others 0 \<lparr>step = 10000, runtime = 250000\<rparr> (c1, c2)"
proof -
  have "\<exists>c. PhaseLockedClock_new SystemClock w = Some c" for w
    by (simp add: PhaseLockedClock_new_def VariableFrequencyClock_new_def SystemClock_simps SystemClock_getValue_eq)
  then obtain c1 c2 where "PhaseLockedClock_new SystemClock w1 = Some c1" "PhaseLockedClock_new SystemClock w2 = Some c2" by meson
  then show thesis by (intro that) (simp_all add: clones_plc_def)
qed

lemma plc_reads: "\<exists>t d. PhaseLockedClock_getValue SystemClock c = Some (t, d) \<and> (\<not> inSync c \<longrightarrow> t = tpInvalid)"
  using vfc_net.reads [of c] by (cases "inSync c") (auto simp: PhaseLockedClock_getValue_def)



end
