(* ===== verification/OrderedMap.thy ===== *)
theory OrderedMap
  imports Prelude "HOL-Library.Char_ord" "HOL-Library.List_Lexorder"
begin

text \<open>
  \<open>std::map\<close>: an association list in strictly increasing order of its keys, with the two
  operations that the program uses, assignment through \<open>operator[]\<close> and \<open>std::erase_if\<close>, and the
  locale of the laws that a client may rely on.  Strings are ordered by their bytes, as the
  library's orders on characters and lists do.
\<close>

fun map_assign :: "'k \<Rightarrow> 'v \<Rightarrow> ('k :: linorder \<times> 'v) list \<Rightarrow> ('k \<times> 'v) list" where
  "map_assign k v [] = [(k, v)]"
| "map_assign k v ((l, u) # m) =
    (if k < l then (k, v) # (l, u) # m else if k = l then (k, v) # m else (l, u) # map_assign k v m)"

definition erase_if :: "('k \<times> 'v \<Rightarrow> bool) \<Rightarrow> ('k \<times> 'v) list \<Rightarrow> ('k \<times> 'v) list" where
  "erase_if P m = filter (\<lambda>a. \<not> P a) m"

fun increasing :: "('k :: linorder \<times> 'v) list \<Rightarrow> bool" where
  "increasing [] = True"
| "increasing ((k, v) # m) = ((\<forall>x\<in>set m. k < fst x) \<and> increasing m)"

section \<open>The laws\<close>

text \<open>The contract of a finite map: \<open>entries\<close> is what iterating over it visits.\<close>

locale finite_map =
  fixes lookup :: "'m \<Rightarrow> 'k \<Rightarrow> 'v option"
    and assign :: "'k \<Rightarrow> 'v \<Rightarrow> 'm \<Rightarrow> 'm"
    and erase :: "('k \<times> 'v \<Rightarrow> bool) \<Rightarrow> 'm \<Rightarrow> 'm"
    and entries :: "'m \<Rightarrow> ('k \<times> 'v) list"
    and wf :: "'m \<Rightarrow> bool"
  assumes wf_assign: "wf m \<Longrightarrow> wf (assign k v m)"
    and wf_erase: "wf m \<Longrightarrow> wf (erase P m)"
    and lookup_assign: "wf m \<Longrightarrow> lookup (assign k v m) = (lookup m)(k \<mapsto> v)"
    and lookup_erase: "wf m \<Longrightarrow> lookup (erase P m) k =
          (case lookup m k of None \<Rightarrow> None | Some v \<Rightarrow> if P (k, v) then None else Some v)"
    and entries_lookup: "wf m \<Longrightarrow> (k, v) \<in> set (entries m) \<longleftrightarrow> lookup m k = Some v"
    and distinct_entries: "wf m \<Longrightarrow> distinct (map fst (entries m))"
begin

text \<open>An entry is set and the old ones are thrown away.\<close>

lemma wf_refresh: "wf m \<Longrightarrow> wf (erase P (assign k v m))"
  by (intro wf_erase wf_assign)

lemma lookup_refresh:
  "wf m \<Longrightarrow> lookup (erase P (assign k v m)) l =
    (if l = k then if P (k, v) then None else Some v
     else case lookup m l of None \<Rightarrow> None | Some u \<Rightarrow> if P (l, u) then None else Some u)"
  by (simp add: lookup_erase wf_assign lookup_assign)

lemma entries_refresh:
  "wf m \<Longrightarrow> x \<in> set (entries (erase P (assign k v m))) \<longleftrightarrow>
    \<not> P x \<and> (x = (k, v) \<or> fst x \<noteq> k \<and> x \<in> set (entries m))"
  by (cases x) (auto simp: entries_lookup wf_refresh lookup_refresh split: option.splits if_splits)

lemma dom_entries: "wf m \<Longrightarrow> dom (lookup m) = fst ` set (entries m)"
proof (intro set_eqI iffI)
  assume m: "wf m"
  fix k
  show "k \<in> fst ` set (entries m)" if "k \<in> dom (lookup m)"
    using that entries_lookup [OF m] by (metis domD fst_conv image_eqI)
  show "k \<in> dom (lookup m)" if "k \<in> fst ` set (entries m)"
    using that entries_lookup [OF m] by force
qed

end

section \<open>The association list keeps them\<close>

lemma set_map_assign: "increasing m \<Longrightarrow> set (map_assign k v m) = insert (k, v) {x \<in> set m. fst x \<noteq> k}"
  by (induction m rule: increasing.induct) auto

lemma increasing_map_assign: "increasing m \<Longrightarrow> increasing (map_assign k v m)"
  by (induction m rule: increasing.induct) (auto simp: set_map_assign)

lemma increasing_erase_if: "increasing m \<Longrightarrow> increasing (erase_if P m)"
  by (induction m rule: increasing.induct) (auto simp: erase_if_def)

lemma increasing_distinct: "increasing m \<Longrightarrow> distinct (map fst m)"
  by (induction m rule: increasing.induct) force+

lemma map_of_map_assign: "increasing m \<Longrightarrow> map_of (map_assign k v m) = (map_of m)(k \<mapsto> v)"
  by (induction m rule: increasing.induct) auto

lemma map_of_erase_if:
  "increasing m \<Longrightarrow> map_of (erase_if P m) k =
    (case map_of m k of None \<Rightarrow> None | Some v \<Rightarrow> if P (k, v) then None else Some v)"
proof (induction m rule: increasing.induct)
  case (2 l u m)
  have "map_of m l = None" using 2(2) by (auto simp: map_of_eq_None_iff)
  then show ?case using 2 by (auto simp: erase_if_def)
qed (simp add: erase_if_def)

interpretation std_map: finite_map map_of map_assign erase_if "\<lambda>m. m" increasing
  by unfold_locales
    (simp_all add: increasing_map_assign increasing_erase_if map_of_map_assign map_of_erase_if
      increasing_distinct map_of_eq_Some_iff)

end
