(* ===== verification/ClockServer.thy ===== *)
theory ClockServer
  imports Kissnet ClockPacket OrderedMap
begin

text \<open>
  \<open>ClockServer\<close>: it answers requests for the time over UDP, and keeps for every client the last state
  of synchronization that the client acknowledged.  The object's fields extend the state of
  \<open>Platform\<close>; the clock it serves is an argument, any call on that state.

  \<open>run\<close> is a loop over what \<open>recvfrom\<close> returns.  It ends when a \<open>KILL\<close> packet comes
  (\<open>Killed\<close>) or on a fatal socket error (\<open>Failed\<close>, on which the handler exits), and otherwise waits in
  \<open>recv\<close> when nothing is left (\<open>Waiting\<close>); each turn takes one result of \<open>recvfrom\<close>, so the fuel
  \<open>Suc (length (recvs w))\<close> is enough (\<open>server_loop_fuel\<close>).  The whole call is \<open>None\<close> only if the clock's
  \<open>getValue\<close> does not return.  Messages on standard error are not modelled.

  The lemmas give the effect of every kind of packet, the refinement of the stored states to a
  finite map, and what the printed maximum offset stands for.
\<close>

record Entry =
  entry_time :: tp
  entry_offset :: dur
  entry_rtt :: dur

record server = os +
  addr_port :: endpoint
  ackData :: "(string \<times> Entry) list"
  log :: bool
  tRecalculated :: tp

definition ClockServer_new ::
  "endpoint \<Rightarrow> (os, tp) call \<Rightarrow> error_state \<Rightarrow> os \<Rightarrow> (error_state \<times> server) option" where
  "ClockServer_new ap clockGetValue e w = do {
     (t, w) \<leftarrow> clockGetValue w;
     Some (kissnet_init e, os.extend w \<lparr>addr_port = ap, ackData = [], log = False, tRecalculated = t\<rparr>)
   }"

definition setLogging :: "bool \<Rightarrow> 'a server_scheme \<Rightarrow> 'a server_scheme" where
  "setLogging l w = w\<lparr>log := l\<rparr>"

section \<open>The acknowledged states\<close>

text \<open>\<^verbatim>\<open>std::abs\<close> and \<^verbatim>\<open>std::max\<close> on \<open>int64_t\<close>.\<close>

definition cabs :: "int64 \<Rightarrow> int64" where
  "cabs a = (if a <s 0 then - a else a)"

definition cmax :: "int64 \<Rightarrow> int64 \<Rightarrow> int64" where
  "cmax a b = (if a <s b then b else a)"

fun recalculate :: "(string \<times> Entry) list \<Rightarrow> int64 \<Rightarrow> int64" where
  "recalculate [] offsetMax = offsetMax"
| "recalculate ((_, entry) # rest) offsetMax =
    (if entry_offset entry = durInvalid \<or> entry_rtt entry = durInvalid then usecInvalid
     else recalculate rest
       (cmax offsetMax (cabs (UsecFromDur (entry_offset entry)) + cdiv (UsecFromDur (entry_rtt entry)) 2)))"

definition tab :: string where
  "tab = [CHR 0x09]"

definition updateEntry :: "string \<Rightarrow> dur \<Rightarrow> dur \<Rightarrow> tp \<Rightarrow> 'a server_scheme \<Rightarrow> 'a server_scheme" where
  "updateEntry addr offset r now w =
    (if \<not> log w then w
     else
       let nowStr = StringFromTp now;
           w = w\<lparr>cout := cout w @ [nowStr @ '' '' @ addr @ tab @ show_int (sint (UsecFromDur offset)) @ tab
                   @ show_int (sint (UsecFromDur r))]\<rparr>;
           w = w\<lparr>ackData := map_assign addr \<lparr>entry_time = now, entry_offset = offset, entry_rtt = r\<rparr> (ackData w)\<rparr>
       in if now <s tRecalculated w + 500000 then w
          else
            let w = w\<lparr>tRecalculated := now\<rparr>;
                tPurge = now - 1500000;
                w = w\<lparr>ackData := erase_if (\<lambda>a. entry_time (snd a) <s tPurge) (ackData w)\<rparr>;
                offsetMax = recalculate (ackData w) 0
            in w\<lparr>cout := cout w @ [nowStr @ '' '' @ ''offsetMax'' @ tab @ show_int (sint offsetMax) @ tab @ ''---'']\<rparr>)"

section \<open>The loop\<close>

datatype server_status = Waiting | Killed | Failed string

text \<open>What one received packet does: whether the loop goes on, the new buffer and the new state.\<close>

definition handle_packet ::
  "udp_socket \<Rightarrow> byte list \<Rightarrow> tp \<Rightarrow> string \<Rightarrow> ('a server_scheme, bool \<times> byte list) call" where
  "handle_packet socket buffer now peer_address w =
    (let packet = ClockPacket_read buffer in
     case type packet of
       REQUEST \<Rightarrow>
         let packet = setServerReplyTime now (setType REPLY packet);
             buffer = ClockPacket_write packet
         in do {
           (_, w) \<leftarrow> udp_send socket (take PACKET_LENGTH buffer) (Some (socket_input socket)) w;
           Some ((True, buffer), w)
         }
     | ACKNOWLEDGE \<Rightarrow> Some ((True, buffer), updateEntry peer_address (getClockOffset packet) (rtt packet) now w)
     | KILL \<Rightarrow> Some ((False, buffer), w)
     | _ \<Rightarrow> Some ((True, buffer), w))"

fun server_loop ::
  "nat \<Rightarrow> ('a server_scheme, tp) call \<Rightarrow> udp_socket \<Rightarrow> byte list \<Rightarrow> ('a server_scheme, server_status) call" where
  "server_loop 0 clockGetValue socket buffer w = Some (Waiting, w)"
| "server_loop (Suc fuel) clockGetValue socket buffer w =
    (case udp_recv socket buffer w of
       None \<Rightarrow> Some (Waiting, w)
     | Some (((num_bytes, status), buffer, socket), w) \<Rightarrow> do {
         (now, w) \<leftarrow> clockGetValue w;
         if now = tpInvalid then server_loop fuel clockGetValue socket buffer w
         else if status \<noteq> valid then server_loop fuel clockGetValue socket buffer w
         else if num_bytes \<noteq> PACKET_LENGTH then server_loop fuel clockGetValue socket buffer w
         else case get_recv_endpoint socket of
           Inl msg \<Rightarrow> Some (Failed msg, w)
         | Inr peer2 \<Rightarrow> do {
             ((more, buffer), w) \<leftarrow> handle_packet socket buffer now (address peer2) w;
             if more then server_loop fuel clockGetValue socket buffer w else Some (Killed, w)
           }
       })"

definition run_header :: string where
  "run_header = ''time                     host    '' @ tab @ ''offset'' @ tab @ ''round-trip-time''"

definition ClockServer_run ::
  "(string \<Rightarrow> string \<Rightarrow> sockaddr list option) \<Rightarrow> (sockaddr \<Rightarrow> int) \<Rightarrow> (int \<Rightarrow> sockaddr \<Rightarrow> bool) \<Rightarrow>
   ('a server_scheme, tp) call \<Rightarrow> ('a server_scheme, server_status) call" where
  "ClockServer_run getaddrinfo syscall_socket syscall_bind clockGetValue w =
    (case udp_socket_new getaddrinfo syscall_socket (addr_port w) of
       Inl msg \<Rightarrow> Some (Failed msg, w)
     | Inr socket \<Rightarrow> (case udp_bind syscall_bind socket of
         Inl msg \<Rightarrow> Some (Failed msg, w)
       | Inr _ \<Rightarrow>
           let w = (if log w then w\<lparr>cout := cout w @ [run_header]\<rparr> else w)
           in server_loop (Suc (length (recvs w))) clockGetValue socket (replicate PACKET_LENGTH 0) w))"

section \<open>The acknowledged states as a finite map\<close>

lemma ackData_updateEntry:
  "ackData (updateEntry addr offset r now w) =
    (if \<not> log w then ackData w
     else let m = map_assign addr \<lparr>entry_time = now, entry_offset = offset, entry_rtt = r\<rparr> (ackData w)
       in if now <s tRecalculated w + 500000 then m else erase_if (\<lambda>a. entry_time (snd a) <s now - 1500000) m)"
  by (simp add: updateEntry_def Let_def)

lemma updateEntry_frame:
  "recvs (updateEntry addr offset r now w) = recvs w" "sendtos (updateEntry addr offset r now w) = sendtos w"
  "sent (updateEntry addr offset r now w) = sent w" "sys_now (updateEntry addr offset r now w) = sys_now w"
  "sys_reads (updateEntry addr offset r now w) = sys_reads w" "log (updateEntry addr offset r now w) = log w"
  by (simp_all add: updateEntry_def Let_def)

text \<open>C26: What the server stores is a finite map from client addresses to their last acknowledged state,
  kept in the order of the addresses without duplicates: an acknowledgement sets its client's
  entry; when half a second has passed since the last recalculation, every entry older than 1.5 seconds is
  forgotten as well, and no other; without logging nothing is stored.\<close>

theorem server_acknowledgements:
  assumes "increasing (ackData w)"
  shows "increasing (ackData (updateEntry addr offset r now w))
    \<and> map_of (ackData (updateEntry addr offset r now w)) a =
      (let e = \<lparr>entry_time = now, entry_offset = offset, entry_rtt = r\<rparr>; m = (map_of (ackData w))(addr \<mapsto> e)
       in if \<not> log w then map_of (ackData w) a
          else if now <s tRecalculated w + 500000 then m a
          else case m a of None \<Rightarrow> None | Some e \<Rightarrow> if entry_time e <s now - 1500000 then None else Some e)"
  using assms
  by (auto simp: ackData_updateEntry Let_def std_map.wf_refresh std_map.wf_assign std_map.lookup_assign
      std_map.lookup_refresh split: option.split)

definition fresh_server :: "recvfrom_result list \<Rightarrow> server" where
  "fresh_server rs = \<lparr>sys_now = (\<lambda>n. of_nat n * 50000), sys_reads = 0, selects = [], waited = [], recvs = rs,
     sendtos = [], sent = [], cout = [], addr_port = \<lparr>address = ''0.0.0.0'', port = 4444\<rparr>, ackData = [],
     log = True, tRecalculated = 0\<rparr>"

theorem server_acknowledgements_witness:
  "map_of (ackData (updateEntry ''b'' 7 3 900000 (fresh_server []))) ''b''
    = Some \<lparr>entry_time = 900000, entry_offset = 7, entry_rtt = 3\<rparr>"
  using server_acknowledgements [of "fresh_server []" "''b''" 7 3 900000 "''b''"]
  by (simp add: fresh_server_def word_sless_alt)

section \<open>The maximum offset\<close>

lemma sint_cmax: "sint (cmax a b) = max (sint a) (sint b)"
  by (simp add: cmax_def word_sless_alt max_def)

text \<open>What an entry contributes: the largest offset that its client's clock may have.\<close>

definition bound_of :: "Entry \<Rightarrow> int" where
  "bound_of e = \<bar>sint (entry_offset e)\<bar> + sint (entry_rtt e) sdiv 2"

definition plausible :: "Entry \<Rightarrow> bool" where
  "plausible e \<longleftrightarrow> \<bar>sint (entry_offset e)\<bar> < 2 ^ 62 \<and> \<bar>sint (entry_rtt e)\<bar> < 2 ^ 62"

lemma sint_bound:
  assumes "plausible e"
  shows "sint (cabs (entry_offset e) + cdiv (entry_rtt e) 2) = bound_of e"
proof -
  have a: "\<bar>sint (entry_offset e)\<bar> < 2 ^ 62" using assms by (simp add: plausible_def)
  have b: "\<bar>sint (entry_rtt e) sdiv 2\<bar> < 2 ^ 62"
    using assms abs_sdiv_le [of 2 "sint (entry_rtt e)"] by (simp add: plausible_def)
  have c: "sint (cabs (entry_offset e)) = \<bar>sint (entry_offset e)\<bar>"
    using a by (simp add: cabs_def word_sless_alt sint_minus_int64 in_int64_def abs_less_iff)
  have i: "\<bar>\<bar>sint (entry_offset e)\<bar> + sint (entry_rtt e) sdiv 2\<bar> < 2 ^ 63"
    using a b abs_triangle_ineq [of "\<bar>sint (entry_offset e)\<bar>" "sint (entry_rtt e) sdiv 2"] by simp
  show ?thesis
    unfolding bound_of_def
    by (subst sint_add_int64) (simp_all add: c sint_cdiv in_int64I [OF i])
qed

lemma recalculate_bounds:
  assumes "\<forall>x\<in>set m. plausible (snd x)"
  shows "sint (recalculate m k) = Max (insert (sint k) ((\<lambda>x. bound_of (snd x)) ` set m))"
  using assms
proof (induction m k rule: recalculate.induct)
  case (2 a entry rest k)
  then have p: "plausible entry" by simp
  then have v: "entry_offset entry \<noteq> durInvalid" "entry_rtt entry \<noteq> durInvalid"
    by (auto simp: plausible_def valid_iff)
  with 2 have "sint (recalculate ((a, entry) # rest) k) =
    Max (insert (max (sint k) (bound_of entry)) ((\<lambda>x. bound_of (snd x)) ` set rest))"
    by (simp add: sint_cmax sint_bound)
  then show ?case
    by (cases "rest = []") (simp_all add: max.assoc max.commute max.left_commute del: recalculate.simps)
qed simp

definition unknown :: "Entry \<Rightarrow> bool" where
  "unknown e \<longleftrightarrow> entry_offset e = durInvalid \<or> entry_rtt e = durInvalid"

lemma recalculate_unknown: "\<exists>x\<in>set m. unknown (snd x) \<Longrightarrow> recalculate m k = usecInvalid"
  by (induction m k rule: recalculate.induct) (auto simp: unknown_def)

text \<open>C27: The maximum offset that the server prints at a recalculation bounds the offset of every client it
  still knows: it is the largest \<open>|offset| + rtt / 2\<close> over the entries that are left, at least 0, and
  it is the invalid duration when the offset or the round trip of one of them is.\<close>

theorem server_prints_maximum_offset:
  assumes "log w" "\<not> now <s tRecalculated w + 500000" "w' = updateEntry addr offset r now w"
    and "\<forall>x\<in>set (ackData w'). plausible (snd x) \<or> unknown (snd x)"
  shows "\<exists>m. last (cout w') = StringFromTp now @ '' offsetMax'' @ tab @ show_int (sint m) @ tab @ ''---''
    \<and> (if \<exists>x\<in>set (ackData w'). unknown (snd x) then m = usecInvalid
       else sint m = Max (insert 0 ((\<lambda>x. bound_of (snd x)) ` set (ackData w'))))
    \<and> tRecalculated w' = now"
proof (intro exI conjI)
  show "last (cout w') = StringFromTp now @ '' offsetMax'' @ tab @ show_int (sint (recalculate (ackData w') 0)) @ tab @ ''---''"
    "tRecalculated w' = now"
    using assms(1-3) by (simp_all add: updateEntry_def Let_def)
  show "if \<exists>x\<in>set (ackData w'). unknown (snd x) then recalculate (ackData w') 0 = usecInvalid
     else sint (recalculate (ackData w') 0) = Max (insert 0 ((\<lambda>x. bound_of (snd x)) ` set (ackData w')))"
    using assms(4) recalculate_bounds [of "ackData w'" 0] by (auto simp: recalculate_unknown)
qed

theorem server_prints_maximum_offset_witness:
  "\<exists>m :: int64. last (cout (updateEntry ''b'' (- 700) 30 900000 (fresh_server [])))
      = StringFromTp 900000 @ '' offsetMax'' @ tab @ show_int (sint m) @ tab @ ''---'' \<and> sint m = 715"
proof -
  have a: "ackData (updateEntry ''b'' (- 700) 30 900000 (fresh_server []))
      = [(''b'', \<lparr>entry_time = 900000, entry_offset = - 700, entry_rtt = 30\<rparr>)]"
    by (simp add: ackData_updateEntry fresh_server_def word_sless_alt erase_if_def)
  have b: "bound_of \<lparr>entry_time = 900000, entry_offset = - 700, entry_rtt = 30\<rparr> = 715"
    "plausible \<lparr>entry_time = 900000, entry_offset = - 700, entry_rtt = 30\<rparr>"
    "\<not> unknown \<lparr>entry_time = 900000, entry_offset = - 700, entry_rtt = 30\<rparr>"
    by (simp_all add: bound_of_def plausible_def unknown_def sdiv_pos_cases invalid_eq usecInvalid_def)
  have "\<not> (900000 :: int64) <s 0 + 500000" by (simp add: word_sless_alt)
  then show ?thesis
    using server_prints_maximum_offset [of "fresh_server []" 900000 _ "''b''" "- 700" 30, OF _ _ refl]
    by (auto simp: fresh_server_def a [unfolded fresh_server_def] b intro!: exI [of _ "715 :: int64"])
qed

section \<open>Answering requests\<close>

definition reply_to :: "tp \<Rightarrow> byte list \<Rightarrow> byte list" where
  "reply_to now d = ClockPacket_write ((ClockPacket_read d)\<lparr>type := REPLY, serverReplyTime := now\<rparr>)"

text \<open>The replies to what is received, the \<open>k\<close>th result of \<open>recvfrom\<close> at time \<open>now k\<close>.\<close>

fun replies :: "(nat \<Rightarrow> tp) \<Rightarrow> nat \<Rightarrow> recvfrom_result list \<Rightarrow> (byte list \<times> sockaddr option) list" where
  "replies now k [] = []"
| "replies now k (RecvFail e # rs) = replies now (Suc k) rs"
| "replies now k (Datagram d peer # rs) =
    (if PACKET_LENGTH \<le> length d \<and> hd d = byte_of_type REQUEST
     then [(reply_to (now k) (take PACKET_LENGTH d), Some peer)] else []) @ replies now (Suc k) rs"

text \<open>Senders are IPv4 or IPv6 hosts, and nobody sends \<open>KILL\<close>.\<close>

definition tame :: "recvfrom_result \<Rightarrow> bool" where
  "tame r \<longleftrightarrow> (case r of RecvFail e \<Rightarrow> True
    | Datagram d peer \<Rightarrow> sa_family peer \<noteq> AF_OTHER \<and> sa_host peer \<noteq> []
        \<and> (PACKET_LENGTH \<le> length d \<longrightarrow> hd d \<noteq> byte_of_type KILL))"

lemma endpoint_of_tame:
  "tame (Datagram d peer) \<Longrightarrow> endpoint_of_sockaddr peer = Inr \<lparr>address = sa_host peer, port = ntohs (sa_port peer)\<rparr>"
  by (auto simp: tame_def endpoint_of_sockaddr_def endpoint_new_def split: family.splits)

lemma type_read: "d \<noteq> [] \<Longrightarrow> type (ClockPacket_read d) = type_of_byte (hd d)"
  by (simp add: ClockPacket_read_def hd_conv_nth)

text \<open>One turn of the loop, with the system clock.\<close>

lemma server_turn:
  assumes "recvs w = r # rest" "length buffer = PACKET_LENGTH" "tame r" "sendtos w = []"
  shows "\<exists>socket' buffer' w'. (\<forall>n. server_loop (Suc n) SystemClock_getValue socket buffer w
        = server_loop n SystemClock_getValue socket' buffer' w')
    \<and> length buffer' = PACKET_LENGTH \<and> recvs w' = rest \<and> sendtos w' = [] \<and> sys_now w' = sys_now w
    \<and> sys_reads w' = Suc (sys_reads w)
    \<and> sent w' = sent w @ replies (\<lambda>k. cdiv (sys_now w k) 1000) (sys_reads w) [r]"
proof (cases r)
  case (RecvFail e)
  show ?thesis
    by (rule exI [of _ socket], rule exI [of _ buffer], rule exI [of _ "w\<lparr>recvs := rest, sys_reads := Suc (sys_reads w)\<rparr>"])
      (use assms RecvFail in \<open>simp add: udp_recv_def SystemClock_getValue_eq\<close>)
next
  case (Datagram d peer)
  let ?w = "w\<lparr>recvs := rest, sys_reads := Suc (sys_reads w)\<rparr>" and ?s = "socket\<lparr>socket_input := peer\<rparr>"
  show ?thesis
  proof (cases "PACKET_LENGTH \<le> length d")
    case False
    then have "server_loop (Suc n) SystemClock_getValue socket buffer w
        = server_loop n SystemClock_getValue ?s (copy_into d buffer) ?w" for n
      using assms Datagram by (simp add: udp_recv_def SystemClock_getValue_eq)
    with False assms Datagram show ?thesis
      by (intro exI [of _ ?s] exI [of _ "copy_into d buffer"] exI [of _ ?w]) simp
  next
    case True
    let ?b = "take PACKET_LENGTH d" and ?now = "sys_time w"
    have "0 < PACKET_LENGTH" by (simp add: PACKET_LENGTH_def)
    then have b: "length ?b = PACKET_LENGTH" "hd ?b = hd d" "?b \<noteq> []" using True by (auto simp: hd_take)
    have t: "sys_time (w\<lparr>recvs := rest\<rparr>) = ?now" by (simp add: sys_time_def)
    have e: "get_recv_endpoint ?s = Inr \<lparr>address = sa_host peer, port = ntohs (sa_port peer)\<rparr>"
      using endpoint_of_tame assms(3) Datagram by (simp add: get_recv_endpoint_def)
    have l: "server_loop (Suc n) SystemClock_getValue socket buffer w = do {
        ((more, buffer), w) \<leftarrow> handle_packet ?s ?b ?now (sa_host peer) ?w;
        if more then server_loop n SystemClock_getValue ?s buffer w else Some (Killed, w) }" for n
      using assms Datagram True b \<open>0 < PACKET_LENGTH\<close>
      by (simp add: udp_recv_def SystemClock_getValue_eq t e copy_into_full)
    have k: "hd d \<noteq> byte_of_type KILL" using assms(3) Datagram True by (simp add: tame_def)
    have ty: "type (ClockPacket_read ?b) = type_of_byte (hd d)" using b by (simp add: type_read)
    have s: "sys_time w = cdiv (sys_now w (sys_reads w)) 1000" by (simp add: sys_time_def)
    consider (request) "hd d = byte_of_type REQUEST" | (ack) "hd d = byte_of_type ACKNOWLEDGE"
      | (other) "hd d \<notin> byte_of_type ` {REQUEST, ACKNOWLEDGE, KILL}" using k by auto
    then show ?thesis
    proof cases
      case request
      let ?w' = "?w\<lparr>sent := sent w @ [(reply_to ?now ?b, Some peer)]\<rparr>"
      have "handle_packet ?s ?b ?now (sa_host peer) ?w = Some ((True, reply_to ?now ?b), ?w')"
        using request assms(4)
        by (simp add: handle_packet_def ty type_of_byte_def reply_to_def udp_send_eq Let_def)
      with l request assms Datagram True show ?thesis
        by (intro exI [of _ ?s] exI [of _ "reply_to ?now ?b"] exI [of _ ?w']) (simp add: reply_to_def s)
    next
      case ack
      let ?p = "ClockPacket_read ?b"
      let ?w' = "updateEntry (sa_host peer) (getClockOffset ?p) (rtt ?p) ?now ?w"
      have "handle_packet ?s ?b ?now (sa_host peer) ?w = Some ((True, ?b), ?w')"
        using ack by (simp add: handle_packet_def ty type_of_byte_def Let_def)
      with l ack assms Datagram True b show ?thesis
        by (intro exI [of _ ?s] exI [of _ ?b] exI [of _ ?w']) (simp add: updateEntry_frame)
    next
      case other
      then have "handle_packet ?s ?b ?now (sa_host peer) ?w = Some ((True, ?b), ?w)"
        by (simp add: handle_packet_def ty type_of_byte_def Let_def)
      with l other assms Datagram True b show ?thesis
        by (intro exI [of _ ?s] exI [of _ ?b] exI [of _ ?w]) simp
    qed
  qed
qed

lemma replies_append: "replies now k (rs @ ss) = replies now k rs @ replies now (k + length rs) ss"
  by (induction now k rs rule: replies.induct) simp_all

lemma server_turns:
  "recvs w = rs @ rest \<Longrightarrow> length buffer = PACKET_LENGTH \<Longrightarrow> \<forall>r\<in>set rs. tame r \<Longrightarrow> sendtos w = [] \<Longrightarrow>
  \<exists>socket' buffer' w'. (\<forall>n. server_loop (length rs + n) SystemClock_getValue socket buffer w
        = server_loop n SystemClock_getValue socket' buffer' w')
    \<and> length buffer' = PACKET_LENGTH \<and> recvs w' = rest \<and> sendtos w' = [] \<and> sys_now w' = sys_now w
    \<and> sys_reads w' = sys_reads w + length rs
    \<and> sent w' = sent w @ replies (\<lambda>k. cdiv (sys_now w k) 1000) (sys_reads w) rs"
proof (induction rs arbitrary: w socket buffer)
  case Nil
  then show ?case by auto
next
  case (Cons r rs)
  from Cons.prems obtain s1 b1 w1 where 1: "\<And>n. server_loop (Suc n) SystemClock_getValue socket buffer w
        = server_loop n SystemClock_getValue s1 b1 w1"
    "length b1 = PACKET_LENGTH" "recvs w1 = rs @ rest" "sendtos w1 = []" "sys_now w1 = sys_now w"
    "sys_reads w1 = Suc (sys_reads w)" "sent w1 = sent w @ replies (\<lambda>k. cdiv (sys_now w k) 1000) (sys_reads w) [r]"
    using server_turn [of w r "rs @ rest" buffer socket] by auto
  with Cons.IH [of w1 b1 s1] Cons.prems obtain s2 b2 w2 where
    2: "\<And>n. server_loop (length rs + n) SystemClock_getValue s1 b1 w1 = server_loop n SystemClock_getValue s2 b2 w2"
    "length b2 = PACKET_LENGTH" "recvs w2 = rest" "sendtos w2 = []" "sys_now w2 = sys_now w"
    "sys_reads w2 = Suc (sys_reads w) + length rs"
    "sent w2 = sent w1 @ replies (\<lambda>k. cdiv (sys_now w k) 1000) (Suc (sys_reads w)) rs"
    by auto
  have "sent w2 = sent w @ replies (\<lambda>k. cdiv (sys_now w k) 1000) (sys_reads w) (r # rs)"
    using 1(7) 2(7) replies_append [of _ "sys_reads w" "[r]" rs] by simp
  with 1 2 show ?case
    by (intro exI [of _ s2] exI [of _ b2] exI [of _ w2]) (simp del: server_loop.simps)
qed

lemma server_loop_kill:
  assumes "recvs w = Datagram d peer # rest" "length buffer = PACKET_LENGTH" "PACKET_LENGTH \<le> length d"
    "hd d = byte_of_type KILL" "sa_family peer \<noteq> AF_OTHER" "sa_host peer \<noteq> []"
  shows "server_loop (Suc n) SystemClock_getValue socket buffer w
    = Some (Killed, w\<lparr>recvs := rest, sys_reads := Suc (sys_reads w)\<rparr>)"
proof -
  let ?b = "take PACKET_LENGTH d"
  have "0 < PACKET_LENGTH" by (simp add: PACKET_LENGTH_def)
  then have b: "hd ?b = hd d" "?b \<noteq> []" using assms(3) by (auto simp: hd_take)
  have t: "sys_time (w\<lparr>recvs := rest\<rparr>) = sys_time w" by (simp add: sys_time_def)
  have "\<exists>a. endpoint_of_sockaddr peer = Inr a"
    using assms(5,6) by (auto simp: endpoint_of_sockaddr_def endpoint_new_def split: family.splits)
  then obtain a where "get_recv_endpoint (socket\<lparr>socket_input := peer\<rparr>) = Inr a"
    by (auto simp: get_recv_endpoint_def)
  with assms b \<open>0 < PACKET_LENGTH\<close> show ?thesis
    by (simp add: udp_recv_def SystemClock_getValue_eq t copy_into_full handle_packet_def type_read type_of_byte_def)
qed

lemma run_answers:
  assumes "udp_socket_new gai sc (addr_port w) = Inr s" "udp_bind sb s = Inr u"
    and "recvs w = rs @ rest" "\<forall>r\<in>set rs. tame r" "sendtos w = []"
    and "rest = [] \<or> (\<exists>d peer more. rest = Datagram d peer # more \<and> PACKET_LENGTH \<le> length d
          \<and> hd d = byte_of_type KILL \<and> sa_family peer \<noteq> AF_OTHER \<and> sa_host peer \<noteq> [])"
  shows "\<exists>w'. ClockServer_run gai sc sb SystemClock_getValue w = Some (if rest = [] then Waiting else Killed, w')
    \<and> sent w' = sent w @ replies (\<lambda>k. cdiv (sys_now w k) 1000) (sys_reads w) rs \<and> recvs w' = tl rest"
proof -
  let ?w = "if log w then w\<lparr>cout := cout w @ [run_header]\<rparr> else w" and ?b = "replicate PACKET_LENGTH (0 :: byte)"
  have r: "ClockServer_run gai sc sb SystemClock_getValue w
      = server_loop (length rs + Suc (length rest)) SystemClock_getValue s ?b ?w"
    using assms(1-3) by (simp add: ClockServer_run_def Let_def del: server_loop.simps)
  have w: "recvs ?w = rs @ rest" "sendtos ?w = []" "sys_now ?w = sys_now w" "sys_reads ?w = sys_reads w" "sent ?w = sent w"
    using assms(3,5) by simp_all
  from server_turns [OF w(1) length_replicate assms(4) w(2), of s] obtain s' b' w' where
    l: "server_loop (length rs + Suc (length rest)) SystemClock_getValue s ?b ?w
        = server_loop (Suc (length rest)) SystemClock_getValue s' b' w'"
    "length b' = PACKET_LENGTH" "recvs w' = rest"
    "sent w' = sent w @ replies (\<lambda>k. cdiv (sys_now w k) 1000) (sys_reads w) rs"
    unfolding w(3-5) by metis
  show ?thesis
  proof (cases rest)
    case Nil
    then have "server_loop (Suc (length rest)) SystemClock_getValue s' b' w' = Some (Waiting, w')"
      using l(3) by (simp add: udp_recv_def)
    with r l Nil show ?thesis by (intro exI [of _ w']) simp
  next
    case (Cons x more)
    with assms(6) obtain d peer where x: "rest = Datagram d peer # more" "PACKET_LENGTH \<le> length d"
      "hd d = byte_of_type KILL" "sa_family peer \<noteq> AF_OTHER" "sa_host peer \<noteq> []" by auto
    with l have "server_loop (Suc (length rest)) SystemClock_getValue s' b' w'
        = Some (Killed, w'\<lparr>recvs := more, sys_reads := Suc (sys_reads w')\<rparr>)"
      by (intro server_loop_kill) simp_all
    with r l x show ?thesis
      by (intro exI [of _ "w'\<lparr>recvs := more, sys_reads := Suc (sys_reads w')\<rparr>"]) (simp del: server_loop.simps)
  qed
qed

text \<open>C8: The server answers every request, in order, whatever comes between them: to each datagram of at
  least 26 bytes that starts with the \<open>REQUEST\<close> byte it sends one reply, to the sender, with the time
  at which it received it, and nothing to anything else; short packets, packets of other types,
  acknowledgements and failing \<open>recvfrom\<close> calls stop nothing.  It goes on until a \<open>KILL\<close> packet, on which
  it returns without reading on.\<close>

theorem server_answers_every_request:
  assumes "udp_socket_new gai sc (addr_port w) = Inr s" "udp_bind sb s = Inr u"
    and "recvs w = rs @ rest" "\<forall>r\<in>set rs. tame r" "sendtos w = []"
    and "rest = [] \<or> (\<exists>d peer more. rest = Datagram d peer # more \<and> PACKET_LENGTH \<le> length d
          \<and> hd d = byte_of_type KILL \<and> sa_family peer \<noteq> AF_OTHER \<and> sa_host peer \<noteq> [])"
  shows "\<exists>w'. ClockServer_run gai sc sb SystemClock_getValue w = Some (if rest = [] then Waiting else Killed, w')
    \<and> sent w' = sent w @ replies (\<lambda>k. cdiv (sys_now w k) 1000) (sys_reads w) rs \<and> recvs w' = tl rest"
  by (rule run_answers [OF assms])

lemma fresh_server_simps [simp]:
  "recvs (fresh_server rs) = rs" "sendtos (fresh_server rs) = []" "sent (fresh_server rs) = []"
  "sys_reads (fresh_server rs) = 0" "sys_now (fresh_server rs) = (\<lambda>n. of_nat n * 50000)"
  "addr_port (fresh_server rs) = \<lparr>address = ''0.0.0.0'', port = 4444\<rparr>" "ackData (fresh_server rs) = []"
  "log (fresh_server rs)" "tRecalculated (fresh_server rs) = 0"
  by (simp_all add: fresh_server_def)

definition loopback :: sockaddr where
  "loopback = \<lparr>sa_family = AF_INET, sa_host = ''127.0.0.1'', sa_port = 0x5C11\<rparr>"

lemma loopback_simps [simp]: "sa_family loopback = AF_INET" "sa_host loopback = ''127.0.0.1''"
  by (simp_all add: loopback_def)

lemma read_reply_to [codec_simps]:
  "ClockPacket_read (reply_to now d) = (ClockPacket_read d)\<lparr>type := REPLY, serverReplyTime := now\<rparr>"
  unfolding reply_to_def by (rule ClockPacket_read_write) (simp add: packet_ok_def type_of_byte_def)

theorem server_answers_every_request_witness:
  "\<exists>w'. ClockServer_run (\<lambda>_ _. Some [loopback]) (\<lambda>_. 3) (\<lambda>_ _. True) SystemClock_getValue
      (fresh_server [RecvFail 4, Datagram (1 # replicate 25 7) loopback, Datagram (4 # replicate 25 7) loopback])
    = Some (Killed, w')
    \<and> sent w' = [(reply_to (cdiv 50000 1000) (1 # replicate 25 7), Some loopback)]"
proof -
  let ?w = "fresh_server [RecvFail 4, Datagram (1 # replicate 25 7) loopback, Datagram (4 # replicate 25 7) loopback]"
  let ?rs = "[RecvFail 4, Datagram (1 # replicate 25 7) loopback]" and ?rest = "[Datagram (4 # replicate 25 7) loopback]"
  obtain s where s: "udp_socket_new (\<lambda>_ _. Some [loopback]) (\<lambda>_. 3) (addr_port ?w) = Inr s"
    "udp_bind (\<lambda>_ _. True) s = Inr ()"
    by (simp add: udp_socket_new_def udp_bind_def INVALID_SOCKET_def)
  have "replies (\<lambda>k. cdiv (sys_now ?w k) 1000) (sys_reads ?w) ?rs
      = [(reply_to (cdiv 50000 1000) (1 # replicate 25 7), Some loopback)]"
    by (simp add: PACKET_LENGTH_def)
  with server_answers_every_request [OF s, of ?rs ?rest] show ?thesis
    by (auto simp: tame_def PACKET_LENGTH_def)
qed

text \<open>Each reply is the request with its type and the server's time filled in: the sequence number and
  the client's request time come back unchanged.\<close>

theorem server_reply_echoes_request:
  assumes "length d = PACKET_LENGTH"
  shows "length (reply_to now d) = PACKET_LENGTH
    \<and> ClockPacket_read (reply_to now d) = (ClockPacket_read d)\<lparr>type := REPLY, serverReplyTime := now\<rparr>
    \<and> reply_to now d = byte_of_type REPLY # d ! 1 # take 8 (drop 2 d) @ BytesFromTp False now @ drop 18 d"
proof (intro conjI)
  have b: "BytesFromTp False (TpFromBytes False (drop k d)) = take 8 (drop k d)" if "k \<le> 18" for k
    using that assms tp_wire.enc_dec [of "take 8 (drop k d)"] by (simp add: TpFromBytes_take PACKET_LENGTH_def)
  show "reply_to now d = byte_of_type REPLY # d ! 1 # take 8 (drop 2 d) @ BytesFromTp False now @ drop 18 d"
    using assms by (simp add: reply_to_def ClockPacket_write_def ClockPacket_read_def b PACKET_LENGTH_def)
  show "length (reply_to now d) = PACKET_LENGTH" by (simp add: reply_to_def)
qed (rule read_reply_to)

theorem server_reply_echoes_request_witness:
  "reply_to 5 (1 # 9 # replicate 24 7)
    = [2, 9] @ replicate 8 7 @ BytesFromTp False 5 @ replicate 8 7"
  using server_reply_echoes_request [of "1 # 9 # replicate 24 7" 5]
  by (simp add: PACKET_LENGTH_def numeral_eq_Suc)

section \<open>The loop as a whole\<close>

lemma udp_recv_frame:
  assumes "udp_recv s b w = Some (x, w1)"
  shows "length (recvs w) = Suc (length (recvs w1))" "server.more w1 = server.more w" "ackData w1 = ackData w"
  using assms by (auto simp: udp_recv_def Let_def split: list.splits recvfrom_result.splits)

lemma handle_packet_frame:
  assumes "handle_packet s b now a w = Some (x, w1)"
  shows "recvs w1 = recvs w" "increasing (ackData w) \<Longrightarrow> increasing (ackData w1)"
  using assms
  by (auto simp: handle_packet_def udp_send_eq updateEntry_frame ackData_updateEntry Let_def std_map.wf_refresh
      std_map.wf_assign split: packet_type.splits list.splits sendto_result.splits)

text \<open>The interface of a clock that a server may serve: reading it leaves the socket's queue and the
  stored states alone.\<close>

locale served_clock =
  fixes clk :: "('a server_scheme, tp) call"
  assumes clk_frame: "clk w = Some (t, w') \<Longrightarrow> recvs w' = recvs w \<and> ackData w' = ackData w"
begin

text \<open>One turn that goes on takes one result of \<open>recvfrom\<close>.\<close>

lemma turn_frame:
  assumes "udp_recv s b w = Some (x, w1)" "clk w1 = Some (now, w2)"
  shows "length (recvs w) = Suc (length (recvs w2))" "ackData w2 = ackData w"
  using udp_recv_frame [OF assms(1)] clk_frame [OF assms(2)] by simp_all

lemma server_loop_fuel:
  "length (recvs w) < n \<Longrightarrow> length (recvs w) < m \<Longrightarrow> server_loop n clk s b w = server_loop m clk s b w"
proof (induction n arbitrary: m s b w)
  case (Suc n)
  then obtain k where k: "m = Suc k" by (cases m) auto
  have ih: "server_loop n clk s' b' w2 = server_loop k clk s' b' w2"
    if "udp_recv s b w = Some (x, w1)" "clk w1 = Some (now, w2)" for s' b' x w1 now w2
    using Suc.prems turn_frame(1) [OF that] by (intro Suc.IH) (simp_all add: k)
  have ih': "server_loop n clk s' b' w3 = server_loop k clk s' b' w3"
    if "udp_recv s b w = Some (x, w1)" "clk w1 = Some (now, w2)" "handle_packet s'' b'' t a w2 = Some (y, w3)"
    for s' b' x w1 now w2 s'' b'' t a y w3
    using Suc.prems turn_frame(1) [OF that(1,2)] handle_packet_frame(1) [OF that(3)]
    by (intro Suc.IH) (simp_all add: k)
  show ?case
    by (auto simp: k ih ih' split: option.splits sum.splits intro!: Option.bind_cong)
qed simp

lemma server_loop_increasing:
  "server_loop n clk s b w = Some (st, w') \<Longrightarrow> increasing (ackData w) \<Longrightarrow> increasing (ackData w')"
proof (induction n arbitrary: s b w)
  case (Suc n)
  show ?case
  proof (cases "udp_recv s b w")
    case None
    with Suc.prems show ?thesis by simp
  next
    case (Some x)
    obtain num status b1 s1 w1 where x: "udp_recv s b w = Some (((num, status), b1, s1), w1)"
      using Some by (metis prod.collapse)
    with Suc.prems obtain now w2 where c: "clk w1 = Some (now, w2)" by (cases "clk w1") auto
    have i: "increasing (ackData w2)" using turn_frame(2) [OF x c] Suc.prems(2) by simp
    from Suc.prems(1) i show ?thesis
      by (auto simp: x c Option.bind_eq_Some_conv split: if_splits sum.splits
          dest: Suc.IH [OF _ i] handle_packet_frame(2) [OF _ i] intro: Suc.IH)
  qed
qed simp

end

interpretation sys_served: served_clock SystemClock_getValue
  by unfold_locales (auto simp: SystemClock_getValue_eq)



end
