(* ===== verification/System.thy ===== *)
theory System
  imports ClockServer ClockClient
begin

text \<open>
  A client and a server together: the bytes that the client's model sends are what the server's
  model receives, and the other way round.  Each has its own state and its own system clock, which
  need not agree; a datagram can be delayed for any time, but is not changed.

  The lemmas follow one request, its reply and its acknowledgement.
\<close>

section \<open>One turn of the server\<close>

text \<open>A server that receives a request answers it and waits again.\<close>

lemma serves_request:
  assumes "recvs v = [Datagram (ClockPacket_write p) peer]" "sendtos v = []" "length buffer = PACKET_LENGTH"
    and "type p = REQUEST" "packet_ok p" "sa_family peer \<noteq> AF_OTHER" "sa_host peer \<noteq> []" "1 < n"
  shows "\<exists>v'. server_loop n SystemClock_getValue s buffer v = Some (Waiting, v')
    \<and> sent v' = sent v @ [(ClockPacket_write (p\<lparr>type := REPLY, serverReplyTime := sys_time v\<rparr>), Some peer)]"
proof -
  have h: "hd (ClockPacket_write p) = byte_of_type REQUEST" using assms(4) by (simp add: ClockPacket_write_def)
  have t: "tame (Datagram (ClockPacket_write p) peer)" using assms(6,7) h by (simp add: tame_def)
  have f: "server_loop n SystemClock_getValue s buffer v = server_loop (1 + Suc 0) SystemClock_getValue s buffer v"
    using assms(1,8) by (intro sys_served.server_loop_fuel) simp_all
  obtain s' b' v' where v': "server_loop (1 + Suc 0) SystemClock_getValue s buffer v
      = server_loop (Suc 0) SystemClock_getValue s' b' v'"
    "recvs v' = []" "sent v' = sent v @ replies (\<lambda>k. cdiv (sys_now v k) 1000) (sys_reads v)
      [Datagram (ClockPacket_write p) peer]"
    using server_turns [of v "[Datagram (ClockPacket_write p) peer]" "[]" buffer s] assms(1-3) t by auto
  have "server_loop (Suc 0) SystemClock_getValue s' b' v' = Some (Waiting, v')"
    using v'(2) by (simp add: udp_recv_def)
  moreover have "reply_to (sys_time v) (ClockPacket_write p)
      = ClockPacket_write (p\<lparr>type := REPLY, serverReplyTime := sys_time v\<rparr>)"
    using assms(5) by (simp add: reply_to_def codec_simps)
  ultimately show ?thesis using f v'(1,3) h by (simp add: sys_time_def)
qed

section \<open>A whole exchange\<close>

text \<open>The client's side of the exchange, on whatever clock it measures: that clock showed \<open>t1\<close> when the request was made and
  \<open>t2\<close> when the reply was read.\<close>

lemma halved_bound:
  fixes a b c d :: int
  assumes "2 * b \<le> c" "a - d \<le> b" "d - a \<le> b + 1"
  shows "\<bar>a - d\<bar> \<le> c div 2 + 1"
  using assms unfolding abs_le_iff by linarith

context net_clock
begin

lemma exchange_error:
  fixes w :: "'a client_scheme" and v :: "'b server_scheme"
  assumes "recvs v = [Datagram (ClockPacket_write (ClockPacket_new REQUEST n t1)) peer]"
    and "sendtos v = []" "sent v = []" "length buffer = PACKET_LENGTH" "1 < m"
    and "sa_family peer \<noteq> AF_OTHER" "sa_host peer \<noteq> []"
    and "server_loop m SystemClock_getValue sk buffer v = Some (Waiting, v')"
    and "selects w = 1 # rs" "recvs w = Datagram (fst (hd (sent v'))) from' # rest" "sendtos w = []"
    and "n = next_sequence (sequence w)" "read (w\<lparr>sequence := n\<rparr>) = Some (t1, w1)"
    and "read (exchanged w1 (ClockPacket_new REQUEST n t1) rs rest from') = Some (t2, w3)"
    and "\<bar>sint t1\<bar> \<le> 2 ^ 60" "\<bar>sint t2\<bar> \<le> 2 ^ 60" "sint t1 \<le> x" "x \<le> sint t2" "sint t2 - sint t1 \<le> sint (timeout w)"
  shows "\<exists>d r. ClockClient_getPhase_ack read False w = Some (d, w3\<lparr>client_rtt := r\<rparr>) \<and> d \<noteq> durInvalid
    \<and> sint r = sint t2 - sint t1 \<and> \<bar>sint d - (sint (sys_time v) - x)\<bar> \<le> (sint t2 - sint t1) div 2 + 1"
proof -
  let ?p = "(ClockPacket_new REQUEST n t1)\<lparr>type := REPLY, serverReplyTime := sys_time v\<rparr>"
  let ?q = "?p\<lparr>clientReceiveTime := t2\<rparr>"
  have "fst (hd (sent v')) = ClockPacket_write ?p"
    using serves_request [OF assms(1,2,4) _ _ assms(6,7,5), of sk] assms(3,8)
    by (auto simp: ClockPacket_new_def packet_ok_def type_of_byte_def)
  then have r: "recvs w = Datagram (ClockPacket_write ?p) from' # rest" using assms(10) by simp
  have q: "clientRequestTime ?q = t1" "serverReplyTime ?q = sys_time v" "clientReceiveTime ?q = t2"
    by (simp_all add: ClockPacket_new_def)
  have t2: "t2 \<noteq> tpInvalid" using assms(16) by (simp add: valid_iff abs_le_iff)
  have i: "in_int64 (sint t2 - sint t1 + 1)" "in_int64 (sint (sys_time v) - sint t2)" "in_int64 (sint (sys_time v) - sint t1 + 1)"
    using sys_time_bounds [of v] assms(15,16) by (simp_all add: in_int64_def abs_le_iff)
  note e = offset_error [OF q sys_time_valid t2 assms(17,18) i]
  have rt: "sint (rtt ?q) = sint t2 - sint t1" using e by blast
  have "rtt ?q \<noteq> durInvalid" using e getErrorBound_rtt by blast
  moreover have "\<not> timeout w <s rtt ?q" unfolding word_sless_alt rt using assms(19) by simp
  ultimately have ti: "timely (timeout w) ?q" unfolding timely_def by simp
  have "ClockClient_getPhase_ack read False w = Some (getClockOffset ?q, w3\<lparr>client_rtt := rtt ?q\<rparr>)"
    using exchange [OF assms(12,13,11,9) r _ _ assms(14) ti, of False] by (simp add: ClockPacket_new_def Let_def)
  moreover have "\<bar>sint (getClockOffset ?q) - (sint (sys_time v) - x)\<bar> \<le> (sint t2 - sint t1) div 2 + 1"
    by (rule halved_bound [of "sint (getErrorBound ?q)"]) (use e rt in metis)+
  ultimately show ?thesis using e rt by blast
qed

end

text \<open>On the system's clock.\<close>

lemma exchange_offset:
  fixes w :: "'a client_scheme" and v :: "'b server_scheme"
  assumes "recvs v = [Datagram (ClockPacket_write (ClockPacket_new REQUEST (next_sequence (sequence w)) (sys_time w))) peer]"
    and "sendtos v = []" "sent v = []" "length buffer = PACKET_LENGTH" "1 < n"
    and "sa_family peer \<noteq> AF_OTHER" "sa_host peer \<noteq> []"
    and "server_loop n SystemClock_getValue sk buffer v = Some (Waiting, v')"
    and "selects w = 1 # rs" "recvs w = Datagram (fst (hd (sent v'))) from' # rest" "sendtos w = []"
    and "c1 = sint (sys_time w)" "s = sint (sys_time v)" "c2 = sint (cdiv (sys_now w (Suc (sys_reads w))) 1000)"
    and "c1 \<le> x" "x \<le> c2" "c2 - c1 \<le> sint (timeout w)"
  shows "\<exists>d w'. ClockClient_getPhase_ack SystemClock_getValue False w = Some (d, w') \<and> d \<noteq> durInvalid
    \<and> sint (client_rtt w') = c2 - c1 \<and> \<bar>sint d - (s - x)\<bar> \<le> (c2 - c1) div 2 + 1
    \<and> sys_now w' = sys_now w \<and> sys_reads w' = Suc (Suc (sys_reads w))"
proof -
  let ?n = "next_sequence (sequence w)"
  let ?w1 = "w\<lparr>sequence := ?n, sys_reads := Suc (sys_reads w)\<rparr>"
  let ?w2 = "exchanged ?w1 (ClockPacket_new REQUEST ?n (sys_time w)) rs rest from'"
  have t: "sys_time (w\<lparr>sequence := ?n\<rparr>) = sys_time w" "sys_time ?w2 = cdiv (sys_now w (Suc (sys_reads w))) 1000"
    by (simp_all add: sys_time_def exchanged_def)
  have b: "\<bar>sint (sys_time u)\<bar> \<le> 2 ^ 60" for u :: "'a client_scheme"
    using sys_time_bounds [of u] by simp
  have r1: "SystemClock_getValue (w\<lparr>sequence := ?n\<rparr>) = Some (sys_time w, ?w1)" by (simp add: SystemClock_getValue_eq t)
  have "\<exists>d r. ClockClient_getPhase_ack SystemClock_getValue False w
      = Some (d, ?w2\<lparr>sys_reads := Suc (sys_reads ?w2), client_rtt := r\<rparr>) \<and> d \<noteq> durInvalid
    \<and> sint r = sint (sys_time ?w2) - sint (sys_time w)
    \<and> \<bar>sint d - (sint (sys_time v) - x)\<bar> \<le> (sint (sys_time ?w2) - sint (sys_time w)) div 2 + 1"
    using sys_net.exchange_error [OF assms(1-11) refl r1 SystemClock_getValue_eq b b] assms(12-17) t(2) by simp
  then obtain d r where "ClockClient_getPhase_ack SystemClock_getValue False w
      = Some (d, ?w2\<lparr>sys_reads := Suc (sys_reads ?w2), client_rtt := r\<rparr>)" "d \<noteq> durInvalid"
    "sint r = c2 - c1" "\<bar>sint d - (s - x)\<bar> \<le> (c2 - c1) div 2 + 1"
    unfolding t(2) using assms(12-14) by blast
  then show ?thesis by (simp add: exchanged_def)
qed

text \<open>A server whose clock shows 4025 microseconds when the request comes that a client sent at \<open>t\<close> of its own clock.\<close>

definition demo_server :: "tp \<Rightarrow> server" where
  "demo_server t = (fresh_server [Datagram (ClockPacket_write (ClockPacket_new REQUEST 1 t)) loopback])\<lparr>sys_now := (\<lambda>_. 4025000)\<rparr>"

lemma demo_server_simps [simp]:
  "recvs (demo_server t) = [Datagram (ClockPacket_write (ClockPacket_new REQUEST 1 t)) loopback]"
  "sendtos (demo_server t) = []" "sent (demo_server t) = []" "sys_time (demo_server t) = 4025"
  by (simp_all add: demo_server_def sys_time_def cdiv_def signed_divide_int_def)

lemma demo_reply:
  obtains v' where "server_loop 2 SystemClock_getValue undefined (replicate PACKET_LENGTH 0) (demo_server t) = Some (Waiting, v')"
    "sent v' = [(ClockPacket_write \<lparr>type = REPLY, sequenceNumber = 1, clientRequestTime = t,
        serverReplyTime = 4025, clientReceiveTime = tpInvalid\<rparr>, Some loopback)]"
proof -
  have p: "type (ClockPacket_new REQUEST 1 t) = REQUEST" "packet_ok (ClockPacket_new REQUEST 1 t)"
    by (simp_all add: ClockPacket_new_def packet_ok_def type_of_byte_def)
  have "(1 :: nat) < 2" by simp
  from serves_request [OF demo_server_simps(1,2) _ p _ _ this, of "replicate PACKET_LENGTH 0" undefined]
  show thesis by (auto simp: ClockPacket_new_def intro: that)
qed

end
