(* ===== verification/ConfigReader.thy ===== *)
theory ConfigReader
  imports PhaseLockedClock
begin

text \<open>
  \<open>ConfigReader\<close>: the settings, their defaults, reading them from the lines of a file with \<open>sscanf\<close>,
  and making the client and the clock from them.  A file is its contents, or \<open>None\<close> when it cannot be
  opened.  The warnings on standard error are not modelled; what \<open>print\<close> writes is a function of the settings.

  The lemmas say what a line does, that a file in the documented form gives its values, and which
  values the settings become.
\<close>

record config =
  server :: string
  config_port :: uint32
  config_timeout :: uint32
  config_phasePanic :: uint32
  config_updatePanic :: uint32

definition ConfigReader_new :: config where
  "ConfigReader_new = \<lparr>server = ''127.0.0.1'', config_port = 4444, config_timeout = 1000,
     config_phasePanic = 5000, config_updatePanic = 5000000\<rparr>"

text \<open>The directives of \<^verbatim>\<open>" name:%990s"\<close> and \<^verbatim>\<open>" name:%990u"\<close>.\<close>

definition key :: "string \<Rightarrow> directive \<Rightarrow> directive list" where
  "key name conv = Space # map Lit name @ [Lit (CHR '':''), conv]"

text \<open>The macro \<open>SSCANF\<close> for a string and for a number: the value, if the line sets it.\<close>

definition scan_string :: "string \<Rightarrow> string \<Rightarrow> string option" where
  "scan_string name line = (case sscanf line (key name (ConvS 990)) of (n, vs) \<Rightarrow>
     if n = 1 then (case vs of [StrV s] \<Rightarrow> Some s | _ \<Rightarrow> None) else None)"

definition scan_unsigned :: "string \<Rightarrow> string \<Rightarrow> uint32 option" where
  "scan_unsigned name line = (case sscanf line (key name (ConvU (Some 990))) of (n, vs) \<Rightarrow>
     if n = 1 then (case vs of [UnsV k] \<Rightarrow> Some k | _ \<Rightarrow> None) else None)"

text \<open>One line: the new settings, or \<open>None\<close> on a syntax error.\<close>

definition config_line :: "string \<Rightarrow> config \<Rightarrow> config option" where
  "config_line line c =
    (if fst (sscanf line [Space, ConvS 990]) = - 1 then Some c
     else if fst (sscanf line [Space, ConvSet ''#'' 990]) = 1 then Some c
     else case scan_string ''server'' line of Some s \<Rightarrow> Some (c\<lparr>server := s\<rparr>) | None \<Rightarrow>
       (case scan_unsigned ''port'' line of Some k \<Rightarrow> Some (c\<lparr>config_port := k\<rparr>) | None \<Rightarrow>
       (case scan_unsigned ''timeout'' line of Some k \<Rightarrow> Some (c\<lparr>config_timeout := k\<rparr>) | None \<Rightarrow>
       (case scan_unsigned ''phasePanic'' line of Some k \<Rightarrow> Some (c\<lparr>config_phasePanic := k\<rparr>) | None \<Rightarrow>
       (case scan_unsigned ''updatePanic'' line of Some k \<Rightarrow> Some (c\<lparr>config_updatePanic := k\<rparr>) | None \<Rightarrow> None)))))"

text \<open>\<^verbatim>\<open>std::getline\<close> until the end of the file.\<close>

function getlines :: "string \<Rightarrow> string list" where
  "getlines s =
    (if s = [] then []
     else takeWhile (\<lambda>c. c \<noteq> CHR 0x0A) s # getlines (tl (dropWhile (\<lambda>c. c \<noteq> CHR 0x0A) s)))"
  by auto
termination
proof (relation "measure length")
  fix s :: string
  assume "s \<noteq> []"
  then have "0 < length s" by simp
  with length_dropWhile_le [of "\<lambda>c. c \<noteq> CHR 0x0A" s]
  show "(tl (dropWhile (\<lambda>c. c \<noteq> CHR 0x0A) s), s) \<in> measure length"
    unfolding in_measure length_tl by linarith
qed simp

declare getlines.simps [simp del]

fun read_lines :: "string list \<Rightarrow> config \<Rightarrow> bool \<times> config" where
  "read_lines [] c = (True, c)"
| "read_lines (line # lines) c = (case config_line line c of
      None \<Rightarrow> (False, c)
    | Some c \<Rightarrow> read_lines lines c)"

definition readFrom :: "string option \<Rightarrow> config \<Rightarrow> bool \<times> config" where
  "readFrom file c = (case file of None \<Rightarrow> (False, c) | Some s \<Rightarrow> read_lines (getlines s) c)"

text \<open>The endpoint's port is of type \<open>uint16_t\<close>.\<close>

definition config_endpoint :: "config \<Rightarrow> endpoint" where
  "config_endpoint c = endpoint_new (server c) (ucast (config_port c))"

definition buildClock ::
  "(string \<Rightarrow> string \<Rightarrow> sockaddr list option) \<Rightarrow> (sockaddr \<Rightarrow> int) \<Rightarrow> error_state \<Rightarrow> os \<Rightarrow> config
   \<Rightarrow> string \<times> stop option + (error_state \<times> plc) option" where
  "buildClock getaddrinfo syscall_socket e w c =
    (case ClockClient_new getaddrinfo syscall_socket e w (config_endpoint c) of
      Inl stopped \<Rightarrow> Inl stopped
    | Inr (e, cli) \<Rightarrow> Inr (do {
        let cli = setAcknowledge True (setTimeout (ucast (config_timeout c)) cli);
        plc \<leftarrow> PhaseLockedClock_new SystemClock cli;
        let plc = setPhasePanic (DurFromUsec (ucast (config_phasePanic c))) plc;
        let plc = setUpdatePanic (DurFromUsec (ucast (config_updatePanic c))) plc;
        Some (e, plc)
      }))"

definition config_print :: "config \<Rightarrow> string list" where
  "config_print c =
    [''config:'', ''  server: '' @ server c, ''  port: '' @ show_nat (unat (config_port c)),
     ''  timeout: '' @ show_nat (unat (config_timeout c)) @ '' '' @ [CHR 0xCE, CHR 0xBC] @ ''s'',
     ''  phasePanic: '' @ show_nat (unat (config_phasePanic c)) @ '' '' @ [CHR 0xCE, CHR 0xBC] @ ''s'',
     ''  updatePanic: '' @ show_nat (unat (config_updatePanic c)) @ '' '' @ [CHR 0xCE, CHR 0xBC] @ ''s'']"

section \<open>What a line does\<close>

text \<open>A line of the documented form, \<^verbatim>\<open>name:value\<close>.\<close>

definition setting :: "string \<Rightarrow> string \<Rightarrow> string" where
  "setting name val = name @ CHR '':'' # val"

definition plain :: "string \<Rightarrow> bool" where
  "plain s \<longleftrightarrow> s \<noteq> [] \<and> (\<forall>c\<in>set s. \<not> isspace c \<and> (of_char c :: nat) \<noteq> 0)"

lemma scan_lits:
  "scan (map Lit name @ ds) (name @ r) vs = scan ds r vs"
  by (induction name) auto

lemma plain_append: "plain s \<Longrightarrow> plain t \<Longrightarrow> plain (s @ t)"
  by (auto simp: plain_def)

lemma plain_c_str: "plain s \<Longrightarrow> c_str s = s"
  by (auto simp: plain_def c_str_def takeWhile_eq_all_conv)

lemma plain_dropWhile: "plain s \<Longrightarrow> dropWhile isspace (s @ r) = s @ r"
  by (cases s) (auto simp: plain_def)

lemma plain_takeWhile: "plain s \<Longrightarrow> takeWhile (\<lambda>c. \<not> isspace c) s = s"
  by (auto simp: plain_def takeWhile_eq_all_conv)

lemma plain_show: "plain (show_nat n)"
  using show_nat_digits no_nul_show by (fastforce simp: plain_def)

lemma plain_setting: "plain name \<Longrightarrow> plain val \<Longrightarrow> plain (setting name val)"
  by (auto simp: plain_def setting_def isspace_def)

text \<open>The scanner on such a line, for its own name and for another one.\<close>

lemma sscanf_key:
  assumes "plain name" "plain val"
  shows "sscanf (setting name val) (key name conv) = scan [conv] val []"
  using assms plain_setting [OF assms] plain_dropWhile [OF assms(1)]
  by (simp add: sscanf_def plain_c_str key_def setting_def scan_lits del: scan.simps(4-7))

lemma scan_lits_mismatch:
  "\<nexists>r. s = lits @ r \<Longrightarrow> fst (scan (map Lit lits @ ds) s []) \<noteq> 1"
proof (induction lits arbitrary: s)
  case (Cons l lits)
  then show ?case
    by (cases s) (auto simp: input_failure_def matching_failure_def)
qed simp

lemma name_unique:
  assumes "CHR '':'' \<notin> set m" "CHR '':'' \<notin> set n" "setting m val = (n @ [CHR '':'']) @ r"
  shows "m = n"
proof -
  have "takeWhile (\<lambda>c. c \<noteq> CHR '':'') (setting m val) = m"
    "takeWhile (\<lambda>c. c \<noteq> CHR '':'') ((n @ [CHR '':'']) @ r) = n"
    using assms(1,2) by (auto simp: setting_def takeWhile_tail takeWhile_append2)
  then show ?thesis using assms(3) by simp
qed

lemma sscanf_other_key:
  assumes "plain name" "plain val" "CHR '':'' \<notin> set name" "CHR '':'' \<notin> set other" "name \<noteq> other"
  shows "fst (sscanf (setting name val) (key other conv)) \<noteq> 1"
proof -
  have "\<nexists>r. setting name val = (other @ [CHR '':'']) @ r"
    using name_unique [OF assms(3,4)] assms(5) by blast
  from scan_lits_mismatch [OF this, of "[conv]"] show ?thesis
    using plain_setting [OF assms(1,2)] plain_dropWhile [of "setting name val" "[]"]
    by (simp add: sscanf_def plain_c_str key_def)
qed

lemma scan_string_own:
  assumes "plain name" "plain val" "length val \<le> 990"
  shows "scan_string name (setting name val) = Some val"
  using assms plain_dropWhile [OF assms(2), of "[]"]
  by (auto simp: scan_string_def sscanf_key plain_takeWhile plain_def [of val])

lemma scan_unsigned_own:
  assumes "plain name" "n < 2 ^ 32"
  shows "scan_unsigned name (setting name (show_nat n)) = Some (of_nat n)"
proof -
  have "length (show_nat n) \<le> 10" using assms(2) by (intro length_show_nat) simp_all
  then have "scan_number (Some 990) (show_nat n) = Some (False, n, [])"
    using scan_number_show_width [of "[]" n 990] by simp
  moreover have "dropWhile isspace (show_nat n) = show_nat n" using dropWhile_space_show [of n "[]"] by simp
  moreover have "n < 2 ^ 64" using assms(2) by simp
  ultimately show ?thesis
    by (simp add: scan_unsigned_def sscanf_key [OF assms(1) plain_show] strtoul_value_def Let_def)
qed

lemma scan_other:
  assumes "plain name" "plain val" "CHR '':'' \<notin> set name" "CHR '':'' \<notin> set other" "name \<noteq> other"
  shows "scan_string other (setting name val) = None" "scan_unsigned other (setting name val) = None"
  by (simp_all add: scan_string_def scan_unsigned_def case_prod_beta sscanf_other_key [OF assms])

lemma not_blank_or_comment:
  assumes "plain name" "plain val" "hd name \<noteq> CHR ''#''"
  shows "fst (sscanf (setting name val) [Space, ConvS 990]) \<noteq> - 1"
    "fst (sscanf (setting name val) [Space, ConvSet ''#'' 990]) \<noteq> 1"
proof -
  have s: "plain (setting name val)" by (rule plain_setting [OF assms(1,2)])
  obtain c cs where c: "setting name val = c # cs" "c \<noteq> CHR ''#''" "\<not> isspace c"
    using assms(1,3) by (cases name) (auto simp: setting_def plain_def)
  show "fst (sscanf (setting name val) [Space, ConvS 990]) \<noteq> - 1"
    "fst (sscanf (setting name val) [Space, ConvSet ''#'' 990]) \<noteq> 1"
    using s c by (auto simp: sscanf_def plain_c_str matching_failure_def Let_def)
qed

text \<open>The five settings.\<close>

lemma plain_names:
  "plain ''server''" "plain ''port''" "plain ''timeout''" "plain ''phasePanic''" "plain ''updatePanic''"
  by (simp_all add: plain_def isspace_def)

lemma config_line_settings:
  "plain val \<Longrightarrow> length val \<le> 990 \<Longrightarrow> config_line (setting ''server'' val) c = Some (c\<lparr>server := val\<rparr>)"
  "n < 2 ^ 32 \<Longrightarrow> config_line (setting ''port'' (show_nat n)) c = Some (c\<lparr>config_port := of_nat n\<rparr>)"
  "n < 2 ^ 32 \<Longrightarrow> config_line (setting ''timeout'' (show_nat n)) c = Some (c\<lparr>config_timeout := of_nat n\<rparr>)"
  "n < 2 ^ 32 \<Longrightarrow> config_line (setting ''phasePanic'' (show_nat n)) c = Some (c\<lparr>config_phasePanic := of_nat n\<rparr>)"
  "n < 2 ^ 32 \<Longrightarrow> config_line (setting ''updatePanic'' (show_nat n)) c = Some (c\<lparr>config_updatePanic := of_nat n\<rparr>)"
  by (simp_all add: config_line_def not_blank_or_comment plain_names plain_show scan_string_own scan_unsigned_own scan_other)

section \<open>A whole file\<close>

text \<open>The lines of a file as its author means them, and as text.\<close>

datatype item =
    Server string
  | Port nat
  | Timeout nat
  | PhasePanic nat
  | UpdatePanic nat
  | Comment string
  | Blank

fun item_text :: "item \<Rightarrow> string" where
  "item_text (Server s) = setting ''server'' s"
| "item_text (Port n) = setting ''port'' (show_nat n)"
| "item_text (Timeout n) = setting ''timeout'' (show_nat n)"
| "item_text (PhasePanic n) = setting ''phasePanic'' (show_nat n)"
| "item_text (UpdatePanic n) = setting ''updatePanic'' (show_nat n)"
| "item_text (Comment s) = CHR ''#'' # s"
| "item_text Blank = []"

fun item_ok :: "item \<Rightarrow> bool" where
  "item_ok (Server s) \<longleftrightarrow> plain s \<and> length s \<le> 990"
| "item_ok (Comment s) \<longleftrightarrow> CHR 0x0A \<notin> set s"
| "item_ok Blank \<longleftrightarrow> True"
| "item_ok (Port n) \<longleftrightarrow> n < 2 ^ 32"
| "item_ok (Timeout n) \<longleftrightarrow> n < 2 ^ 32"
| "item_ok (PhasePanic n) \<longleftrightarrow> n < 2 ^ 32"
| "item_ok (UpdatePanic n) \<longleftrightarrow> n < 2 ^ 32"

fun apply_item :: "item \<Rightarrow> config \<Rightarrow> config" where
  "apply_item (Server s) c = c\<lparr>server := s\<rparr>"
| "apply_item (Port n) c = c\<lparr>config_port := of_nat n\<rparr>"
| "apply_item (Timeout n) c = c\<lparr>config_timeout := of_nat n\<rparr>"
| "apply_item (PhasePanic n) c = c\<lparr>config_phasePanic := of_nat n\<rparr>"
| "apply_item (UpdatePanic n) c = c\<lparr>config_updatePanic := of_nat n\<rparr>"
| "apply_item (Comment s) c = c"
| "apply_item Blank c = c"

definition file_text :: "item list \<Rightarrow> string" where
  "file_text items = concat (map (\<lambda>i. item_text i @ [CHR 0x0A]) items)"

lemma getlines_Cons: "CHR 0x0A \<notin> set l \<Longrightarrow> getlines (l @ CHR 0x0A # s) = l # getlines s"
proof -
  assume l: "CHR 0x0A \<notin> set l"
  then have "takeWhile (\<lambda>c. c \<noteq> CHR 0x0A) (l @ CHR 0x0A # s) = l"
    "dropWhile (\<lambda>c. c \<noteq> CHR 0x0A) (l @ CHR 0x0A # s) = CHR 0x0A # s"
    by (induction l) auto
  then show ?thesis by (subst getlines.simps) simp
qed

lemma plain_no_newline: "plain s \<Longrightarrow> CHR 0x0A \<notin> set s"
  by (auto simp: plain_def isspace_def)

lemma item_no_newline: "item_ok i \<Longrightarrow> CHR 0x0A \<notin> set (item_text i)"
  by (cases i) (auto dest: plain_no_newline [OF plain_setting [OF plain_names(1)]]
      plain_no_newline [OF plain_setting [OF plain_names(2) plain_show], THEN notE]
      plain_no_newline [OF plain_setting [OF plain_names(3) plain_show], THEN notE]
      plain_no_newline [OF plain_setting [OF plain_names(4) plain_show], THEN notE]
      plain_no_newline [OF plain_setting [OF plain_names(5) plain_show], THEN notE])

lemma getlines_file: "\<forall>i\<in>set items. item_ok i \<Longrightarrow> getlines (file_text items) = map item_text items"
proof (induction items)
  case Nil
  then show ?case by (simp add: file_text_def getlines.simps)
next
  case (Cons i items)
  then show ?case by (simp add: file_text_def getlines_Cons item_no_newline)
qed

lemma config_line_comment: "config_line (CHR ''#'' # s) c = Some c"
  by (simp add: config_line_def sscanf_def c_str_def isspace_def Let_def)

lemma config_line_blank: "config_line [] c = Some c"
  by (simp add: config_line_def sscanf_def c_str_def input_failure_def)

lemma config_line_item: "item_ok i \<Longrightarrow> config_line (item_text i) c = Some (apply_item i c)"
  by (cases i) (simp_all add: config_line_settings config_line_comment config_line_blank)

text \<open>C37: A configuration file in the documented form is read as it is meant: lines that set the server's
  name (up to 990 characters), the port, the time-out or a threshold (of 32 bits), comments and blank lines, in
  any order and number; the last line for a setting counts, and what no line sets is left as it was.
  A file that cannot be opened changes nothing and is reported.\<close>

theorem config_file_roundtrip:
  assumes "\<forall>i\<in>set items. item_ok i"
  shows "readFrom (Some (file_text items)) c = (True, fold apply_item items c) \<and> readFrom None c = (False, c)"
proof -
  have "read_lines (map item_text items) c = (True, fold apply_item items c)"
    using assms by (induction items arbitrary: c) (simp_all add: config_line_item)
  then show ?thesis using assms by (simp add: readFrom_def getlines_file)
qed

theorem config_file_roundtrip_witness:
  "readFrom (Some (file_text [Comment '' a server'', Server ''10.0.0.7'', Port 4445, Blank, Port 4446])) ConfigReader_new
    = (True, ConfigReader_new\<lparr>server := ''10.0.0.7'', config_port := 4446\<rparr>)"
  by (subst conjunct1 [OF config_file_roundtrip]) (auto simp: plain_def isspace_def ConfigReader_new_def)

text \<open>A port that does not fit 16 bits is accepted and cut: the client is connected to the port modulo
  65536, so 70000 becomes 4464, and the documented hazard \<^verbatim>\<open>port:-10\<close> becomes 65526.\<close>

theorem config_port_truncated:
  assumes "n < 2 ^ 32"
  shows "config_line (setting ''port'' (show_nat n)) c = Some (c\<lparr>config_port := of_nat n\<rparr>)
    \<and> unat (port (config_endpoint (c\<lparr>config_port := of_nat n\<rparr>))) = n mod 65536
    \<and> map_option (\<lambda>c. unat (port (config_endpoint c))) (config_line ''port:-10'' c) = Some 65526"
proof (intro conjI)
  show "config_line (setting ''port'' (show_nat n)) c = Some (c\<lparr>config_port := of_nat n\<rparr>)"
    by (rule config_line_settings(2) [OF assms])
  show "unat (port (config_endpoint (c\<lparr>config_port := of_nat n\<rparr>))) = n mod 65536"
    using assms by (simp add: config_endpoint_def endpoint_new_def unsigned_ucast_eq take_bit_eq_mod unat_of_nat)
  have "scan_unsigned ''port'' ''port:-10'' = Some (- 10)" "scan_string ''server'' ''port:-10'' = None"
    by (simp_all add: scan_unsigned_def scan_string_def key_def sscanf_eval)
  moreover have "fst (sscanf ''port:-10'' [Space, ConvS 990]) \<noteq> - 1"
    "fst (sscanf ''port:-10'' [Space, ConvSet ''#'' 990]) \<noteq> 1"
    by (simp_all add: sscanf_eval)
  ultimately have "config_line ''port:-10'' c = Some (c\<lparr>config_port := - 10\<rparr>)"
    by (simp add: config_line_def)
  then show "map_option (\<lambda>c. unat (port (config_endpoint c))) (config_line ''port:-10'' c) = Some 65526"
    by (simp add: config_endpoint_def endpoint_new_def)
qed

theorem config_port_truncated_witness:
  "unat (port (config_endpoint (ConfigReader_new\<lparr>config_port := 70000\<rparr>))) = 4464"
  using config_port_truncated [of 70000 ConfigReader_new] by simp

end
