(* ===== verification/Threads.thy ===== *)
theory Threads
  imports PhaseLockedClock
begin

text \<open>
  Two threads on one \<open>PhaseLockedClock\<close>: the one that runs \<open>run\<close>, and the application's, which reads the
  clock and its offset.  The flag and the stored phase are read without the mutex; the variable clock is
  touched only with the mutex held.  So the atomic steps are the accesses of the flag and of the phase,
  and the regions under the mutex; what lies between two of them uses only variables of the
  updating thread.  Accesses of the flag are taken to be atomic and in program order, although it is
  a plain \<^verbatim>\<open>bool\<close>.  Sleeping, and when \<open>run\<close> ends, are left to the scheduler.

  The lemmas show that the steps of the updating thread alone are \<open>update\<close>, what holds of the clock
  between any two steps of the threads, and what a reader can see while the clock is being reset.
\<close>

section \<open>The steps\<close>

text \<open>Where the updating thread is: before \<open>update\<close>; at its branch; in \<open>updateClock\<close>, before its test and
  before its mutex; in \<open>setClock\<close>, before the flag is set and before the mutex; in \<open>updatePhase\<close>,
  before the mutex, and after it with what was read; and before \<open>updatePrev_\<close> is assigned.\<close>

datatype update_pc =
    Idle
  | Branch
  | Adjust
  | Set_frequency
  | Reset
  | Set_value
  | Measure
  | Store dur tp tp
  | Stamp

fun update_step :: "'a plc_scheme Clock \<Rightarrow> 'a plc_scheme Clock \<Rightarrow> update_pc \<Rightarrow> ('a plc_scheme, update_pc) call" where
  "update_step primary reference Idle w = do {
     (_, w) \<leftarrow> check_update primary w;
     Some (Branch, w)
   }"
| "update_step primary reference Branch w = Some (if inSync w then Adjust else Reset, w)"
| "update_step primary reference Adjust w =
    (if phase w = durInvalid then Some (Idle, w\<lparr>inSync := False\<rparr>)
     else if phasePanic w <s phase w \<or> phase w <s - phasePanic w then Some (Idle, w\<lparr>inSync := False\<rparr>)
     else Some (Set_frequency, w\<lparr>primaryFrequencyAvg := filtered (primaryFrequencyAvg w) (primaryFrequency w)\<rparr>))"
| "update_step primary reference Set_frequency w = do {
     (_, w) \<leftarrow> vfc_setFrequency primary (variableClockFrequency (primaryFrequencyAvg w) (phase w)) w;
     Some (Measure, w)
   }"
| "update_step primary reference Reset w = Some (Set_value, w\<lparr>inSync := True\<rparr>)"
| "update_step primary reference Set_value w = do {
     (t, w) \<leftarrow> getValue reference w;
     (_, w) \<leftarrow> vfc_setValue primary t w;
     Some (Measure, w)
   }"
| "update_step primary reference Measure w =
    (if \<not> inSync w then Some (Idle, w)
     else do {
       (ph, w) \<leftarrow> getPhase reference (vfc_getValue primary) w;
       (vv, w) \<leftarrow> vfc_getValue primary w;
       (tmp, w) \<leftarrow> getValue primary w;
       Some (Store ph vv tmp, w)
     })"
| "update_step primary reference (Store ph vv tmp) w =
    (if ph = durInvalid \<or> vv = tpInvalid \<or> tmp = tpInvalid then Some (Idle, w\<lparr>inSync := False\<rparr>)
     else
       let w = w\<lparr>phasePrev := phase w, variableValuePrev := variableValue w, primaryValuePrev := primaryValue w\<rparr>;
           w = w\<lparr>phase := ph, variableValue := vv, primaryValue := tmp\<rparr>
       in Some (Stamp, w))"
| "update_step primary reference Stamp w = do {
     (t, w) \<leftarrow> getValue primary w;
     Some (Idle, w\<lparr>updatePrev := t\<rparr>)
   }"

text \<open>The updating thread alone, from where it is to the end of \<open>update\<close>, in at most so many steps.\<close>

fun update_steps :: "nat \<Rightarrow> 'a plc_scheme Clock \<Rightarrow> 'a plc_scheme Clock \<Rightarrow> update_pc \<Rightarrow> ('a plc_scheme, unit) call" where
  "update_steps 0 primary reference pc w = None"
| "update_steps (Suc n) primary reference pc w = do {
     (pc, w) \<leftarrow> update_step primary reference pc w;
     if pc = Idle then Some ((), w) else update_steps n primary reference pc w
   }"

text \<open>The application's thread, in \<open>getValue\<close> or in \<open>getOffset\<close>: after the test of the flag, and with the result.\<close>

datatype reader_pc =
    Ready
  | Value_checked
  | Value_read tp
  | Offset_checked
  | Offset_read dur

inductive reader_step :: "'a plc_scheme Clock \<Rightarrow> reader_pc \<Rightarrow> 'a plc_scheme \<Rightarrow> reader_pc \<Rightarrow> 'a plc_scheme \<Rightarrow> bool"
  for primary where
  value_out: "\<not> inSync w \<Longrightarrow> reader_step primary Ready w (Value_read tpInvalid) w"
| value_check: "inSync w \<Longrightarrow> reader_step primary Ready w Value_checked w"
| value_take: "vfc_getValue primary w = Some (t, w') \<Longrightarrow> reader_step primary Value_checked w (Value_read t) w'"
| value_done: "reader_step primary (Value_read t) w Ready w"
| offset_out: "\<not> inSync w \<Longrightarrow> reader_step primary Ready w (Offset_read durInvalid) w"
| offset_check: "inSync w \<Longrightarrow> reader_step primary Ready w Offset_checked w"
| offset_take: "reader_step primary Offset_checked w (Offset_read (phase w)) w"
| offset_done: "reader_step primary (Offset_read d) w Ready w"

inductive_cases reader_stepE: "reader_step primary r w r' w'"

text \<open>Any interleaving of the two.\<close>

inductive interleaved :: "'a plc_scheme Clock \<Rightarrow> 'a plc_scheme Clock
    \<Rightarrow> update_pc \<times> reader_pc \<times> 'a plc_scheme \<Rightarrow> update_pc \<times> reader_pc \<times> 'a plc_scheme \<Rightarrow> bool"
  for primary reference where
  updater: "update_step primary reference u w = Some (u', w') \<Longrightarrow>
    interleaved primary reference (u, r, w) (u', r, w')"
| reader: "reader_step primary r w r' w' \<Longrightarrow> interleaved primary reference (u, r, w) (u, r', w')"

inductive_cases interleavedE: "interleaved primary reference s s'"

section \<open>The updating thread alone\<close>

lemma update_steps_Store:
  "update_steps (Suc (Suc n)) primary reference (Store ph vv tmp) w =
    (if ph = durInvalid \<or> vv = tpInvalid \<or> tmp = tpInvalid then Some ((), w\<lparr>inSync := False\<rparr>)
     else do {
       (t, w) \<leftarrow> getValue primary (w\<lparr>phasePrev := phase w, variableValuePrev := variableValue w,
         primaryValuePrev := primaryValue w, phase := ph, variableValue := vv, primaryValue := tmp\<rparr>);
       Some ((), w\<lparr>updatePrev := t\<rparr>)
     })"
  by (simp add: Let_def split_def bind_eq_Some_conv)

lemma update_steps_Measure:
  "update_steps (Suc (Suc (Suc n))) primary reference Measure w = finish_update primary reference w"
  by (cases "inSync w")
    (simp_all add: finish_update_def updatePhase_def Let_def update_steps.simps(2) [of "Suc (Suc n)"] update_steps_Store
      del: update_steps.simps(2) split: prod.splits Option.bind_splits)

lemma update_steps_Set_frequency:
  "update_steps (Suc (Suc (Suc (Suc n)))) primary reference Set_frequency w = do {
     (_, w) \<leftarrow> vfc_setFrequency primary (variableClockFrequency (primaryFrequencyAvg w) (phase w)) w;
     finish_update primary reference w }"
  by (simp add: update_steps.simps(2) [of "Suc (Suc (Suc n))"] update_steps_Measure del: update_steps.simps(2)
      split: prod.splits Option.bind_splits)

lemma update_steps_Adjust:
  "update_steps (Suc (Suc (Suc (Suc (Suc n))))) primary reference Adjust w = do {
     (ok, w) \<leftarrow> updateClock primary w;
     if \<not> ok then Some ((), w) else finish_update primary reference w }"
  by (simp add: update_steps.simps(2) [of "Suc (Suc (Suc (Suc n)))"] update_steps_Set_frequency updateClock_def Let_def
      del: update_steps.simps(2) split: prod.splits Option.bind_splits)

lemma update_steps_Reset:
  "update_steps (Suc (Suc (Suc (Suc (Suc n))))) primary reference Reset w = do {
     (_, w) \<leftarrow> setClock primary reference w;
     finish_update primary reference w }"
  by (simp add: update_steps.simps(2) [of "Suc (Suc (Suc (Suc n)))"] update_steps.simps(2) [of "Suc (Suc (Suc n))"]
      update_steps_Measure setClock_def Let_def del: update_steps.simps(2) split: prod.splits Option.bind_splits)


section \<open>Between any two steps\<close>

text \<open>What the place of the updating thread tells about the flag.\<close>

fun flag_ok :: "update_pc \<Rightarrow> bool \<Rightarrow> bool" where
  "flag_ok Idle f = True"
| "flag_ok Branch f = True"
| "flag_ok Reset f = (\<not> f)"
| "flag_ok _ f = f"

context plc_clocks
begin

lemma vfc_setFrequency_control:
  assumes "vfc_setFrequency primary f w = Some (u, w')"
  shows "snd (control w') = snd (control w)"
proof -
  from assms obtain v w1 where s: "VariableFrequencyClock_setFrequency (getValue primary) f (variableFrequencyClock w, w)
      = Some (u, (v, w1))" "w' = w1\<lparr>variableFrequencyClock := v\<rparr>"
    by (auto simp: vfc_setFrequency_def vfc_call_def Option.bind_eq_Some_conv)
  have "control w1 = control w" by (rule vfc_view(2) [OF primary_control s(1)])
  then show ?thesis by (simp add: s(2) control_def)
qed

lemma measure_control:
  assumes "getPhase reference (vfc_getValue primary) w = Some (ph, w1)" "vfc_getValue primary w1 = Some (vv, w2)"
    "getValue primary w2 = Some (tmp, w3)"
  shows "control w3 = control w"
  using phase_read_control [OF assms(1)] plc_vfc_getValue(1) [OF assms(2)] primary_control [OF assms(3)] by simp

lemma stored_ok_step:
  assumes "update_step primary reference u w = Some (u', w')" "stored_ok w" "flag_ok u (inSync w)"
  shows "stored_ok w' \<and> flag_ok u' (inSync w')"
proof (cases u)
  case Idle
  with assms(1) obtain x where "check_update primary w = Some (x, w')" "u' = Branch"
    by (auto simp: Option.bind_eq_Some_conv)
  then show ?thesis using stored_ok_check assms(2) by auto
next
  case Set_frequency
  with assms(1) obtain x where "vfc_setFrequency primary (variableClockFrequency (primaryFrequencyAvg w) (phase w)) w = Some (x, w')"
    "u' = Measure" by (auto simp: Option.bind_eq_Some_conv)
  moreover have "snd (control w') = snd (control w)" by (rule vfc_setFrequency_control) fact
  ultimately show ?thesis using assms(2,3) Set_frequency by (simp add: control_def stored_ok_def)
next
  case Set_value
  with assms(1) obtain t w1 x where s: "getValue reference w = Some (t, w1)" "vfc_setValue primary t w1 = Some (x, w')"
    "u' = Measure" by (auto simp: Option.bind_eq_Some_conv)
  from s(2) have "snd (control w') = snd (control w1)"
    by (rule plc_vfc_setValue) (simp add: control_def)
  with reference_control [OF s(1)] s(3) assms(2,3) Set_value show ?thesis by (simp add: control_def stored_ok_def)
next
  case Measure
  with assms(1,3) obtain ph w1 vv w2 tmp where
    "getPhase reference (vfc_getValue primary) w = Some (ph, w1)" "vfc_getValue primary w1 = Some (vv, w2)"
    "getValue primary w2 = Some (tmp, w')" "u' = Store ph vv tmp"
    by (auto simp: Option.bind_eq_Some_conv)
  with measure_control have "control w' = control w" by blast
  from stored_ok_control [OF this] control_eqD(1) [OF this] \<open>u' = _\<close> assms(2,3) Measure show ?thesis by simp
next
  case Stamp
  with assms(1) obtain t w1 where "getValue primary w = Some (t, w1)" "u' = Idle" "w' = w1\<lparr>updatePrev := t\<rparr>"
    by (auto simp: Option.bind_eq_Some_conv)
  with primary_control [of w t w1] assms(2) show ?thesis by (simp add: control_def stored_ok_def)
next
  case (Store ph vv tmp)
  with assms show ?thesis by (cases "ph = durInvalid \<or> vv = tpInvalid \<or> tmp = tpInvalid") (auto simp: stored_ok_def Let_def)
next
  case Adjust
  with assms show ?thesis by (auto simp: stored_ok_def split: if_splits)
qed (use assms in \<open>auto simp: stored_ok_def\<close>)

lemma reader_control:
  assumes "reader_step primary r w r' w'"
  shows "control w' = control w"
  using assms by (cases rule: reader_stepE) (use plc_vfc_getValue(1) in auto)

text \<open>The invariant of the two threads.\<close>

lemma interleaved_inv:
  assumes "(interleaved primary reference)\<^sup>*\<^sup>* (u, r, w) (u', r', w')" "stored_ok w" "flag_ok u (inSync w)"
  shows "stored_ok w' \<and> flag_ok u' (inSync w')"
  using assms(1)
proof (induction "(u', r', w')" arbitrary: u' r' w' rule: rtranclp_induct)
  case base
  then show ?case using assms(2,3) by simp
next
  case (step s)
  obtain u1 r1 w1 where s: "s = (u1, r1, w1)" by (cases s)
  have i: "stored_ok w1 \<and> flag_ok u1 (inSync w1)" by (rule step.hyps(3) [OF s])
  from step.hyps(2) show ?case unfolding s
  proof (cases rule: interleaved.cases)
    case updater
    with i show ?thesis using stored_ok_step by blast
  next
    case reader
    from reader_control [OF reader(2)] have k: "control w' = control w1" .
    from stored_ok_control [OF k] control_eqD(1) [OF k] reader(1) i show ?thesis by simp
  qed
qed

end

text \<open>C10: Between any two steps of the two threads, from any reachable state of the clock, whatever the network,
  the system clock and the scheduler do: none of the six stored measurements is invalid, so an offset that is read
  after the flag was seen set is valid even while \<open>update\<close> is under way; the flag is clear where \<open>setClock\<close>
  begins, and it is set wherever \<open>updateClock\<close> and \<open>updatePhase\<close> begin (so the test at the beginning of
  \<open>updatePhase\<close> never fails) and where \<open>updatePrev_\<close> is assigned.\<close>

theorem plc_threads_invariant:
  assumes "plc_reachable w0" "(interleaved SystemClock ClockClient)\<^sup>*\<^sup>* (Idle, r0, w0) (u, r, w)"
  shows "phase w \<noteq> durInvalid \<and> phasePrev w \<noteq> durInvalid
    \<and> variableValue w \<noteq> tpInvalid \<and> variableValuePrev w \<noteq> tpInvalid
    \<and> primaryValue w \<noteq> tpInvalid \<and> primaryValuePrev w \<noteq> tpInvalid
    \<and> (\<forall>d w'. reader_step SystemClock Offset_checked w (Offset_read d) w' \<longrightarrow> d \<noteq> durInvalid)
    \<and> (u = Reset \<longrightarrow> \<not> inSync w)
    \<and> (u \<in> {Adjust, Set_frequency, Set_value, Measure, Stamp} \<longrightarrow> inSync w)"
proof -
  have "stored_ok w \<and> flag_ok u (inSync w)"
    by (rule program.interleaved_inv [OF assms(2) stored_ok_reachable [OF assms(1)]]) simp
  then show ?thesis by (auto simp: stored_ok_def elim: reader_stepE)
qed

text \<open>An update that begins while the clock is out of sync reaches the place where the flag is set.\<close>

lemma resetting:
  assumes "\<not> inSync w" "updatePrev w \<noteq> tpInvalid"
  shows "(interleaved SystemClock ClockClient)\<^sup>*\<^sup>* (Idle, r, w)
    (Set_value, r, w\<lparr>sys_reads := Suc (sys_reads w), inSync := True\<rparr>)"
proof -
  let ?I = "interleaved SystemClock ClockClient" and ?w = "w\<lparr>sys_reads := Suc (sys_reads w)\<rparr>"
  have "?I (Idle, r, w) (Branch, r, ?w)"
    by (rule updater) (use assms in \<open>simp add: check_update_def SystemClock_simps SystemClock_getValue_eq\<close>)
  moreover have "?I (Branch, r, ?w) (Reset, r, ?w)" by (rule updater) (use assms in simp)
  moreover have "?I (Reset, r, ?w) (Set_value, r, ?w\<lparr>inSync := True\<rparr>)" by (rule updater) simp
  ultimately show ?thesis by (simp add: converse_rtranclp_into_rtranclp r_into_rtranclp)
qed

theorem plc_threads_invariant_witness:
  "\<exists>w. (interleaved SystemClock ClockClient)\<^sup>*\<^sup>* (Idle, Ready, fresh_plc [] []) (Set_value, Ready, w) \<and> inSync w"
proof -
  have f: "\<not> inSync (fresh_plc [] [])" "updatePrev (fresh_plc [] []) \<noteq> tpInvalid" by simp_all
  from plc_threads_invariant [OF created [OF fresh_plc_new] resetting [OF f]] resetting [OF f, of Ready]
  show ?thesis by blast
qed

section \<open>Reading while the clock is set\<close>

text \<open>C16: The flag says that the clock is in sync before it is: \<open>setClock\<close> sets it before it takes the mutex to
  ask the reference and to set the variable clock.  A thread that calls \<open>getValue\<close> on a new clock in between gets a
  time that is not invalid, although the reference has never been asked and no packet was ever sent: the
  microseconds since the clock was constructed, as a time just after the epoch.\<close>

theorem plc_read_before_set:
  assumes "PhaseLockedClock_new SystemClock w0 = Some w"
    and "d = cdiv (sys_now w0 (sys_reads w0 + 2)) 1000 - sys_time w0" "0 \<le> sint d" "sint d \<le> 2 ^ 53"
  shows "\<exists>w'. (interleaved SystemClock ClockClient)\<^sup>*\<^sup>* (Idle, Ready, w) (Set_value, Value_read d, w')
    \<and> d \<noteq> tpInvalid \<and> isSynchronized w' \<and> sent w' = sent w0 \<and> recvs w' = recvs w0"
proof -
  let ?I = "interleaved SystemClock ClockClient"
  let ?w = "w\<lparr>sys_reads := Suc (sys_reads w), inSync := True\<rparr>"
  have w: "\<not> inSync w" "updatePrev w \<noteq> tpInvalid" "sys_reads w = Suc (sys_reads w0)" "sys_now w = sys_now w0"
    "sent w = sent w0" "recvs w = recvs w0"
    "variableFrequencyClock w = \<lparr>frequency = Fin 1000000, markerSrc = sys_time w0, marker = 0, rolledOver = False\<rparr>"
    using assms(1) by (auto simp: PhaseLockedClock_new_def VariableFrequencyClock_new_def SystemClock_simps
      SystemClock_getValue_eq client.extend_def tp0_def)
  have t: "sys_time ?w = cdiv (sys_now w0 (sys_reads w0 + 2)) 1000" by (simp add: sys_time_def w)
  have d: "diff (sys_time ?w) (sys_time w0) = d" "d \<noteq> durInvalid"
    using sys_time_valid [of ?w] sys_time_valid [of w0] assms(2-4)
    by (simp_all add: t diff_def valid_iff(2) del: sys_time_valid)
  have v: "vfc_value (variableFrequencyClock ?w) (sys_time ?w) = d" "vfc_roll (variableFrequencyClock ?w) (sys_time ?w) = variableFrequencyClock w"
    using assms(3,4) d scaled_ticks_nominal [of d] by (simp_all add: w(7) vfc_value_def vfc_roll_def word_sless_alt)
  let ?w' = "?w\<lparr>sys_reads := Suc (sys_reads ?w)\<rparr>"
  have r: "vfc_getValue SystemClock ?w = Some (d, ?w')"
    using v by (simp add: vfc_getValue_def vfc_call_def SystemClock_simps w(7) vfc_getValue_read [OF _ SystemClock_getValue_eq])
  have "?I\<^sup>*\<^sup>* (Idle, Ready, w) (Set_value, Ready, ?w)" by (rule resetting [OF w(1,2)])
  moreover have "?I (Set_value, Ready, ?w) (Set_value, Value_checked, ?w)"
    by (rule reader, rule value_check) simp
  moreover have "?I (Set_value, Value_checked, ?w) (Set_value, Value_read d, ?w')"
    by (rule reader, rule value_take [OF r])
  ultimately have "?I\<^sup>*\<^sup>* (Idle, Ready, w) (Set_value, Value_read d, ?w')" by (meson rtranclp.rtrancl_into_rtrancl)
  then show ?thesis using d(2) w(5,6) by (intro exI [of _ ?w']) (simp add: isSynchronized_def invalid_eq)
qed

theorem plc_read_before_set_witness:
  "\<exists>w w'. (interleaved SystemClock ClockClient)\<^sup>*\<^sup>* (Idle, Ready, w) (Set_value, Value_read 7000, w')
    \<and> isSynchronized w' \<and> sent (w' :: plc) = []"
proof -
  let ?w0 = "(fresh_client [] [])\<lparr>sys_now := (\<lambda>n. if n < 2 then 3000 else 7003000), sys_reads := 0\<rparr>"
  have "cdiv 3000 1000 = 3" "cdiv 7003000 1000 = 7003" by (simp_all add: cdiv_def signed_divide_int_def)
  then have d: "7000 = cdiv (sys_now ?w0 (sys_reads ?w0 + 2)) 1000 - sys_time ?w0" by (simp add: sys_time_def)
  obtain w where "PhaseLockedClock_new SystemClock ?w0 = Some w"
    by (simp add: PhaseLockedClock_new_def VariableFrequencyClock_new_def SystemClock_simps SystemClock_getValue_eq)
  from plc_read_before_set [OF this d] show ?thesis by (fastforce simp: fresh_client_def)
qed

end
