(* ===== verification/Api.thy ===== *)
theory Api
  imports ConfigReader Threads
begin

text \<open>
  \<open>clockkit.cpp\<close>: the functions \<open>ckInitialize\<close>, \<open>ckTerminate\<close>, \<open>ckKill\<close>, \<open>ckTimeAsValue\<close>, \<open>ckTimeAsString\<close>,
  \<open>ckInSync\<close> and \<open>ckOffset\<close>, which applications and the bindings for scripting languages call.

  The state holds the file's static variables.  Each call of \<open>buildClock\<close> that succeeds makes a clock and its
  client, which are one record, as in \<open>PhaseLockedClock\<close>; \<open>ck_plc\<close> is the pointer \<open>plc\<close>, with the
  number of the object that it points to, and \<open>ck_cli\<close> the pointer \<open>cli\<close>.  \<open>th_clocks\<close> are the threads that were started,
  each by the number of the object that its \<open>run\<close> was called on; the pointer \<open>th_clock\<close>
  is to the last one, and is never used.  A file is looked up by name in \<open>files\<close>.  What is
  compiled only with \<^verbatim>\<open>DEBUG\<close> is left out.

  The lemmas say when each function shows the invalid value, and which threads are left when.
\<close>

record ck =
  ck_plc :: "(nat \<times> plc) option"
  ck_cli :: "nat option"
  th_clocks :: "nat list"
  end_clocks :: bool
  strTime :: string
  atexit_handlers :: nat
  built :: nat
  kissnet_error_state :: error_state
  world :: os

definition ck_start :: "os \<Rightarrow> ck" where
  "ck_start w = \<lparr>ck_plc = None, ck_cli = None, th_clocks = [], end_clocks = False, strTime = [], atexit_handlers = 0,
     built = 0, kissnet_error_state = error_initial, world = w\<rparr>"

text \<open>The end of \<open>ckInitialize\<close>, which does not ask whether the clock is new: it registers the handler and starts a thread.\<close>

definition start_thread :: "ck \<Rightarrow> ck" where
  "start_thread s = (case ck_plc s of
      None \<Rightarrow> s
    | Some (i, _) \<Rightarrow> s\<lparr>atexit_handlers := Suc (atexit_handlers s), th_clocks := th_clocks s @ [i]\<rparr>)"

definition ckInitialize ::
  "(string \<Rightarrow> string \<Rightarrow> sockaddr list option) \<Rightarrow> (sockaddr \<Rightarrow> int) \<Rightarrow> (string \<Rightarrow> string option)
   \<Rightarrow> string option \<Rightarrow> ck \<Rightarrow> string \<times> stop option + ck option" where
  "ckInitialize getaddrinfo syscall_socket files filename s =
    (if ck_plc s = None then
       let (ok, config) = (case filename of
             None \<Rightarrow> (True, ConfigReader_new)
           | Some name \<Rightarrow> readFrom (files name) ConfigReader_new)
       in if \<not> ok then Inr (Some s)
          else (case buildClock getaddrinfo syscall_socket (kissnet_error_state s) (world s) config of
              Inl stopped \<Rightarrow> Inl stopped
            | Inr plc_and_cli \<Rightarrow> Inr (do {
                (e, plc) \<leftarrow> plc_and_cli;
                let s = s\<lparr>ck_plc := Some (built s, plc), ck_cli := Some (built s), built := Suc (built s),
                  kissnet_error_state := e\<rparr>;
                Some (start_thread s)
              }))
     else Inr (Some (start_thread s)))"

text \<open>What the deleted objects had seen of the outside world stays.\<close>

definition ckTerminate :: "ck \<Rightarrow> ck" where
  "ckTerminate s = s\<lparr>world := (case ck_plc s of None \<Rightarrow> world s | Some (_, plc) \<Rightarrow> os.truncate plc),
     ck_plc := None, ck_cli := None\<rparr>"

text \<open>The handler that \<open>ckInitialize\<close> registers runs at exit, once for every registration.\<close>

definition atexit_handler :: "ck \<Rightarrow> ck" where
  "atexit_handler s = ckTerminate s"

definition ckKill :: "(ck, unit) call" where
  "ckKill s = (case ck_plc s of
      None \<Rightarrow> Some ((), s)
    | Some (i, plc) \<Rightarrow> do {
        (_, plc) \<leftarrow> PhaseLockedClock_die ClockClient plc;
        Some ((), s\<lparr>ck_plc := Some (i, plc)\<rparr>)
      })"

definition ckTimeAsValue :: "(ck, int64) call" where
  "ckTimeAsValue s = (case ck_plc s of
      None \<Rightarrow> Some (usecInvalid, s)
    | Some (i, plc) \<Rightarrow> do {
        (t, plc) \<leftarrow> PhaseLockedClock_getValue SystemClock plc;
        Some (UsecFromTp t, s\<lparr>ck_plc := Some (i, plc)\<rparr>)
      })"

definition ckTimeAsString :: "(ck, string) call" where
  "ckTimeAsString s = (case ck_plc s of
      None \<Rightarrow> Some ([], s)
    | Some (i, plc) \<Rightarrow> do {
        (t, plc) \<leftarrow> PhaseLockedClock_getValue SystemClock plc;
        let s = s\<lparr>ck_plc := Some (i, plc), strTime := StringFromTp t\<rparr>;
        Some (strTime s, s)
      })"

definition ckInSync :: "ck \<Rightarrow> bool" where
  "ckInSync s = (case ck_plc s of None \<Rightarrow> False | Some (_, plc) \<Rightarrow> isSynchronized plc)"

definition ckOffset :: "ck \<Rightarrow> int64" where
  "ckOffset s = (case ck_plc s of None \<Rightarrow> usecInvalid | Some (_, plc) \<Rightarrow> UsecFromDur (getOffset plc))"

section \<open>What a program can do\<close>

text \<open>The calls of an application, and the updates that a thread makes of an object that is alive.\<close>

inductive ck_reachable ::
  "(string \<Rightarrow> string \<Rightarrow> sockaddr list option) \<Rightarrow> (sockaddr \<Rightarrow> int) \<Rightarrow> (string \<Rightarrow> string option) \<Rightarrow> ck \<Rightarrow> bool"
  for getaddrinfo syscall_socket files where
  started: "ck_reachable getaddrinfo syscall_socket files (ck_start w)"
| initialized: "ck_reachable getaddrinfo syscall_socket files s \<Longrightarrow>
    ckInitialize getaddrinfo syscall_socket files filename s = Inr (Some s') \<Longrightarrow>
    ck_reachable getaddrinfo syscall_socket files s'"
| thread_updated: "ck_reachable getaddrinfo syscall_socket files s \<Longrightarrow> ck_plc s = Some (i, plc) \<Longrightarrow> i \<in> set (th_clocks s) \<Longrightarrow>
    update SystemClock ClockClient plc = Some (u, plc') \<Longrightarrow>
    ck_reachable getaddrinfo syscall_socket files (s\<lparr>ck_plc := Some (i, plc')\<rparr>)"
| value_taken: "ck_reachable getaddrinfo syscall_socket files s \<Longrightarrow> ckTimeAsValue s = Some (t, s') \<Longrightarrow>
    ck_reachable getaddrinfo syscall_socket files s'"
| string_taken: "ck_reachable getaddrinfo syscall_socket files s \<Longrightarrow> ckTimeAsString s = Some (x, s') \<Longrightarrow>
    ck_reachable getaddrinfo syscall_socket files s'"
| killed: "ck_reachable getaddrinfo syscall_socket files s \<Longrightarrow> ckKill s = Some (u, s') \<Longrightarrow>
    ck_reachable getaddrinfo syscall_socket files s'"
| terminated: "ck_reachable getaddrinfo syscall_socket files s \<Longrightarrow>
    ck_reachable getaddrinfo syscall_socket files (ckTerminate s)"

lemma buildClock_Inr:
  assumes "buildClock getaddrinfo syscall_socket e w c = Inr (Some (e', plc))"
  obtains so where "udp_socket_new getaddrinfo syscall_socket (config_endpoint c) = Inr so" "socket plc = so"
    "e' = kissnet_init e" "stored_ok plc" "\<not> inSync plc" "acknowledge plc" "timeout plc = ucast (config_timeout c)"
    "phasePanic plc = ucast (config_phasePanic c)" "updatePanic plc = ucast (config_updatePanic c)"
proof -
  obtain so where s: "udp_socket_new getaddrinfo syscall_socket (config_endpoint c) = Inr so"
    using assms by (cases "udp_socket_new getaddrinfo syscall_socket (config_endpoint c)")
      (auto simp: buildClock_def ClockClient_new_def)
  let ?cli = "setAcknowledge True (setTimeout (ucast (config_timeout c)) (os.extend w
    \<lparr>timeout = 1000, client_rtt = 0, sequence = 0, acknowledge = False, socket = so\<rparr>))"
  have u: "ucast (k :: uint32) \<noteq> usecInvalid" for k
  proof -
    have "uint (ucast k :: int64) \<le> 2 ^ 32" using uint_lt2p [of k] by (simp add: unsigned_ucast_eq take_bit_eq_mod)
    then show ?thesis by (auto simp: usecInvalid_def)
  qed
  obtain p where p: "PhaseLockedClock_new SystemClock ?cli = Some p" "e' = kissnet_init e"
    "plc = setUpdatePanic (DurFromUsec (ucast (config_updatePanic c))) (setPhasePanic (DurFromUsec (ucast (config_phasePanic c))) p)"
    using assms s by (auto simp: buildClock_def ClockClient_new_def Let_def Option.bind_eq_Some_conv)
  have "socket p = so" "acknowledge p" "timeout p = ucast (config_timeout c)" "updatePanic p = 5000000" "\<not> inSync p"
    using p(1) u by (auto simp: PhaseLockedClock_new_def VariableFrequencyClock_new_def SystemClock_simps
      SystemClock_getValue_eq client.extend_def os.extend_def setAcknowledge_def setTimeout_def DurFromUsec_def)
  moreover have "stored_ok plc" using stored_ok_new [OF p(1)] by (simp add: p(3) stored_ok_set)
  ultimately show thesis
    using s p(2) by (intro that [of so]) (simp_all add: p(3) setPhasePanic_def setUpdatePanic_def DurFromUsec_def
      invalid_eq usecInvalid_def)
qed

lemma buildClock_returns:
  assumes "udp_socket_new getaddrinfo syscall_socket (config_endpoint c) = Inr so"
  obtains e' plc where "buildClock getaddrinfo syscall_socket e w c = Inr (Some (e', plc))"
    "cout plc = cout w" "sendtos plc = sendtos w" "sent plc = sent w"
  using assms
  by (auto simp: buildClock_def ClockClient_new_def PhaseLockedClock_new_def VariableFrequencyClock_new_def
      SystemClock_simps SystemClock_getValue_eq Let_def setUpdatePanic_def setPhasePanic_def setAcknowledge_def
      setTimeout_def client.extend_def os.extend_def)

lemma ckInitialize_new:
  assumes "ckInitialize getaddrinfo syscall_socket files filename s = Inr (Some s')" "ck_plc s = None"
  obtains (unreadable) name where "filename = Some name" "\<not> fst (readFrom (files name) ConfigReader_new)" "s' = s"
  | (built) c e plc where "c = (case filename of None \<Rightarrow> ConfigReader_new | Some name \<Rightarrow> snd (readFrom (files name) ConfigReader_new))"
    "buildClock getaddrinfo syscall_socket (kissnet_error_state s) (world s) c = Inr (Some (e, plc))"
    "s' = s\<lparr>ck_plc := Some (built s, plc), ck_cli := Some (built s), built := Suc (built s), kissnet_error_state := e,
      atexit_handlers := Suc (atexit_handlers s), th_clocks := th_clocks s @ [built s]\<rparr>"
proof (cases "\<exists>name. filename = Some name \<and> \<not> fst (readFrom (files name) ConfigReader_new)")
  case True
  with assms show thesis by (auto simp: ckInitialize_def split_def intro: unreadable)
next
  case False
  with assms show thesis
    by (auto simp: ckInitialize_def start_thread_def split_def Let_def Option.bind_eq_Some_conv
      split: option.splits sum.splits intro: built [OF refl])
qed

lemma ckInitialize_again:
  "ck_plc s = Some (i, plc) \<Longrightarrow> ckInitialize getaddrinfo syscall_socket files filename s
    = Inr (Some (s\<lparr>atexit_handlers := Suc (atexit_handlers s), th_clocks := th_clocks s @ [i]\<rparr>))"
  by (simp add: ckInitialize_def start_thread_def)

text \<open>The invariant of the library: its clock has a thread, and its stored measurements are valid; nothing ever ends a thread.\<close>

definition ck_inv :: "ck \<Rightarrow> bool" where
  "ck_inv s \<longleftrightarrow> \<not> end_clocks s \<and> ck_cli s = map_option fst (ck_plc s)
    \<and> (\<forall>i plc. ck_plc s = Some (i, plc) \<longrightarrow> i \<in> set (th_clocks s) \<and> stored_ok plc)
    \<and> length (th_clocks s) = atexit_handlers s \<and> (\<forall>i \<in> set (th_clocks s). i < built s)"

lemma ck_inv_object:
  assumes "ck_inv s" "ck_plc s = Some (i, plc)" "stored_ok plc'"
  shows "ck_inv (s\<lparr>ck_plc := Some (i, plc')\<rparr>)"
  using assms by (simp add: ck_inv_def)

lemma ck_inv_initialize:
  assumes "ckInitialize getaddrinfo syscall_socket files filename s = Inr (Some s')" "ck_inv s"
  shows "ck_inv s'"
proof (cases "ck_plc s")
  case None
  from assms(1) None show ?thesis
  proof (cases rule: ckInitialize_new)
    case unreadable
    then show ?thesis using assms(2) by simp
  next
    case (built c e plc)
    from built(2) have "stored_ok plc" by (rule buildClock_Inr)
    then show ?thesis using assms(2) by (auto simp: built(3) ck_inv_def less_Suc_eq)
  qed
next
  case (Some x)
  then obtain i plc where "ck_plc s = Some (i, plc)" by (cases x) simp
  from ckInitialize_again [OF this] this assms show ?thesis by (auto simp: ck_inv_def)
qed

lemma ck_inv_value:
  assumes "ckTimeAsValue s = Some (t, s')" "ck_inv s"
  shows "ck_inv s'"
proof (cases "ck_plc s")
  case None
  with assms show ?thesis by (simp add: ckTimeAsValue_def)
next
  case (Some x)
  with assms(1) obtain i plc v plc' where p: "ck_plc s = Some (i, plc)"
    "PhaseLockedClock_getValue SystemClock plc = Some (v, plc')" "s' = s\<lparr>ck_plc := Some (i, plc')\<rparr>"
    by (cases x) (auto simp: ckTimeAsValue_def Option.bind_eq_Some_conv)
  from assms(2) p(1) have "stored_ok plc" by (simp add: ck_inv_def)
  from ck_inv_object [OF assms(2) p(1) stored_ok_read [OF p(2) this]] p(3) show ?thesis by simp
qed

lemma ckTimeAsString_value:
  assumes "ckTimeAsString s = Some (x, s')"
  obtains t s1 y where "ckTimeAsValue s = Some (t, s1)" "s' = s1\<lparr>strTime := y\<rparr>"
    "ck_plc s \<noteq> None \<Longrightarrow> x = StringFromTp (TpFromUsec t)"
proof (cases "ck_plc s")
  case None
  with assms have "s' = s" by (simp add: ckTimeAsString_def)
  with None show thesis by (intro that [of usecInvalid s "strTime s"]) (simp_all add: ckTimeAsValue_def)
next
  case (Some p)
  obtain i plc where p: "ck_plc s = Some (i, plc)" using Some by (cases p) simp
  with assms obtain t plc' where t: "PhaseLockedClock_getValue SystemClock plc = Some (t, plc')"
    by (auto simp: ckTimeAsString_def Option.bind_eq_Some_conv)
  from assms p t have "x = StringFromTp t" "s' = s\<lparr>ck_plc := Some (i, plc'), strTime := StringFromTp t\<rparr>"
    by (auto simp: ckTimeAsString_def Let_def)
  with p t show thesis
    by (intro that [of "UsecFromTp t" "s\<lparr>ck_plc := Some (i, plc')\<rparr>" "StringFromTp t"])
      (simp_all add: ckTimeAsValue_def UsecFromTp_def TpFromUsec_def)
qed

lemma ck_inv_reachable: "ck_reachable getaddrinfo syscall_socket files s \<Longrightarrow> ck_inv s"
proof (induction rule: ck_reachable.induct)
  case (started w)
  then show ?case by (simp add: ck_inv_def ck_start_def)
next
  case (initialized s filename s')
  from ck_inv_initialize [OF initialized.hyps(2) initialized.IH] show ?case .
next
  case (thread_updated s i plc u plc')
  then have "stored_ok plc" by (simp add: ck_inv_def)
  from ck_inv_object [OF thread_updated.IH thread_updated.hyps(2) program.stored_ok_update [OF thread_updated.hyps(4) this]]
  show ?case .
next
  case (value_taken s t s')
  from ck_inv_value [OF value_taken.hyps(2) value_taken.IH] show ?case .
next
  case (string_taken s x s')
  obtain t s1 y where t: "ckTimeAsValue s = Some (t, s1)" "s' = s1\<lparr>strTime := y\<rparr>"
    using string_taken.hyps(2) by (rule ckTimeAsString_value)
  from ck_inv_value [OF t(1) string_taken.IH] show ?case by (simp add: ck_inv_def t(2))
next
  case (killed s u s')
  show ?case
  proof (cases "ck_plc s")
    case None
    with killed show ?thesis by (simp add: ckKill_def)
  next
    case (Some x)
    with killed.hyps(2) obtain i plc plc' v where p: "ck_plc s = Some (i, plc)"
      "PhaseLockedClock_die ClockClient plc = Some (v, plc')" "s' = s\<lparr>ck_plc := Some (i, plc')\<rparr>"
      by (cases x) (auto simp: ckKill_def Option.bind_eq_Some_conv)
    have "stored_ok plc'" using stored_ok_control [OF die_control [OF p(2)]] killed.IH p(1) by (simp add: ck_inv_def)
    from ck_inv_object [OF killed.IH p(1) this] p(3) show ?thesis by simp
  qed
next
  case (terminated s)
  then show ?case by (simp add: ck_inv_def ckTerminate_def)
qed

section \<open>What the application sees\<close>

lemma ck_value_out_of_sync:
  "\<not> ckInSync s \<Longrightarrow> ckTimeAsValue s = Some (usecInvalid, s)"
  by (auto simp: ckInSync_def ckTimeAsValue_def isSynchronized_def PhaseLockedClock_getValue_def UsecFromTp_def
      tpInvalid_def TpFromUsec_def split: option.splits)

lemma ck_value_returns: "\<exists>t k. ckTimeAsValue s = Some (t, k)"
proof (cases "ck_plc s")
  case (Some p)
  then show ?thesis using vfc_net.reads [of "snd p"]
    by (cases p; cases "inSync (snd p)") (auto simp: ckTimeAsValue_def PhaseLockedClock_getValue_def)
qed (simp add: ckTimeAsValue_def)

text \<open>C17: In every state that calls of the library and the updates of its threads can reach, the offset is the
  invalid value exactly when \<open>ckInSync\<close> is false; then the time is the invalid value too, and asking
  for it changes nothing.  Asking for the time always returns, and a string that is returned while there is a clock is that of the value
  that \<open>ckTimeAsValue\<close> would have returned.\<close>

theorem ck_invalid_out_of_sync:
  assumes "ck_reachable getaddrinfo syscall_socket files s"
  shows "(ckOffset s = usecInvalid \<longleftrightarrow> \<not> ckInSync s)
    \<and> (\<not> ckInSync s \<longrightarrow> ckTimeAsValue s = Some (usecInvalid, s))
    \<and> (\<exists>t s1 s2. ckTimeAsValue s = Some (t, s1)
        \<and> ckTimeAsString s = Some (if ck_plc s = None then [] else StringFromTp (TpFromUsec t), s2))"
proof (cases "ck_plc s")
  case None
  then show ?thesis by (simp add: ckOffset_def ckInSync_def ckTimeAsValue_def ckTimeAsString_def)
next
  case (Some p)
  obtain i plc where p: "ck_plc s = Some (i, plc)" using Some by (cases p) simp
  then have "phase plc \<noteq> durInvalid" using ck_inv_reachable [OF assms] by (simp add: ck_inv_def stored_ok_def)
  then have o: "ckOffset s = usecInvalid \<longleftrightarrow> \<not> ckInSync s"
    by (simp add: p ckOffset_def ckInSync_def getOffset_def isSynchronized_def UsecFromDur_def durInvalid_def DurFromUsec_def)
  obtain t plc' where t: "PhaseLockedClock_getValue SystemClock plc = Some (t, plc')"
    using vfc_net.reads [of plc] by (cases "inSync plc") (auto simp: PhaseLockedClock_getValue_def)
  then show ?thesis
    using ck_value_out_of_sync [of s] o t by (simp add: p ckTimeAsValue_def ckTimeAsString_def Let_def UsecFromTp_def TpFromUsec_def)
qed

text \<open>C18: Initializing from a file: if the file has no syntax error and a socket can be made, there is a new clock, out of sync,
  whose client sends to the endpoint of the file, acknowledges, and has the time-out and the
  thresholds of the file; one more thread runs, and it runs on that clock.  If the file has a syntax error or cannot be
  opened, nothing changes and there is still no clock.\<close>

theorem ckInitialize_from_file:
  assumes "ck_plc s = None" "readFrom (files name) ConfigReader_new = (ok, c)"
    and "udp_socket_new getaddrinfo syscall_socket (config_endpoint c) = Inr so"
  shows "if ok then \<exists>s' plc. ckInitialize getaddrinfo syscall_socket files (Some name) s = Inr (Some s')
      \<and> ck_plc s' = Some (built s, plc) \<and> th_clocks s' = th_clocks s @ [built s] \<and> \<not> ckInSync s'
      \<and> socket plc = so \<and> acknowledge plc \<and> timeout plc = ucast (config_timeout c)
      \<and> phasePanic plc = ucast (config_phasePanic c) \<and> updatePanic plc = ucast (config_updatePanic c)
    else ckInitialize getaddrinfo syscall_socket files (Some name) s = Inr (Some s)"
proof (cases ok)
  case False
  with assms(1,2) show ?thesis by (simp add: ckInitialize_def)
next
  case True
  obtain e plc where b: "buildClock getaddrinfo syscall_socket (kissnet_error_state s) (world s) c = Inr (Some (e, plc))"
    using assms(3) by (rule buildClock_returns)
  from b show ?thesis
    by (rule buildClock_Inr)
      (use True assms b in \<open>simp add: ckInitialize_def start_thread_def ckInSync_def isSynchronized_def\<close>)
qed

text \<open>A second \<open>ckInitialize\<close> does not look at its file: it starts another thread on the same clock,
  so that from then on two threads update the variables that belong to one, and registers the exit handler again.\<close>

theorem ckInitialize_twice:
  assumes "ck_reachable getaddrinfo syscall_socket files s" "ck_plc s = Some (i, plc)"
  shows "\<exists>s'. ckInitialize getaddrinfo syscall_socket files filename s = Inr (Some s')
    \<and> ck_plc s' = Some (i, plc) \<and> 2 \<le> count_list (th_clocks s') i \<and> atexit_handlers s' = Suc (atexit_handlers s)"
proof -
  have "i \<in> set (th_clocks s)" using ck_inv_reachable [OF assms(1)] assms(2) by (simp add: ck_inv_def)
  then have "1 \<le> count_list (th_clocks s) i" by (metis count_list_0_iff less_one not_le)
  then show ?thesis using ckInitialize_again [OF assms(2)] assms(2) by simp
qed

text \<open>C19: \<open>ckTerminate\<close> deletes the clock and its client while the thread that updates them goes on: whenever there
  is a clock to delete, a thread is left whose object no longer exists, and the flag that would end its loop is not set, here or
  anywhere.  The functions that look for a clock are safe: they show the invalid values.\<close>

theorem ckTerminate_leaves_thread:
  assumes "ck_reachable getaddrinfo syscall_socket files s" "ck_plc s = Some (i, plc)"
  shows "ck_plc (ckTerminate s) = None \<and> ck_cli (ckTerminate s) = None
    \<and> i \<in> set (th_clocks (ckTerminate s)) \<and> \<not> end_clocks (ckTerminate s)
    \<and> \<not> ckInSync (ckTerminate s) \<and> ckOffset (ckTerminate s) = usecInvalid
    \<and> ckTimeAsValue (ckTerminate s) = Some (usecInvalid, ckTerminate s)
    \<and> ckKill (ckTerminate s) = Some ((), ckTerminate s)"
  using ck_inv_reachable [OF assms(1)] assms(2)
  by (simp add: ck_inv_def ckTerminate_def ckInSync_def ckOffset_def ckTimeAsValue_def ckKill_def)

text \<open>A program that initializes with the defaults, on a host that can make sockets.\<close>

definition demo_host :: "string \<Rightarrow> string \<Rightarrow> sockaddr list option" where
  "demo_host host service = Some [\<lparr>sa_family = AF_INET, sa_host = ''127.0.0.1'', sa_port = 0x5C11\<rparr>]"

definition fresh_os :: "recvfrom_result list \<Rightarrow> os" where
  "fresh_os rs = \<lparr>sys_now = (\<lambda>n. of_nat n * 50000), sys_reads = 0, selects = [], waited = [], recvs = rs,
     sendtos = [], sent = [], cout = []\<rparr>"

lemma demo_host_socket: "\<exists>so. udp_socket_new demo_host (\<lambda>_. 3) ep = Inr so"
  by (simp add: demo_host_def udp_socket_new_def INVALID_SOCKET_def)

lemma demo_ck:
  "\<exists>s plc. ckInitialize demo_host (\<lambda>_. 3) files None (ck_start w) = Inr (Some s) \<and> ck_plc s = Some (0, plc)
    \<and> ck_reachable demo_host (\<lambda>_. 3) files s"
proof -
  obtain e plc where b: "buildClock demo_host (\<lambda>_. 3) error_initial w ConfigReader_new = Inr (Some (e, plc))"
    using demo_host_socket [of "config_endpoint ConfigReader_new"] buildClock_returns by metis
  then obtain s where s: "ckInitialize demo_host (\<lambda>_. 3) files None (ck_start w) = Inr (Some s)" "ck_plc s = Some (0, plc)"
    by (simp add: ckInitialize_def start_thread_def ck_start_def)
  with initialized [OF started s(1)] show ?thesis by blast
qed

theorem ck_invalid_out_of_sync_witness:
  "\<exists>s. ck_reachable demo_host (\<lambda>_. 3) (\<lambda>_. None) s \<and> ck_plc s \<noteq> None \<and> (ckOffset s = usecInvalid \<longleftrightarrow> \<not> ckInSync s)"
  using demo_ck ck_invalid_out_of_sync by (metis option.distinct(1))

theorem ckInitialize_from_file_witness:
  "\<exists>s plc. ckInitialize demo_host (\<lambda>_. 3) (\<lambda>_. Some []) (Some ''f'') (ck_start (fresh_os [])) = Inr (Some s)
    \<and> ck_plc s = Some (0, plc) \<and> timeout plc = 1000 \<and> phasePanic plc = 5000"
proof -
  have r: "readFrom (Some []) ConfigReader_new = (True, ConfigReader_new)" by (simp add: readFrom_def getlines.simps)
  obtain so where "udp_socket_new demo_host (\<lambda>_. 3) (config_endpoint ConfigReader_new) = Inr so"
    using demo_host_socket by blast
  from ckInitialize_from_file [of "ck_start (fresh_os [])" "\<lambda>_. Some []" "''f''", OF _ r this]
  show ?thesis by (auto simp: ck_start_def ConfigReader_new_def)
qed

theorem ckInitialize_twice_witness:
  "\<exists>s i. count_list (th_clocks s) i = 2 \<and> ck_reachable demo_host (\<lambda>_. 3) (\<lambda>_. None) s"
proof -
  obtain s plc where s: "ckInitialize demo_host (\<lambda>_. 3) (\<lambda>_. None) None (ck_start (fresh_os [])) = Inr (Some s)"
    "ck_plc s = Some (0, plc)" "ck_reachable demo_host (\<lambda>_. 3) (\<lambda>_. None) s"
    using demo_ck by blast
  obtain s' where t: "ckInitialize demo_host (\<lambda>_. 3) (\<lambda>_. None) None s = Inr (Some s')" "2 \<le> count_list (th_clocks s') 0"
    using ckInitialize_twice [OF s(3,2)] by blast
  have "length (th_clocks s) = 1"
    using s(1) by (auto simp: ckInitialize_def ck_start_def start_thread_def Option.bind_eq_Some_conv split: sum.splits)
  with t(1) s(2) have "length (th_clocks s') = 2" by (auto simp: ckInitialize_again)
  with t(2) have "count_list (th_clocks s') 0 = 2" using count_le_length [of "th_clocks s'" 0] by simp
  with initialized [OF s(3) t(1)] show ?thesis by blast
qed

theorem ckTerminate_leaves_thread_witness:
  "\<exists>s. ck_reachable demo_host (\<lambda>_. 3) (\<lambda>_. None) s \<and> ck_plc (ckTerminate s) = None \<and> th_clocks (ckTerminate s) \<noteq> []"
proof -
  obtain s plc where "ck_plc s = Some (0, plc)" "ck_reachable demo_host (\<lambda>_. 3) (\<lambda>_. None) s"
    using demo_ck by blast
  with ckTerminate_leaves_thread [of demo_host "\<lambda>_. 3" "\<lambda>_. None" s] show ?thesis by fastforce
qed

end
