(* ===== verification/Programs.thy ===== *)
theory Programs
  imports Api ClockServer
begin

text \<open>
  The programs' main functions, \<open>ClockServerMain.cpp\<close> and \<open>PhaseLockMain.cpp\<close>, and \<open>parseInt\<close> and \<open>parseFloat\<close> of \<open>Clock.h\<close>,
  with which they read their arguments.  \<open>strtol\<close> with base 0 is the C library's on 64-bit \<open>long\<close>; \<open>strtod\<close>, whose
  rounding is the C library's own affair, is an argument: its value, how many characters it read, and whether it set \<open>errno\<close>.

  The main thread of \<open>PhaseLockMain\<close> sleeps for 200 ms between two lines of output; what the clock's own
  thread does to the clock during the \<open>n\<close>th sleep is the argument \<open>other n\<close>.  A result is the exit status, or
  the way the process stops on a fatal socket error; \<open>None\<close> means that \<open>main\<close> does not return.  Usage
  messages and other output to standard error are not modelled.

  The lemmas say which numbers \<open>parseInt\<close> reads and how they end as ports, and how often and how long
  \<open>PhaseLockMain\<close> goes round.
\<close>

section \<open>Arguments\<close>

definition xdigit_val :: "char \<Rightarrow> nat" where
  "xdigit_val c = (let n = of_char c in
     if 48 \<le> n \<and> n \<le> 57 then n - 48
     else if 97 \<le> n \<and> n \<le> 102 then n - 87
     else if 65 \<le> n \<and> n \<le> 70 then n - 55
     else 16)"

text \<open>The base that a number's first characters tell, and how many of them only tell the base.\<close>

definition base_prefix :: "string \<Rightarrow> nat \<times> nat" where
  "base_prefix s =
    (if take 1 s \<noteq> ''0'' then (10, 0)
     else case drop 1 s of
       x # d # _ \<Rightarrow> if (x = CHR ''x'' \<or> x = CHR ''X'') \<and> xdigit_val d < 16 then (16, 2) else (8, 0)
     | _ \<Rightarrow> (8, 0))"

definition strtol0 :: "string \<Rightarrow> int64 \<times> nat \<times> bool" where
  "strtol0 s =
    (let spaces = length (takeWhile isspace s);
         (neg, k, body) = split_sign (drop spaces s);
         (b, prefix) = base_prefix body;
         ds = takeWhile (\<lambda>c. xdigit_val c < b) (drop prefix body);
         m = foldl (\<lambda>a c. b * a + xdigit_val c) 0 ds
     in (word_of_int (strtol_value neg m), if ds = [] then 0 else spaces + k + prefix + length ds,
         if neg then 2 ^ 63 < m else 2 ^ 63 \<le> m))"

definition parseInt :: "string \<Rightarrow> int32 option" where
  "parseInt s =
    (let s = c_str s; (val, tmp, range_error) = strtol0 s
     in if tmp = 0 \<or> tmp \<noteq> length s \<or> range_error then None else Some (ucast val))"

definition parseFloat :: "(string \<Rightarrow> double \<times> nat \<times> bool) \<Rightarrow> string \<Rightarrow> double option" where
  "parseFloat strtod s =
    (let s = c_str s; (val, tmp, range_error) = strtod s
     in if tmp = 0 \<or> tmp \<noteq> length s \<or> range_error then None else Some val)"

section \<open>The server's program\<close>

datatype main_result = Status int | Stopped "string \<times> stop option" | Still_waiting

definition ClockServerMain ::
  "(string \<Rightarrow> string \<Rightarrow> sockaddr list option) \<Rightarrow> (sockaddr \<Rightarrow> int) \<Rightarrow> (int \<Rightarrow> sockaddr \<Rightarrow> bool)
   \<Rightarrow> string list \<Rightarrow> os \<Rightarrow> (main_result \<times> server option) option" where
  "ClockServerMain getaddrinfo syscall_socket syscall_bind argv w =
    (if length argv < 2 then Some (Status 1, None)
     else
       let haveIP = length argv = 3;
           addr = (if haveIP then argv ! 1 else ''127.0.0.1'')
       in case parseInt (argv ! (if haveIP then 2 else 1)) of
            None \<Rightarrow> Some (Status 1, None)
          | Some prt \<Rightarrow> do {
              (e, sv) \<leftarrow> ClockServer_new (endpoint_new addr (ucast prt)) SystemClock_getValue error_initial w;
              let sv = setLogging True sv;
              (st, sv) \<leftarrow> ClockServer_run getaddrinfo syscall_socket syscall_bind SystemClock_getValue sv;
              Some (case st of Killed \<Rightarrow> Status 0 | Waiting \<Rightarrow> Still_waiting | Failed msg \<Rightarrow> Stopped (handle e msg), Some sv)
            })"

section \<open>The client's program\<close>

definition show_offset :: "int64 \<Rightarrow> string" where
  "show_offset offset = (if offset = usecInvalid then ''invalid'' else show_int (sint offset))"

partial_function (option) phaselock_loop ::
  "(nat \<Rightarrow> plc \<Rightarrow> (unit \<times> plc) option) \<Rightarrow> bool \<Rightarrow> nat \<Rightarrow> int64 \<Rightarrow> bool \<Rightarrow> plc \<Rightarrow> (unit \<times> plc) option" where
  "phaselock_loop other fTerminate n runtime ended w =
    (if ended then Some ((), w)
     else do {
       let offset = UsecFromDur (getOffset w);
       (t, w) \<leftarrow> PhaseLockedClock_getValue SystemClock w;
       let w = w\<lparr>cout := cout w @ [''offset: '' @ show_offset offset, StringFromTp t]\<rparr>;
       (_, w) \<leftarrow> other n w;
       let runtime = (if fTerminate then runtime - 200000 else runtime);
       phaselock_loop other fTerminate (Suc n) runtime (fTerminate \<and> runtime \<le>s 0) w
     })"

definition PhaseLockMain ::
  "(string \<Rightarrow> string \<Rightarrow> sockaddr list option) \<Rightarrow> (sockaddr \<Rightarrow> int) \<Rightarrow> (string \<Rightarrow> string option)
   \<Rightarrow> (string \<Rightarrow> double \<times> nat \<times> bool) \<Rightarrow> (nat \<Rightarrow> (plc, unit) call) \<Rightarrow> string list \<Rightarrow> os \<Rightarrow> (main_result \<times> os) option" where
  "PhaseLockMain getaddrinfo syscall_socket files strtod other argv w =
    (if length argv \<noteq> 2 \<and> length argv \<noteq> 3 then Some (Status 1, w)
     else
       let (ok, config) = readFrom (files (argv ! 1)) ConfigReader_new
       in if \<not> ok then Some (Status 1, w)
          else
            let w = w\<lparr>cout := cout w @ config_print config\<rparr>
            in case buildClock getaddrinfo syscall_socket error_initial w config of
                 Inl stopped \<Rightarrow> Some (Stopped stopped, w)
               | Inr plc_and_cli \<Rightarrow> do {
                   (e, plc) \<leftarrow> plc_and_cli;
                   let fTerminate = (length argv = 3);
                   case (if fTerminate then parseFloat strtod (argv ! 2) else Some (Fin 0)) of
                     None \<Rightarrow> Some (Status 1, os.truncate plc)
                   | Some duration \<Rightarrow> do {
                       let runtime = (if fTerminate then int64_of_double (dmul (Fin 1000000) duration) else 0);
                       (_, plc) \<leftarrow> phaselock_loop other fTerminate 0 runtime (fTerminate \<and> runtime \<le>s 0) plc;
                       (_, plc) \<leftarrow> PhaseLockedClock_die ClockClient plc;
                       Some (Status 0, os.truncate plc)
                     }
                 })"

section \<open>Reading numbers\<close>

lemma show_nat_eval:
  "\<forall>c \<in> set (show_nat n). xdigit_val c = digit_val c \<and> digit_val c < 10"
proof
  fix c
  assume "c \<in> set (show_nat n)"
  then obtain d where "d < 10" "c = digit_char d" using show_nat_props [of n] by blast
  then show "xdigit_val c = digit_val c \<and> digit_val c < 10"
    by (simp add: digit_char_def xdigit_val_def digit_val_def Let_def)
qed

lemma hd_show_nat: "0 < n \<Longrightarrow> hd (show_nat n) \<noteq> CHR ''0''"
proof (induction n rule: show_nat.induct)
  case (1 n)
  show ?case
  proof (cases "n < 10")
    case True
    then have "digit_char n \<noteq> CHR ''0''"
      using 1(2) of_char_digit [OF True] by (auto dest: arg_cong [where f = "of_char :: char \<Rightarrow> nat"])
    with True show ?thesis by (subst show_nat.simps) simp
  next
    case False
    then have "hd (show_nat (n div 10)) \<noteq> CHR ''0''" using "1.IH" by simp
    then show ?thesis using False by (subst show_nat.simps) (simp add: hd_append)
  qed
qed

lemma base_prefix_show: "base_prefix (show_nat n) = (if n = 0 then 8 else 10, 0)"
proof (cases "n = 0")
  case True
  then show ?thesis by (simp add: base_prefix_def show_nat.simps [of 0] digit_char_eval)
next
  case False
  obtain c cs where "show_nat n = c # cs" by (cases "show_nat n") auto
  with False hd_show_nat [of n] show ?thesis by (simp add: base_prefix_def)
qed

lemma foldl_show: "foldl (\<lambda>a c. 10 * a + xdigit_val c) 0 (show_nat n) = n"
proof -
  have "foldl (\<lambda>a c. 10 * a + xdigit_val c) 0 (show_nat n) = foldl (\<lambda>a c. 10 * a + digit_val c) 0 (show_nat n)"
    by (rule foldl_cong) (use show_nat_eval in auto)
  then show ?thesis using digits_val_show [of n] by (simp add: digits_val_def)
qed

lemma strtol0_body:
  obtains b where "base_prefix (show_nat n) = (b, 0)" "takeWhile (\<lambda>c. xdigit_val c < b) (show_nat n) = show_nat n"
    "foldl (\<lambda>a c. b * a + xdigit_val c) 0 (show_nat n) = n"
proof (cases "n = 0")
  case True
  then show thesis by (intro that [of 8])
    (simp_all add: base_prefix_def show_nat.simps [of 0] digit_char_eval xdigit_val_def Let_def)
next
  case False
  have "takeWhile (\<lambda>c. xdigit_val c < 10) (show_nat n) = show_nat n"
    using show_nat_eval by (simp add: takeWhile_eq_all_conv)
  with False show thesis by (intro that [of 10] foldl_show) (simp_all add: base_prefix_show)
qed

lemma strtol0_show:
  "strtol0 (show_int v) = (word_of_int (max (- (2 ^ 63)) (min (2 ^ 63 - 1) v)), length (show_int v), \<not> in_int64 v)"
proof -
  let ?n = "nat (if v < 0 then - v else v)" and ?k = "if v < 0 then 1 else 0"
  obtain c cs where c: "show_nat ?n = c # cs" by (cases "show_nat ?n") auto
  then have "\<not> isspace c" using show_nat_digits [of c ?n] by simp
  with c have s: "takeWhile isspace (show_int v) = []" by (auto simp: show_int_def isspace_def)
  have p: "split_sign (show_int v) = (v < 0, ?k, show_nat ?n)"
    using split_sign_show [of "nat v" "[]"] by (simp add: show_int_def) (simp add: split_sign_def)
  obtain b where b: "base_prefix (show_nat ?n) = (b, 0)" "takeWhile (\<lambda>c. xdigit_val c < b) (show_nat ?n) = show_nat ?n"
    "foldl (\<lambda>a c. b * a + xdigit_val c) 0 (show_nat ?n) = ?n"
    by (rule strtol0_body)
  have "strtol0 (show_int v) = (word_of_int (strtol_value (v < 0) ?n), ?k + length (show_nat ?n),
      if v < 0 then 2 ^ 63 < ?n else 2 ^ 63 \<le> ?n)"
    by (simp only: strtol0_def s p b Let_def prod.case list.size(3) drop_0) simp
  then show ?thesis by (auto simp: strtol_value_def in_int64_def show_int_def)
qed

lemma parse_int_show:
  "parseInt (show_int v) = (if in_int64 v then Some (word_of_int v) else None)"
proof -
  have "c_str (show_int v) = show_int v" using no_nul_show by (simp add: c_str_def show_int_def takeWhile_eq_all_conv)
  moreover have "show_int v \<noteq> []" by (simp add: show_int_def)
  moreover have "in_int64 v \<Longrightarrow> (ucast (word_of_int v :: int64) :: int32) = word_of_int v"
    by (simp add: ucast_down_wi is_down)
  moreover have "in_int64 v \<Longrightarrow> max (- (2 ^ 63)) (min (2 ^ 63 - 1) v) = v" by (simp add: in_int64_def)
  ultimately show ?thesis by (simp add: parseInt_def strtol0_show)
qed

text \<open>The decimal text of any integer: \<open>parseInt\<close> reads it if it fits 64 bits, and otherwise the program exits; what it
  returns is cut to 32 bits without notice, so it is the integer only if that fits 32 bits.\<close>

theorem parse_int_decimal:
  "parseInt (show_int v) = (if in_int64 v then Some (word_of_int v) else None)"
  by (rule parse_int_show)

text \<open>C20: The server's program with a port as its argument serves at that port, modulo 65536 (so that 70000 is served
  as 4464), on the loopback interface: it answers every request in order until a \<open>KILL\<close> packet,
  on which it returns 0.\<close>

theorem ckserver_answers:
  assumes "udp_socket_new gai sc \<lparr>address = ''127.0.0.1'', port = of_nat p\<rparr> = Inr s" "udp_bind sb s = Inr u" "p < 2 ^ 63"
    and "recvs w = rs @ rest" "\<forall>r\<in>set rs. tame r" "sendtos w = []"
    and "rest = [] \<or> (\<exists>d peer more. rest = Datagram d peer # more \<and> PACKET_LENGTH \<le> length d
          \<and> hd d = byte_of_type KILL \<and> sa_family peer \<noteq> AF_OTHER \<and> sa_host peer \<noteq> [])"
  shows "\<exists>sv. ClockServerMain gai sc sb [prog, show_nat p] w
        = Some (if rest = [] then Still_waiting else Status 0, Some sv)
    \<and> sent sv = sent w @ replies (\<lambda>k. cdiv (sys_now w k) 1000) (Suc (sys_reads w)) rs"
proof -
  have p: "parseInt (show_nat p) = Some (word_of_int (int p))"
    using parse_int_show [of "int p"] assms(3) by (simp add: show_int_def in_int64_def)
  have "(ucast (word_of_int (int p) :: int32) :: uint16) = word_of_int (int p)"
    by (rule ucast_down_wi) (simp add: is_down)
  then have u: "(ucast (of_nat p :: int32) :: uint16) = of_nat p" by simp
  let ?w = "setLogging True (os.extend (w\<lparr>sys_reads := Suc (sys_reads w)\<rparr>)
    \<lparr>addr_port = \<lparr>address = ''127.0.0.1'', port = of_nat p\<rparr>, ackData = [], log = False, tRecalculated = sys_time w\<rparr>)"
  have w: "addr_port ?w = \<lparr>address = ''127.0.0.1'', port = of_nat p\<rparr>" "recvs ?w = rs @ rest" "sendtos ?w = []"
    "sent ?w = sent w" "sys_now ?w = sys_now w" "sys_reads ?w = Suc (sys_reads w)"
    using assms(4,6) by (simp_all add: setLogging_def os.extend_def)
  obtain sv where "ClockServer_run gai sc sb SystemClock_getValue ?w = Some (if rest = [] then Waiting else Killed, sv)"
    "sent sv = sent w @ replies (\<lambda>k. cdiv (sys_now w k) 1000) (Suc (sys_reads w)) rs"
    using run_answers [of gai sc ?w s sb u rs rest] assms w by auto
  then show ?thesis
    by (intro exI [of _ sv]) (simp add: ClockServerMain_def p u endpoint_new_def ClockServer_new_def SystemClock_getValue_eq)
qed

section \<open>How long the client's program runs\<close>

lemma phaselock_loop_ended: "phaselock_loop other t n runtime True w = Some ((), w)"
  by (subst phaselock_loop.simps) simp

lemma phaselock_loop_turn:
  assumes "PhaseLockedClock_getValue SystemClock w = Some (t, w1)"
    and "other n (w1\<lparr>cout := cout w1 @ [''offset: '' @ show_offset (UsecFromDur (getOffset w)), StringFromTp t]\<rparr>) = Some ((), w2)"
  shows "phaselock_loop other True n runtime False w
    = phaselock_loop other True (Suc n) (runtime - 200000) (runtime - 200000 \<le>s 0) w2"
  using assms by (subst phaselock_loop.simps) (simp add: Let_def)

lemma phaselock_loop_forever:
  "phaselock_loop other t n runtime ended w = Some y \<Longrightarrow> t \<or> ended"
  by (erule phaselock_loop.raw_induct [where P = "\<lambda>other t n runtime ended w y. t \<or> ended", rotated])
    (fastforce simp: Let_def Option.bind_eq_Some_conv split: if_splits)

lemma getValue_cout:
  assumes "PhaseLockedClock_getValue SystemClock w = Some (t, w')"
  shows "cout w' = cout w \<and> sendtos w' = sendtos w"
  using assms vfc_net.read_view [of w t w'] by (auto simp: PhaseLockedClock_getValue_def net_view_eq split: if_splits)

text \<open>The loop with a duration, while the other thread prints nothing and makes no \<open>sendto\<close> fail.\<close>

lemma phaselock_loop_returns:
  assumes "\<forall>n w. sendtos w = [] \<longrightarrow> (\<exists>w'. other n w = Some ((), w') \<and> cout w' = cout w \<and> sendtos w' = [])"
  shows "sendtos w = [] \<Longrightarrow> \<exists>w'. phaselock_loop other True n runtime (runtime \<le>s 0) w = Some ((), w') \<and> sendtos w' = []
    \<and> length (cout w') = length (cout w) + 2 * nat ((sint runtime + 199999) div 200000)"
proof (induction "nat (sint runtime)" arbitrary: n runtime w rule: less_induct)
  case less
  show ?case
  proof (cases "runtime \<le>s 0")
    case True
    then have "(sint runtime + 199999) div 200000 \<le> 0" by (simp add: word_sle_eq)
    with True less.prems show ?thesis by (simp add: phaselock_loop_ended)
  next
    case False
    then have r: "0 < sint runtime" "sint (runtime - 200000) = sint runtime - 200000"
      using sint_int64_bounds [of runtime] by (simp_all add: word_sle_eq sint_diff_int64 in_int64_def)
    obtain t w1 where v: "PhaseLockedClock_getValue SystemClock w = Some (t, w1)"
      using vfc_net.reads [of w] by (cases "inSync w") (auto simp: PhaseLockedClock_getValue_def)
    let ?w1 = "w1\<lparr>cout := cout w1 @ [''offset: '' @ show_offset (UsecFromDur (getOffset w)), StringFromTp t]\<rparr>"
    have w1: "length (cout ?w1) = Suc (Suc (length (cout w)))" "sendtos ?w1 = []"
      using getValue_cout [OF v] less.prems by simp_all
    obtain w2 where o: "other n ?w1 = Some ((), w2)" "cout w2 = cout ?w1" "sendtos w2 = []"
      using assms w1(2) by blast
    obtain w' where "phaselock_loop other True (Suc n) (runtime - 200000) (runtime - 200000 \<le>s 0) w2 = Some ((), w')"
      "sendtos w' = []" "length (cout w') = length (cout w2) + 2 * nat ((sint (runtime - 200000) + 199999) div 200000)"
      using less.hyps [of "runtime - 200000" w2 "Suc n"] o(3) r by auto
    moreover have "nat ((sint runtime + 199999) div 200000) = Suc (nat ((sint runtime - 200000 + 199999) div 200000))"
      using r(1) by (simp add: nat_add_distrib)
    ultimately show ?thesis
      using phaselock_loop_turn [where other = other and n = n, OF v o(1), of runtime] False o(2) r(2) w1(1) by simp
  qed
qed


text \<open>The client's program without a duration never returns by itself, whatever the network and the clock's thread do.\<close>

theorem ckphaselock_without_duration:
  assumes "readFrom (files path) ConfigReader_new = (True, c)"
    and "udp_socket_new gai sc (config_endpoint c) = Inr so"
  shows "PhaseLockMain gai sc files strtod other [prog, path] w = None"
proof -
  obtain e plc where b: "buildClock gai sc error_initial (w\<lparr>cout := cout w @ config_print c\<rparr>) c = Inr (Some (e, plc))"
    using assms(2) by (rule buildClock_returns)
  have "phaselock_loop other False 0 0 False plc = None"
    by (rule ccontr) (use phaselock_loop_forever [of other False 0 0 False plc] in auto)
  with b assms(1) show ?thesis by (simp add: PhaseLockMain_def)
qed

theorem ckserver_answers_witness:
  "\<exists>sv. ClockServerMain (\<lambda>_ _. Some [loopback]) (\<lambda>_. 3) (\<lambda>_ _. True) [''ckserver'', show_nat 70000]
      (fresh_os [RecvFail 4, Datagram (4 # replicate 25 7) loopback]) = Some (Status 0, Some sv) \<and> sent sv = []"
proof -
  obtain s where s: "udp_socket_new (\<lambda>_ _. Some [loopback]) (\<lambda>_. 3) \<lparr>address = ''127.0.0.1'', port = of_nat 70000\<rparr> = Inr s"
    "udp_bind (\<lambda>_ _. True) s = Inr ()"
    by (simp add: udp_socket_new_def INVALID_SOCKET_def udp_bind_def)
  have "(70000 :: nat) < 2 ^ 63" by simp
  from ckserver_answers [OF s this, of "fresh_os [RecvFail 4, Datagram (4 # replicate 25 7) loopback]" "[RecvFail 4]"
      "[Datagram (4 # replicate 25 7) loopback]" "''ckserver''"]
  show ?thesis by (simp add: fresh_os_def tame_def PACKET_LENGTH_def)
qed


theorem ckphaselock_without_duration_witness:
  "PhaseLockMain demo_host (\<lambda>_. 3) (\<lambda>_. Some []) (\<lambda>s. (NaN, 0, False)) (\<lambda>_ w. Some ((), w)) [''ckphaselock'', ''f''] (fresh_os []) = None"
proof -
  have r: "readFrom (Some []) ConfigReader_new = (True, ConfigReader_new)" by (simp add: readFrom_def getlines.simps)
  obtain so where so: "udp_socket_new demo_host (\<lambda>_. 3) (config_endpoint ConfigReader_new) = Inr so"
    using demo_host_socket by blast
  from ckphaselock_without_duration [where files = "\<lambda>_. Some []", OF r so] show ?thesis .
qed

end
