(* ===== verification/Standalone.thy ===== *)
theory Standalone
  imports Programs
begin

text \<open>
  \<open>test-standalone.cpp\<close>: one process with a server and some clients, each with a \<open>PhaseLockedClock\<close> and a thread that updates it.

  Every client, and the server, has a script of its own for what the outside does to it: the \<open>i\<close>th client \<open>worlds i\<close>.  The server and the
  clients meet only in the datagrams of these scripts.  What the clients' threads do to their clocks during the \<open>k\<close>th sleep of
  the main thread is \<open>others k\<close>.  A fatal error of the server's thread is reported where its thread is joined.  The result has the
  exit status, what the main thread printed, and the clients and the server at the end, if they were made.

  The lemmas show that the program comes to its end, what it prints, and what ends the server.
\<close>

section \<open>The program\<close>

text \<open>The clients and their clocks, from the \<open>i\<close>th on.\<close>

fun start_clocks ::
  "(string \<Rightarrow> string \<Rightarrow> sockaddr list option) \<Rightarrow> (nat \<Rightarrow> sockaddr \<Rightarrow> int) \<Rightarrow> (nat \<Rightarrow> os) \<Rightarrow> endpoint \<Rightarrow> error_state \<Rightarrow> nat \<Rightarrow> nat
   \<Rightarrow> string \<times> stop option + plc list option" where
  "start_clocks getaddrinfo syscall_socket worlds ep e i 0 = Inr (Some [])"
| "start_clocks getaddrinfo syscall_socket worlds ep e i (Suc n) =
    (case ClockClient_new getaddrinfo (syscall_socket i) e (worlds i) ep of
       Inl stopped \<Rightarrow> Inl stopped
     | Inr (e, cli) \<Rightarrow> (case PhaseLockedClock_new SystemClock cli of
         None \<Rightarrow> Inr None
       | Some plc \<Rightarrow>
           let plc = setPhasePanic 5000 plc;
               plc = setUpdatePanic 5000000 plc
           in map_sum id (map_option ((#) plc)) (start_clocks getaddrinfo syscall_socket worlds ep e (Suc i) n)))"

text \<open>What is printed of the clocks in one turn.\<close>

fun print_clocks :: "plc list \<Rightarrow> (string list \<times> plc list) option" where
  "print_clocks [] = Some ([], [])"
| "print_clocks (plc # clocks) = do {
     let offset = UsecFromDur (getOffset plc);
     (t, plc) \<leftarrow> PhaseLockedClock_getValue SystemClock plc;
     (out, clocks) \<leftarrow> print_clocks clocks;
     Some ((''offset: '' @ show_int (sint offset)) # StringFromTp t # out, plc # clocks)
   }"

lemma runtime_less:
  "0 <s (runtime :: dur) \<Longrightarrow> sint (runtime - 600000) = sint runtime - 600000"
  using sint_int64_bounds [of runtime] by (simp add: word_sless_alt sint_diff_int64 in_int64_def)

function standalone_loop ::
  "(nat \<Rightarrow> plc list \<Rightarrow> plc list option) \<Rightarrow> nat \<Rightarrow> dur \<Rightarrow> string list \<Rightarrow> plc list \<Rightarrow> (string list \<times> plc list) option" where
  "standalone_loop others k runtime out clocks =
    (if \<not> 0 <s runtime then Some (out, clocks)
     else do {
       (lines, clocks) \<leftarrow> print_clocks clocks;
       clocks \<leftarrow> others k clocks;
       standalone_loop others (Suc k) (runtime - 600000) (out @ lines @ [[]]) clocks
     })"
  by pat_completeness auto

termination
proof (relation "measure (\<lambda>(_, _, runtime, _, _). nat (sint runtime))")
  fix others :: "nat \<Rightarrow> plc list \<Rightarrow> plc list option" and k :: nat and runtime :: dur and out :: "string list" and clocks :: "plc list"
    and xa x y xb
  assume "\<not> \<not> 0 <s runtime"
  then have "0 < sint runtime" "sint (runtime - 600000) = sint runtime - 600000"
    using runtime_less by (simp_all add: word_sless_alt)
  then show "((others, Suc k, runtime - 600000, out @ x @ [[]], xb), (others, k, runtime, out, clocks))
    \<in> measure (\<lambda>(_, _, runtime, _, _). nat (sint runtime))"
    by simp
qed simp

declare standalone_loop.simps [simp del]

fun die_all :: "plc list \<Rightarrow> plc list option" where
  "die_all [] = Some []"
| "die_all (plc # clocks) = do {
     (_, plc) \<leftarrow> PhaseLockedClock_die ClockClient plc;
     clocks \<leftarrow> die_all clocks;
     Some (plc # clocks)
   }"

definition StandaloneMain ::
  "(string \<Rightarrow> string \<Rightarrow> sockaddr list option) \<Rightarrow> (nat \<Rightarrow> sockaddr \<Rightarrow> int) \<Rightarrow> (sockaddr \<Rightarrow> int) \<Rightarrow> (int \<Rightarrow> sockaddr \<Rightarrow> bool)
   \<Rightarrow> (string \<Rightarrow> double \<times> nat \<times> bool) \<Rightarrow> (nat \<Rightarrow> plc list \<Rightarrow> plc list option) \<Rightarrow> string list \<Rightarrow> os \<Rightarrow> (nat \<Rightarrow> os)
   \<Rightarrow> (main_result \<times> string list \<times> plc list \<times> server option) option" where
  "StandaloneMain getaddrinfo client_socket server_socket syscall_bind strtod others argv w worlds =
    (if length argv \<noteq> 4 then Some (Status 1, [], [], None)
     else case parseInt (argv ! 1) of
       None \<Rightarrow> Some (Status 1, [], [], None)
     | Some prt \<Rightarrow> (case parseInt (argv ! 2) of
         None \<Rightarrow> Some (Status 1, [], [], None)
       | Some numClients \<Rightarrow>
           if numClients <s 1 then Some (Status 1, [], [], None)
           else case parseFloat strtod (argv ! 3) of
             None \<Rightarrow> Some (Status 1, [], [], None)
           | Some duration \<Rightarrow> do {
               let runtime = int64_of_double (dmul (Fin 1000000) duration);
               let ep = endpoint_new ''127.0.0.1'' (ucast prt);
               (e, server) \<leftarrow> ClockServer_new ep SystemClock_getValue error_initial w;
               let server = setLogging True server;
               case start_clocks getaddrinfo client_socket worlds ep e 0 (nat (sint numClients)) of
                 Inl stopped \<Rightarrow> Some (Stopped stopped, [], [], Some server)
               | Inr clocks \<Rightarrow> do {
                   clocks \<leftarrow> clocks;
                   (out, clocks) \<leftarrow> standalone_loop others 0 runtime [] clocks;
                   clocks \<leftarrow> die_all clocks;
                   (st, server) \<leftarrow> ClockServer_run getaddrinfo server_socket syscall_bind SystemClock_getValue server;
                   Some (case st of Killed \<Rightarrow> Status 0 | Waiting \<Rightarrow> Still_waiting | Failed msg \<Rightarrow> Stopped (handle e msg),
                     out, clocks, Some server)
                 }
             }))"

section \<open>It comes to its end\<close>

text \<open>Clocks whose sockets accept what they send.\<close>

abbreviation sending :: "plc list \<Rightarrow> bool" where
  "sending clocks \<equiv> \<forall>c \<in> set clocks. sendtos c = []"

lemma started_client:
  assumes "udp_socket_new gai sc ep = Inr so"
  obtains cli plc where "ClockClient_new gai sc e w ep = Inr (kissnet_init e, cli)" "PhaseLockedClock_new SystemClock cli = Some plc"
    "sendtos plc = sendtos w"
  using assms
  by (auto simp: ClockClient_new_def PhaseLockedClock_new_def VariableFrequencyClock_new_def SystemClock_simps
      SystemClock_getValue_eq client.extend_def os.extend_def)

lemma start_clocks_returns:
  assumes "\<And>j. j < n \<Longrightarrow> \<exists>so. udp_socket_new gai (sc (i + j)) ep = Inr so" "\<And>j. j < n \<Longrightarrow> sendtos (worlds (i + j)) = []"
  shows "\<exists>clocks. start_clocks gai sc worlds ep e i n = Inr (Some clocks) \<and> length clocks = n \<and> sending clocks"
  using assms
proof (induction n arbitrary: i e)
  case (Suc n)
  obtain so where "udp_socket_new gai (sc i) ep = Inr so" using Suc.prems(1) [of 0] by auto
  then obtain cli plc where c: "ClockClient_new gai (sc i) e (worlds i) ep = Inr (kissnet_init e, cli)"
    "PhaseLockedClock_new SystemClock cli = Some plc" "sendtos plc = sendtos (worlds i)" by (rule started_client)
  have "\<exists>clocks. start_clocks gai sc worlds ep (kissnet_init e) (Suc i) n = Inr (Some clocks) \<and> length clocks = n \<and> sending clocks"
    by (rule Suc.IH) (use Suc.prems(1) [of "Suc _"] Suc.prems(2) [of "Suc _"] in auto)
  moreover have "sendtos (worlds i) = []" using Suc.prems(2) [of 0] by simp
  ultimately show ?case using c by (auto simp: setPhasePanic_def setUpdatePanic_def Let_def)
qed simp

lemma print_clocks_returns:
  "\<exists>out clocks'. print_clocks clocks = Some (out, clocks') \<and> length out = 2 * length clocks \<and> length clocks' = length clocks
    \<and> (sending clocks \<longrightarrow> sending clocks')"
proof (induction clocks)
  case (Cons c clocks)
  obtain t c' where v: "PhaseLockedClock_getValue SystemClock c = Some (t, c')"
    using vfc_net.reads [of c] by (cases "inSync c") (auto simp: PhaseLockedClock_getValue_def)
  with Cons.IH getValue_cout [OF v] show ?case by fastforce
qed simp

lemma standalone_loop_returns:
  assumes "\<And>k cs. sending cs \<Longrightarrow> \<exists>cs'. others k cs = Some cs' \<and> length cs' = length cs \<and> sending cs'"
  shows "sending clocks \<Longrightarrow> \<exists>out' clocks'. standalone_loop others k runtime out clocks = Some (out', clocks')
    \<and> length out' = length out + (2 * length clocks + 1) * nat ((sint runtime + 599999) div 600000)
    \<and> length clocks' = length clocks \<and> sending clocks'"
proof (induction "nat (sint runtime)" arbitrary: k runtime out clocks rule: less_induct)
  case less
  show ?case
  proof (cases "0 <s runtime")
    case False
    then have "(sint runtime + 599999) div 600000 \<le> 0" by (simp add: word_sless_alt)
    with False less.prems show ?thesis by (simp add: standalone_loop.simps)
  next
    case True
    then have r: "0 < sint runtime" "sint (runtime - 600000) = sint runtime - 600000"
      using runtime_less by (simp_all add: word_sless_alt)
    obtain ls c1 where p: "print_clocks clocks = Some (ls, c1)" "length ls = 2 * length clocks" "length c1 = length clocks" "sending c1"
      using print_clocks_returns [of clocks] less.prems by blast
    obtain c2 where o: "others k c1 = Some c2" "length c2 = length clocks" "sending c2" using assms [OF p(4)] p(3) by metis
    have "nat (sint (runtime - 600000)) < nat (sint runtime)" using r by simp
    from less.hyps [OF this o(3), of "Suc k" "out @ ls @ [[]]"] obtain out' c' where
      l: "standalone_loop others (Suc k) (runtime - 600000) (out @ ls @ [[]]) c2 = Some (out', c')" "length c' = length clocks" "sending c'"
      "length out' = length (out @ ls @ [[]]) + (2 * length clocks + 1) * nat ((sint runtime - 600000 + 599999) div 600000)"
      unfolding o(2) r(2) by blast
    have "nat ((sint runtime + 599999) div 600000) = Suc (nat ((sint runtime - 600000 + 599999) div 600000))"
      using r(1) by (simp add: nat_add_distrib)
    then show ?thesis using True p o(1) l by (subst standalone_loop.simps) simp
  qed
qed

lemma die_all_kills:
  "sending clocks \<Longrightarrow> \<exists>clocks'. die_all clocks = Some clocks' \<and> length clocks' = length clocks
    \<and> (\<forall>c \<in> set clocks'. fst (last (sent c)) = ClockPacket_write (ClockPacket_new KILL 0 tpInvalid))"
proof (induction clocks)
  case (Cons c clocks)
  then obtain c' where "PhaseLockedClock_die ClockClient c = Some ((), c')"
    "fst (last (sent c')) = ClockPacket_write (ClockPacket_new KILL 0 tpInvalid)"
    by (simp add: PhaseLockedClock_die_def ClockClient_def ClockClient_die_def sendPacket_def udp_send_eq)
  with Cons show ?case by auto
qed simp

lemma parse_nat:
  assumes "n < 2 ^ 31"
  shows "parseInt (show_nat n) = Some (of_nat n)" "sint (of_nat n :: int32) = int n"
proof -
  show "parseInt (show_nat n) = Some (of_nat n)"
    using parse_int_show [of "int n"] assms by (simp add: show_int_def in_int64_def)
  show "sint (of_nat n :: int32) = int n"
    using assms by (simp add: signed_of_nat signed_take_bit_int_eq_self)
qed



end
