(* ===== verification/TimeService.thy ===== *)
theory TimeService
  imports Api
begin

text \<open>
  \<open>SmartEyeDLL/TimeService.cpp\<close>: the Windows DLL through which Smart Eye Pro asks for the time.  It was written against
  an older interface of the library: \<open>ckInitialize\<close> without an argument, and
  \<^verbatim>\<open>dex::Timestamp::timestampToString\<close>, are not under \<open>src\<close> and are arguments here, as are the results of
  \<open>GlobalAlloc\<close> (the address, 0 for none) and \<open>GetTimeZoneInformation\<close>.

  A handle is the address of a block that \<open>GlobalAlloc\<close> gave; \<open>blocks\<close> holds those that have not been freed.  \<open>None\<close> as the
  result of a call is undefined behaviour: an access to memory that was freed, or a write
  beyond the end of a buffer.  The part of \<open>timeToString\<close> after its \<^verbatim>\<open>return\<close> is not compiled.

  The lemmas follow a handle from its start to its end, and say what the caller gets when the clock has no time.
\<close>

definition MAGIC_SIGNATURE :: int32 where
  "MAGIC_SIGNATURE = 0x7715ABBA"

definition TIME_ZONE_ID_INVALID :: uint32 where
  "TIME_ZONE_ID_INVALID = 0xFFFFFFFF"

record 'tz TPrivateData =
  magic :: int32
  timeZoneInformation :: 'tz

record 'tz service =
  blocks :: "nat \<Rightarrow> 'tz TPrivateData option"
  kit :: ck

text \<open>\<open>DllMain\<close> does nothing, for whatever reason it is called, and returns \<^verbatim>\<open>TRUE\<close>.\<close>

definition DllMain :: "uint32 \<Rightarrow> 'tz service \<Rightarrow> bool \<times> 'tz service" where
  "DllMain ul_reason_for_call s = (True, s)"

definition checkHandle :: "nat \<Rightarrow> 'tz service \<Rightarrow> nat option option" where
  "checkHandle h s =
    (if h = 0 then Some None
     else case blocks s h of
       None \<Rightarrow> None
     | Some d \<Rightarrow> Some (if magic d = MAGIC_SIGNATURE then Some h else None))"

text \<open>The result, and what is stored in \<^verbatim>\<open>*handle\<close>.\<close>

definition startTimeService ::
  "nat \<Rightarrow> uint32 \<times> 'tz \<Rightarrow> (ck \<Rightarrow> ck) \<Rightarrow> 'tz service \<Rightarrow> (int \<times> nat) \<times> 'tz service" where
  "startTimeService allocated zone initialize s =
    (if allocated = 0 then ((0, 0), s)
     else
       let (stat, tz) = zone;
           s = s\<lparr>blocks := (blocks s)(allocated \<mapsto> \<lparr>magic = MAGIC_SIGNATURE, timeZoneInformation = tz\<rparr>)\<rparr>
       in if stat = TIME_ZONE_ID_INVALID then ((0, 0), s\<lparr>blocks := (blocks s)(allocated := None)\<rparr>)
          else ((1, allocated), s\<lparr>kit := initialize (kit s)\<rparr>))"

definition stopTimeService :: "nat \<Rightarrow> 'tz service \<Rightarrow> (int \<times> 'tz service) option" where
  "stopTimeService h s = do {
     verified \<leftarrow> checkHandle h s;
     Some (1, case verified of None \<Rightarrow> s | Some p \<Rightarrow> s\<lparr>blocks := (blocks s)(h := None)\<rparr>)
   }"

text \<open>The result, and what is stored in \<^verbatim>\<open>*currentTime\<close>, if that is not null.\<close>

definition getCurrentTime :: "nat \<Rightarrow> int64 \<Rightarrow> bool \<Rightarrow> 'tz service \<Rightarrow> ((int \<times> int64 option) \<times> 'tz service) option" where
  "getCurrentTime h offset currentTime s =
    (if \<not> currentTime then Some ((0, None), s)
     else do {
       (usec, k) \<leftarrow> ckTimeAsValue (kit s);
       Some ((1, Some (usec + cdiv offset 10)), s\<lparr>kit := k\<rparr>)
     })"

text \<open>The result, \<^verbatim>\<open>*bufferSize\<close> and the memory at \<^verbatim>\<open>textBuffer\<close>; a null pointer is \<open>None\<close>.\<close>

definition timeToString ::
  "(int64 \<Rightarrow> string) \<Rightarrow> nat \<Rightarrow> int64 \<Rightarrow> nat option \<Rightarrow> string option \<Rightarrow> 'tz service
   \<Rightarrow> (int \<times> nat option \<times> string option) option" where
  "timeToString timestampToString h currentTime bufferSize textBuffer s = do {
     pPrivateData \<leftarrow> checkHandle h s;
     if pPrivateData = None \<or> bufferSize = None \<or> textBuffer = None \<or> bufferSize = Some 0
     then Some (0, bufferSize, textBuffer)
     else
       let foo = c_str (timestampToString currentTime); memory = the textBuffer
       in if length memory \<le> length foo then None
          else Some (1, Some (length foo), Some (foo @ CHR 0x00 # drop (Suc (length foo)) memory))
   }"

section \<open>Handles\<close>

text \<open>Calls that leave the blocks alone do not change what a handle is worth.\<close>

lemma checkHandle_kit [simp]: "checkHandle h (s\<lparr>kit := k\<rparr>) = checkHandle h s"
  by (simp add: checkHandle_def)

lemma getCurrentTime_handles:
  "getCurrentTime h d c s = Some (r, s') \<Longrightarrow> checkHandle h' s' = checkHandle h' s"
  by (auto simp: getCurrentTime_def Option.bind_eq_Some_conv split: if_splits)

text \<open>A handle that \<open>startTimeService\<close> gives is accepted, whatever times are asked for, until it is stopped; \<open>stopTimeService\<close>
  reports success; but a handle that is used once more after that, if only to stop it again, is looked up in
  memory that was freed, so that the signature which is to recognize it does not help.\<close>

theorem handle_lifetime:
  assumes "startTimeService allocated zone initialize s = ((1, h), s1)" "getCurrentTime h' d c s1 = Some (r, s2)"
  shows "checkHandle h s2 = Some (Some h)
    \<and> (\<exists>s3. stopTimeService h s2 = Some (1, s3) \<and> checkHandle h s3 = None \<and> stopTimeService h s3 = None
        \<and> timeToString f h t n b s3 = None)"
proof -
  have "h \<noteq> 0" "checkHandle h s1 = Some (Some h)"
    using assms(1) by (auto simp: startTimeService_def checkHandle_def Let_def split: if_splits prod.splits)
  with getCurrentTime_handles [OF assms(2)] have c: "h \<noteq> 0" "checkHandle h s2 = Some (Some h)" by simp_all
  let ?s = "s2\<lparr>blocks := (blocks s2)(h := None)\<rparr>"
  have "stopTimeService h s2 = Some (1, ?s)" "checkHandle h ?s = None"
    using c by (simp_all add: stopTimeService_def) (simp add: checkHandle_def)
  then show ?thesis using c(2) by (auto simp: stopTimeService_def timeToString_def)
qed

section \<open>Times\<close>

text \<open>C38: \<open>getCurrentTime\<close> does not look at its handle, and reports success even when the clock has no time: out of sync, it
  stores the invalid value plus a tenth of the offset, which for an offset of 10 to \<open>2 ^ 63 - 1\<close> wraps round to a
  time before the epoch that nothing tells from a valid one.  In sync, it stores the clock's time plus the offset in microseconds.\<close>

theorem getCurrentTime_result:
  "\<exists>x s'. getCurrentTime h offset True s = Some ((1, Some x), s')
    \<and> (if ckInSync (kit s) then \<exists>k. ckTimeAsValue (kit s) = Some (x - cdiv offset 10, k)
       else x = usecInvalid + cdiv offset 10 \<and> s' = s \<and> (10 \<le> sint offset \<longrightarrow> x <s 0))"
proof (cases "ckInSync (kit s)")
  case True
  obtain t k where "ckTimeAsValue (kit s) = Some (t, k)" using ck_value_returns by blast
  with True show ?thesis by (simp add: getCurrentTime_def)
next
  case False
  from ck_value_out_of_sync [OF this] have g: "getCurrentTime h offset True s
      = Some ((1, Some (usecInvalid + cdiv offset 10)), s)" by (simp add: getCurrentTime_def)
  have "usecInvalid + cdiv offset 10 <s 0" if o: "10 \<le> sint offset"
  proof -
    have c: "sint (cdiv offset 10) = sint offset div 10" using o by (simp add: sint_cdiv sdiv_pos_cases)
    have b: "1 \<le> sint offset div 10" "sint offset div 10 < 2 ^ 62" using o sint_int64_bounds [of offset] by simp_all
    have d: "sint (cdiv offset 10 - 1) = sint offset div 10 - 1"
      using b c by (simp add: sint_diff_int64 in_int64_def)
    have m: "sint (0x8000000000000000 :: int64) = - (2 ^ 63)" by simp
    have "usecInvalid + cdiv offset 10 = 0x8000000000000000 + (cdiv offset 10 - 1)" by (simp add: usecInvalid_def)
    also have "sint \<dots> = - (2 ^ 63) + (sint offset div 10 - 1)"
      using b d m by (subst sint_add_int64) (simp_all add: in_int64_def)
    finally show ?thesis using b(2) by (simp add: word_sless_alt)
  qed
  with g False show ?thesis by simp
qed

text \<open>\<open>timeToString\<close> ignores the size of the buffer that it is told: with a buffer of that size, it writes
  beyond the end whenever the text and its NUL do not fit.  When they fit it stores the text and reports its length
  without the NUL, although the header says that the NUL is counted.\<close>

theorem timeToString_buffer:
  assumes "checkHandle h s = Some (Some h)" "0 < n" "length memory = n" "foo = c_str (timestampToString t)"
  shows "timeToString timestampToString h t (Some n) (Some memory) s
    = (if length foo + 1 \<le> n then Some (1, Some (length foo), Some (foo @ [CHR 0x00] @ drop (length foo + 1) memory)) else None)"
  using assms by (simp add: timeToString_def Let_def)

definition demo_service :: "nat service" where
  "demo_service = \<lparr>blocks = (\<lambda>_. None), kit = ck_start (fresh_os [])\<rparr>"

theorem handle_lifetime_witness:
  "\<exists>s1 s3. startTimeService 4096 (0, 1 :: nat) id demo_service = ((1, 4096), s1)
    \<and> stopTimeService 4096 s1 = Some (1, s3) \<and> stopTimeService 4096 s3 = None"
proof -
  obtain s1 where a: "startTimeService 4096 (0, 1) id demo_service = ((1, 4096), s1)"
    by (simp add: startTimeService_def TIME_ZONE_ID_INVALID_def)
  have g: "getCurrentTime 0 0 False s1 = Some ((0, None), s1)" by (simp add: getCurrentTime_def)
  from handle_lifetime [OF a g] a show ?thesis by blast
qed

theorem getCurrentTime_result_witness:
  "\<exists>x s'. getCurrentTime 0 10 True demo_service = Some ((1, Some x), s') \<and> x <s 0"
proof -
  have "\<not> ckInSync (kit demo_service)" by (simp add: demo_service_def ckInSync_def ck_start_def)
  moreover have "(10 :: int) \<le> sint (10 :: int64)" by simp
  ultimately show ?thesis using getCurrentTime_result [of 0 10 demo_service] by fastforce
qed

theorem timeToString_buffer_witness:
  "\<exists>s. checkHandle 4096 (s :: nat service) = Some (Some 4096)
    \<and> timeToString (\<lambda>_. ''abc'') 4096 0 (Some 3) (Some ''???'') s = None"
proof -
  let ?s = "snd (startTimeService 4096 (0, 1 :: nat) id demo_service)"
  have "checkHandle 4096 ?s = Some (Some 4096)"
    by (simp add: startTimeService_def checkHandle_def TIME_ZONE_ID_INVALID_def)
  with timeToString_buffer [of 4096 ?s 3 "''???''" "''abc''" "\<lambda>_. ''abc''" 0] show ?thesis
    by (auto simp: c_str_def)
qed

end
