(* ===== verification/Sockets.thy ===== *)
theory Sockets
  imports Kissnet
begin

text \<open>
  The life of \<open>kissnet.hpp\<close>'s socket objects: construction, move, \<open>close\<close>, \<open>shutdown\<close>, \<open>accept\<close>, destruction, the TCP
  \<open>connect\<close>, which tries one address after the other, and who owns the descriptors and the results of \<open>getaddrinfo\<close>.

  The state has the socket objects by address, the open descriptors with their file status flags, and
  the allocated results of \<open>getaddrinfo\<close>.  Closing a descriptor that is not open, or freeing a result that is not
  allocated, is recorded in \<open>misuse\<close>.  What the system calls return are arguments.  Calls of a method on an object
  that does not exist are \<open>None\<close>, as is a fatal error, on which the process stops.

  The lemmas show who owns what in every reachable state; \<open>Connect\<close> shows which address \<open>connect\<close> connects to.
\<close>

text \<open>An address node of the results of \<open>getaddrinfo\<close>: the list that it is in, and its place there.\<close>

type_synonym node = "nat \<times> nat"

declare split_paired_All [simp del] split_paired_Ex [simp del]

record sock_obj =
  o_sock :: int
  o_bind_loc :: endpoint
  o_results :: "nat option"
  o_addrinfo :: "node option"

record sockets =
  objects :: "nat \<Rightarrow> sock_obj option"
  descriptors :: "int \<Rightarrow> int32 option"
  addrinfos :: "nat set"
  misuse :: bool

definition no_sockets :: sockets where
  "no_sockets = \<lparr>objects = (\<lambda>_. None), descriptors = (\<lambda>_. None), addrinfos = {}, misuse = False\<rparr>"

definition closesocket :: "int \<Rightarrow> sockets \<Rightarrow> sockets" where
  "closesocket fd k =
    (if descriptors k fd = None then k\<lparr>misuse := True\<rparr> else k\<lparr>descriptors := (descriptors k)(fd := None)\<rparr>)"

definition freeaddrinfo :: "nat \<Rightarrow> sockets \<Rightarrow> sockets" where
  "freeaddrinfo p k = (if p \<notin> addrinfos k then k\<lparr>misuse := True\<rparr> else k\<lparr>addrinfos := addrinfos k - {p}\<rparr>)"

section \<open>Construction\<close>

definition empty_endpoint :: endpoint where
  "empty_endpoint = \<lparr>address = [], port = 0\<rparr>"

definition invalid_object :: sock_obj where
  "invalid_object = \<lparr>o_sock = INVALID_SOCKET, o_bind_loc = empty_endpoint, o_results = None, o_addrinfo = None\<rparr>"

definition socket_default :: "nat \<Rightarrow> sockets \<Rightarrow> sockets" where
  "socket_default a k = k\<lparr>objects := (objects k)(a \<mapsto> invalid_object)\<rparr>"

text \<open>The constructor for an endpoint: \<open>getaddrinfo\<close> gives the list at \<open>p\<close>, and \<open>rs\<close> is what \<open>socket(2)\<close> returns for
  its nodes in turn; the first that is valid is taken.\<close>

definition socket_construct :: "nat \<Rightarrow> endpoint \<Rightarrow> nat option \<Rightarrow> int list \<Rightarrow> sockets \<Rightarrow> sockets option" where
  "socket_construct a bind_to results rs k = (case results of
      None \<Rightarrow> None
    | Some p \<Rightarrow>
        let skipped = takeWhile (\<lambda>r. r = INVALID_SOCKET) rs in
        (case drop (length skipped) rs of
          [] \<Rightarrow> None
        | fd # _ \<Rightarrow> Some (k\<lparr>objects := (objects k)(a \<mapsto> \<lparr>o_sock = fd, o_bind_loc = bind_to, o_results = Some p,
                  o_addrinfo = Some (p, length skipped)\<rparr>),
              descriptors := (descriptors k)(fd \<mapsto> 0), addrinfos := insert p (addrinfos k)\<rparr>)))"

definition socket_native :: "nat \<Rightarrow> int \<Rightarrow> endpoint \<Rightarrow> sockets \<Rightarrow> sockets" where
  "socket_native a native_sock bind_to k = k\<lparr>objects := (objects k)(a \<mapsto>
     \<lparr>o_sock = native_sock, o_bind_loc = bind_to, o_results = None, o_addrinfo = None\<rparr>)\<rparr>"

text \<open>What a move leaves behind; of the moved-from text of the address nothing is promised, and it is left as it was.\<close>

definition moved_from :: "sock_obj \<Rightarrow> sock_obj" where
  "moved_from x = x\<lparr>o_sock := INVALID_SOCKET, o_results := None, o_addrinfo := None\<rparr>"

definition socket_move_new :: "nat \<Rightarrow> nat \<Rightarrow> sockets \<Rightarrow> sockets option" where
  "socket_move_new a other k = do {
     y \<leftarrow> objects k other;
     Some (k\<lparr>objects := (objects k)(a \<mapsto> y, other \<mapsto> moved_from y)\<rparr>)
   }"

definition socket_move_assign :: "nat \<Rightarrow> nat \<Rightarrow> sockets \<Rightarrow> sockets option" where
  "socket_move_assign a other k =
    (if a = other then Some k
     else do {
       x \<leftarrow> objects k a;
       y \<leftarrow> objects k other;
       let k = (if \<not> o_sock x < 0 \<or> o_sock x \<noteq> INVALID_SOCKET then closesocket (o_sock x) k else k);
       Some (k\<lparr>objects := (objects k)(a \<mapsto> y, other \<mapsto> moved_from y)\<rparr>)
     })"

section \<open>Operations\<close>

definition socket_equal :: "sock_obj \<Rightarrow> sock_obj \<Rightarrow> bool" where
  "socket_equal x other \<longleftrightarrow> o_sock x = o_sock other"

definition is_valid :: "sock_obj \<Rightarrow> bool" where
  "is_valid x \<longleftrightarrow> o_sock x \<noteq> INVALID_SOCKET"

definition O_NONBLOCK :: int32 where
  "O_NONBLOCK = 0x800"

unbundle bit_operations_syntax

text \<open>\<open>fcntl\<close> fails, which is a fatal error, exactly when the descriptor is not open.\<close>

definition set_non_blocking :: "bool \<Rightarrow> int \<Rightarrow> sockets \<Rightarrow> sockets option" where
  "set_non_blocking state fd k = do {
     flags \<leftarrow> descriptors k fd;
     let newflags = (if state then flags OR O_NONBLOCK else flags AND NOT O_NONBLOCK);
     Some (k\<lparr>descriptors := (descriptors k)(fd \<mapsto> newflags)\<rparr>)
   }"

definition socket_close :: "nat \<Rightarrow> sockets \<Rightarrow> sockets option" where
  "socket_close a k = do {
     x \<leftarrow> objects k a;
     let k = (if o_sock x \<noteq> INVALID_SOCKET then closesocket (o_sock x) k else k);
     Some (k\<lparr>objects := (objects k)(a \<mapsto> x\<lparr>o_sock := INVALID_SOCKET\<rparr>)\<rparr>)
   }"

definition socket_destroy :: "nat \<Rightarrow> sockets \<Rightarrow> sockets option" where
  "socket_destroy a k = do {
     k \<leftarrow> socket_close a k;
     x \<leftarrow> objects k a;
     let k = (case o_results x of None \<Rightarrow> k | Some p \<Rightarrow> freeaddrinfo p k);
     Some (k\<lparr>objects := (objects k)(a := None)\<rparr>)
   }"

definition EINTR :: int where
  "EINTR = 4"

text \<open>\<open>accept\<close> on a TCP socket, into the new object \<open>b\<close>: \<open>accept(2)\<close> gives a descriptor and the address of its peer, or an error.\<close>

definition socket_accept :: "nat \<Rightarrow> int + int \<times> sockaddr \<Rightarrow> sockets \<Rightarrow> sockets option" where
  "socket_accept b accepted k = (case accepted of
      Inl error \<Rightarrow> if error = EWOULDBLOCK \<or> error = EINTR then Some (socket_default b k) else None
    | Inr (s, peer) \<Rightarrow> (case endpoint_of_sockaddr peer of
        Inl msg \<Rightarrow> None
      | Inr e \<Rightarrow> Some (socket_native b s e (k\<lparr>descriptors := (descriptors k)(s \<mapsto> 0)\<rparr>))))"

section \<open>Connecting\<close>

text \<open>What the system does when a socket is to be connected to one of the results: what \<open>socket(2)\<close> returns, the error of
  \<open>connect(2)\<close>, 0 for none, what \<open>select(2)\<close> returns for a time-out, or its error, and the error that \<open>getsockopt\<close> reports,
  unless it fails, which is fatal.\<close>

record attempt =
  at_socket :: int
  at_connect :: int
  at_select :: "int64 \<times> int64 \<Rightarrow> int + int"
  at_so_error :: "int option"

definition EINPROGRESS :: int where
  "EINPROGRESS = 115"

definition ETIMEDOUT :: int where
  "ETIMEDOUT = 110"

definition connect_error :: "attempt \<Rightarrow> int64 \<Rightarrow> int option" where
  "connect_error t timeout =
    (if at_connect t = EWOULDBLOCK \<or> at_connect t = EAGAIN \<or> at_connect t = EINPROGRESS
     then (case at_select t (select_timeval timeout) of
         Inl error \<Rightarrow> Some error
       | Inr ret \<Rightarrow> if ret = 0 then Some ETIMEDOUT else at_so_error t)
     else Some (at_connect t))"

text \<open>The private \<open>connect\<close>, which tries one address; the null pointer is
  \<open>None\<close>.  To follow the null pointer is undefined, and \<open>None\<close> here.\<close>

definition try_connect ::
  "nat \<Rightarrow> (node \<Rightarrow> attempt) \<Rightarrow> node option \<Rightarrow> int64 \<Rightarrow> bool \<Rightarrow> sockets \<Rightarrow> (socket_status \<times> sockets) option" where
  "try_connect a net addr timeout createsocket k = do {
     k \<leftarrow> (if createsocket then do {
             k \<leftarrow> socket_close a k;
             x \<leftarrow> objects k a;
             i \<leftarrow> addr;
             let fd = at_socket (net i);
             Some (k\<lparr>objects := (objects k)(a \<mapsto> x\<lparr>o_sock := fd, o_addrinfo := None\<rparr>),
               descriptors := (if fd = INVALID_SOCKET then descriptors k else (descriptors k)(fd \<mapsto> 0))\<rparr>)
           } else Some k);
     x \<leftarrow> objects k a;
     if o_sock x = INVALID_SOCKET then Some (errored, k)
     else do {
       let k = k\<lparr>objects := (objects k)(a \<mapsto> x\<lparr>o_addrinfo := addr\<rparr>)\<rparr>;
       k \<leftarrow> (if 0 <s timeout then set_non_blocking True (o_sock x) k else Some k);
       i \<leftarrow> addr;
       error \<leftarrow> connect_error (net i) timeout;
       k \<leftarrow> (if 0 <s timeout then set_non_blocking False (o_sock x) k else Some k);
       if error = 0 then Some (valid, k)
       else do {
         k \<leftarrow> socket_close a k;
         x \<leftarrow> objects k a;
         Some (errored, k\<lparr>objects := (objects k)(a \<mapsto> x\<lparr>o_addrinfo := None\<rparr>)\<rparr>)
       }
     }
   }"

text \<open>The loop over the other addresses of the public \<open>connect\<close>.\<close>

fun connect_others :: "nat \<Rightarrow> (node \<Rightarrow> attempt) \<Rightarrow> node option \<Rightarrow> int64 \<Rightarrow> node list \<Rightarrow> sockets \<Rightarrow> sockets option" where
  "connect_others a net curr_addr timeout [] k = Some k"
| "connect_others a net curr_addr timeout (addr # addrs) k =
    (if Some addr = curr_addr then connect_others a net curr_addr timeout addrs k
     else do {
       (status, k) \<leftarrow> try_connect a net (Some addr) timeout True k;
       if status = valid then Some k else connect_others a net curr_addr timeout addrs k
     })"

text \<open>The public \<open>connect\<close> of a TCP socket; \<open>len p\<close> is the length of the list of results at \<open>p\<close>.\<close>

definition socket_connect ::
  "nat \<Rightarrow> (nat \<Rightarrow> nat) \<Rightarrow> (node \<Rightarrow> attempt) \<Rightarrow> int64 \<Rightarrow> sockets \<Rightarrow> (socket_status \<times> sockets) option" where
  "socket_connect a len net timeout k = do {
     x \<leftarrow> objects k a;
     let curr_addr = o_addrinfo x;
     (status, k) \<leftarrow> try_connect a net curr_addr timeout False k;
     k \<leftarrow> (if status \<noteq> valid
          then connect_others a net curr_addr timeout (case o_results x of None \<Rightarrow> [] | Some p \<Rightarrow> map (Pair p) [0..<len p]) k
          else Some k);
     x \<leftarrow> objects k a;
     if o_sock x = INVALID_SOCKET then None else Some (valid, k)
   }"

text \<open>\<open>socket(2)\<close> gives out descriptors that are not in use; after \<open>close\<close> the object's own may come back.\<close>

definition fresh_sockets :: "nat \<Rightarrow> (node \<Rightarrow> attempt) \<Rightarrow> sockets \<Rightarrow> bool" where
  "fresh_sockets a net k \<longleftrightarrow> (\<forall>i x. objects k a = Some x \<longrightarrow> at_socket (net i) \<noteq> INVALID_SOCKET \<longrightarrow>
     at_socket (net i) = o_sock x \<or> descriptors k (at_socket (net i)) = None)"

section \<open>Who owns what\<close>

text \<open>The programs that use the objects as C++ allows: a new object has an address that is free, and the
  system gives out descriptors and results that are not in use.\<close>

inductive sock_reachable :: "sockets \<Rightarrow> bool" where
  none: "sock_reachable no_sockets"
| defaulted: "sock_reachable k \<Longrightarrow> objects k a = None \<Longrightarrow> sock_reachable (socket_default a k)"
| constructed: "sock_reachable k \<Longrightarrow> objects k a = None \<Longrightarrow> p \<notin> addrinfos k \<Longrightarrow>
    \<forall>fd \<in> set rs. fd = INVALID_SOCKET \<or> descriptors k fd = None \<Longrightarrow>
    socket_construct a e (Some p) rs k = Some k' \<Longrightarrow> sock_reachable k'"
| accepted: "sock_reachable k \<Longrightarrow> objects k b = None \<Longrightarrow>
    (case r of Inl e \<Rightarrow> True | Inr (fd, _) \<Rightarrow> fd \<noteq> INVALID_SOCKET \<and> descriptors k fd = None) \<Longrightarrow>
    socket_accept b r k = Some k' \<Longrightarrow> sock_reachable k'"
| move_constructed: "sock_reachable k \<Longrightarrow> objects k a = None \<Longrightarrow> socket_move_new a b k = Some k' \<Longrightarrow> sock_reachable k'"
| move_assigned: "sock_reachable k \<Longrightarrow> socket_move_assign a b k = Some k' \<Longrightarrow> sock_reachable k'"
| connected: "sock_reachable k \<Longrightarrow> fresh_sockets a net k \<Longrightarrow> socket_connect a len net timeout k = Some (st, k') \<Longrightarrow>
    sock_reachable k'"
| mode_set: "sock_reachable k \<Longrightarrow> set_non_blocking m fd k = Some k' \<Longrightarrow> sock_reachable k'"
| closed: "sock_reachable k \<Longrightarrow> socket_close a k = Some k' \<Longrightarrow> sock_reachable k'"
| destroyed: "sock_reachable k \<Longrightarrow> socket_destroy a k = Some k' \<Longrightarrow> sock_reachable k'"

text \<open>Every open descriptor has one owner and every owner's descriptor is open; of the results, every owned one is
  allocated and has one owner.\<close>

definition owns :: "sockets \<Rightarrow> nat \<Rightarrow> int \<Rightarrow> bool" where
  "owns k a fd \<longleftrightarrow> fd \<noteq> INVALID_SOCKET \<and> (\<exists>x. objects k a = Some x \<and> o_sock x = fd)"

definition holds :: "sockets \<Rightarrow> nat \<Rightarrow> nat \<Rightarrow> bool" where
  "holds k a p \<longleftrightarrow> (\<exists>x. objects k a = Some x \<and> o_results x = Some p)"

definition well_owned :: "sockets \<Rightarrow> bool" where
  "well_owned k \<longleftrightarrow> \<not> misuse k
    \<and> (\<forall>fd. descriptors k fd \<noteq> None \<longleftrightarrow> (\<exists>a. owns k a fd))
    \<and> (\<forall>a b fd. owns k a fd \<longrightarrow> owns k b fd \<longrightarrow> a = b)
    \<and> (\<forall>a p. holds k a p \<longrightarrow> p \<in> addrinfos k)
    \<and> (\<forall>a b p. holds k a p \<longrightarrow> holds k b p \<longrightarrow> a = b)"

lemma owns_frame [simp]:
  "owns (k\<lparr>descriptors := d\<rparr>) a fd = owns k a fd" "owns (k\<lparr>addrinfos := s\<rparr>) a fd = owns k a fd"
  "owns (k\<lparr>misuse := m\<rparr>) a fd = owns k a fd"
  "holds (k\<lparr>descriptors := d\<rparr>) a p = holds k a p" "holds (k\<lparr>addrinfos := s\<rparr>) a p = holds k a p"
  "holds (k\<lparr>misuse := m\<rparr>) a p = holds k a p"
  by (simp_all add: owns_def holds_def)

lemma owns_update:
  "owns (k\<lparr>objects := f\<rparr>) a fd \<longleftrightarrow> fd \<noteq> INVALID_SOCKET \<and> (\<exists>x. f a = Some x \<and> o_sock x = fd)"
  "holds (k\<lparr>objects := f\<rparr>) a p \<longleftrightarrow> (\<exists>x. f a = Some x \<and> o_results x = Some p)"
  by (simp_all add: owns_def holds_def)

lemma owns_object: "objects k a = Some x \<Longrightarrow> owns k a fd \<longleftrightarrow> fd \<noteq> INVALID_SOCKET \<and> o_sock x = fd"
  and holds_object: "objects k a = Some x \<Longrightarrow> holds k a p \<longleftrightarrow> o_results x = Some p"
  by (simp_all add: owns_def holds_def)

lemma owns_none: "objects k a = None \<Longrightarrow> \<not> owns k a fd \<and> \<not> holds k a p"
  by (simp add: owns_def holds_def)

lemma well_ownedD:
  assumes "well_owned k"
  shows "\<not> misuse k" "descriptors k fd \<noteq> None \<longleftrightarrow> (\<exists>a. owns k a fd)" "owns k a fd \<Longrightarrow> owns k b fd \<Longrightarrow> a = b"
    "holds k a p \<Longrightarrow> p \<in> addrinfos k" "holds k a p \<Longrightarrow> holds k b p \<Longrightarrow> a = b"
  using assms by (auto simp: well_owned_def)

lemma objects_descriptors: "k\<lparr>descriptors := d, objects := f\<rparr> = k\<lparr>objects := f, descriptors := d\<rparr>"
  by simp

text \<open>A new object with a descriptor and results of its own, or without.\<close>

lemma well_owned_new:
  assumes "well_owned k" "objects k a = None" "o_sock x = INVALID_SOCKET \<or> descriptors k (o_sock x) = None"
    and "\<forall>b p. o_results x = Some p \<longrightarrow> \<not> holds k b p"
  shows "well_owned (k\<lparr>objects := (objects k)(a \<mapsto> x),
    descriptors := (if o_sock x = INVALID_SOCKET then descriptors k else (descriptors k)(o_sock x \<mapsto> m)),
    addrinfos := addrinfos k \<union> set_option (o_results x)\<rparr>)"
proof -
  have o: "owns (k\<lparr>objects := (objects k)(a \<mapsto> x)\<rparr>) b fd \<longleftrightarrow> (if b = a then fd \<noteq> INVALID_SOCKET \<and> o_sock x = fd else owns k b fd)"
    and h: "holds (k\<lparr>objects := (objects k)(a \<mapsto> x)\<rparr>) b p \<longleftrightarrow> (if b = a then o_results x = Some p else holds k b p)" for b fd p
    by (simp_all add: owns_update) (simp_all add: owns_def holds_def)
  note d = well_ownedD [OF assms(1)] and n = owns_none [OF assms(2)]
  show ?thesis
    unfolding well_owned_def owns_frame
  proof (intro conjI)
    show "\<forall>fd. (descriptors (k\<lparr>objects := (objects k)(a \<mapsto> x), descriptors := if o_sock x = INVALID_SOCKET then descriptors k
        else (descriptors k)(o_sock x \<mapsto> m), addrinfos := addrinfos k \<union> set_option (o_results x)\<rparr>) fd \<noteq> None)
      \<longleftrightarrow> (\<exists>b. owns (k\<lparr>objects := (objects k)(a \<mapsto> x)\<rparr>) b fd)"
    proof
      fix fd
      have "(\<exists>b. owns (k\<lparr>objects := (objects k)(a \<mapsto> x)\<rparr>) b fd) \<longleftrightarrow> (fd \<noteq> INVALID_SOCKET \<and> o_sock x = fd) \<or> (\<exists>b. owns k b fd)"
        using o n by metis
      then show "(descriptors (k\<lparr>objects := (objects k)(a \<mapsto> x), descriptors := if o_sock x = INVALID_SOCKET then descriptors k
          else (descriptors k)(o_sock x \<mapsto> m), addrinfos := addrinfos k \<union> set_option (o_results x)\<rparr>) fd \<noteq> None)
        \<longleftrightarrow> (\<exists>b. owns (k\<lparr>objects := (objects k)(a \<mapsto> x)\<rparr>) b fd)"
        using d(2) [of fd] by (simp only:) auto
    qed
    show "\<forall>b c fd. owns (k\<lparr>objects := (objects k)(a \<mapsto> x)\<rparr>) b fd \<longrightarrow> owns (k\<lparr>objects := (objects k)(a \<mapsto> x)\<rparr>) c fd \<longrightarrow> b = c"
    proof (intro allI impI)
      fix b c fd
      assume "owns (k\<lparr>objects := (objects k)(a \<mapsto> x)\<rparr>) b fd" "owns (k\<lparr>objects := (objects k)(a \<mapsto> x)\<rparr>) c fd"
      moreover have "\<not> owns k e (o_sock x)" if "o_sock x \<noteq> INVALID_SOCKET" for e
        using that assms(3) d(2) by blast
      ultimately show "b = c" using d(3) unfolding o by metis
    qed
    show "\<forall>b p. holds (k\<lparr>objects := (objects k)(a \<mapsto> x)\<rparr>) b p \<longrightarrow> p \<in> addrinfos (k\<lparr>objects := (objects k)(a \<mapsto> x),
        descriptors := if o_sock x = INVALID_SOCKET then descriptors k else (descriptors k)(o_sock x \<mapsto> m),
        addrinfos := addrinfos k \<union> set_option (o_results x)\<rparr>)"
      using d(4) by (auto simp: h split: if_splits)
    show "\<forall>b c p. holds (k\<lparr>objects := (objects k)(a \<mapsto> x)\<rparr>) b p \<longrightarrow> holds (k\<lparr>objects := (objects k)(a \<mapsto> x)\<rparr>) c p \<longrightarrow> b = c"
      using d(4,5) assms(4) by (auto simp: h split: if_splits)
  qed (use d(1) in simp)
qed

text \<open>Closing an object's descriptor; moving.\<close>

lemma well_owned_close:
  assumes "well_owned k" "objects k a = Some x" "o_sock x \<noteq> INVALID_SOCKET"
  shows "well_owned ((closesocket (o_sock x) k)\<lparr>objects := (objects k)(a \<mapsto> x\<lparr>o_sock := INVALID_SOCKET\<rparr>)\<rparr>)"
proof -
  note d = well_ownedD [OF assms(1)] and ob = owns_object [OF assms(2)] holds_object [OF assms(2)]
  let ?k = "k\<lparr>objects := (objects k)(a \<mapsto> x\<lparr>o_sock := INVALID_SOCKET\<rparr>)\<rparr>"
  have o: "owns ?k b fd \<longleftrightarrow> b \<noteq> a \<and> owns k b fd" and h: "holds ?k b p \<longleftrightarrow> holds k b p" for b fd p
    using ob by (auto simp: owns_update) (auto simp: owns_def holds_def)
  have a: "owns k a (o_sock x)" using ob assms(3) by simp
  then have c: "(closesocket (o_sock x) k)\<lparr>objects := (objects k)(a \<mapsto> x\<lparr>o_sock := INVALID_SOCKET\<rparr>)\<rparr>
      = ?k\<lparr>descriptors := (descriptors k)(o_sock x := None)\<rparr>"
    using d(2) [of "o_sock x"] by (auto simp: closesocket_def)
  have "(\<exists>b. owns ?k b fd) \<longleftrightarrow> fd \<noteq> o_sock x \<and> (\<exists>b. owns k b fd)" for fd
    using o a d(3) ob by metis
  then show ?thesis
    unfolding c well_owned_def owns_frame h o using d by (auto simp del: not_None_eq)
qed

lemma well_owned_move:
  assumes "well_owned k" "objects k b = Some y" "a \<noteq> b" "\<not> (\<exists>fd. owns k a fd)"
  shows "well_owned (k\<lparr>objects := (objects k)(a \<mapsto> y, b \<mapsto> moved_from y)\<rparr>)"
proof -
  note d = well_ownedD [OF assms(1)] and ob = owns_object [OF assms(2)] holds_object [OF assms(2)]
  let ?k = "k\<lparr>objects := (objects k)(a \<mapsto> y, b \<mapsto> moved_from y)\<rparr>"
  have o: "owns ?k c fd \<longleftrightarrow> (if c = a then owns k b fd else c \<noteq> b \<and> owns k c fd)"
    and h: "holds ?k c p \<longleftrightarrow> (if c = a then holds k b p else c \<noteq> b \<and> holds k c p)" for c fd p
    using assms(3) ob by (auto simp: owns_update moved_from_def) (auto simp: owns_def holds_def)
  have "(\<exists>c. owns ?k c fd) \<longleftrightarrow> (\<exists>c. owns k c fd)" for fd
    using o assms(3,4) by metis
  moreover have "c = e" if "owns ?k c fd" "owns ?k e fd" for c e fd
    using that d(3) unfolding o by metis
  moreover have "c = e" if "holds ?k c p" "holds ?k e p" for c e p
    using that d(5) unfolding h by metis
  moreover have "p \<in> addrinfos k" if "holds ?k c p" for c p
    using that d(4) unfolding h by metis
  ultimately show ?thesis using d(1,2) unfolding well_owned_def by simp
qed

text \<open>Assigning a changed object that keeps its descriptor and its results, or a free address.\<close>

lemma well_owned_same:
  assumes "well_owned k" "\<forall>a fd p. owns k' a fd = owns k a fd \<and> holds k' a p = holds k a p" "misuse k' = misuse k"
    "\<forall>fd. (descriptors k' fd = None) = (descriptors k fd = None)" "addrinfos k' = addrinfos k"
  shows "well_owned k'"
  using assms by (simp add: well_owned_def)

lemma well_owned_drop:
  assumes "well_owned k" "objects k a = Some x" "o_sock x = INVALID_SOCKET"
  shows "well_owned ((case o_results x of None \<Rightarrow> k | Some p \<Rightarrow> freeaddrinfo p k)\<lparr>objects := (objects k)(a := None)\<rparr>)"
proof -
  note d = well_ownedD [OF assms(1)] and ob = owns_object [OF assms(2)] holds_object [OF assms(2)]
  let ?k = "k\<lparr>objects := (objects k)(a := None)\<rparr>"
  have o: "owns ?k b fd \<longleftrightarrow> owns k b fd" and h: "holds ?k b p \<longleftrightarrow> b \<noteq> a \<and> holds k b p" for b fd p
    using ob assms(3) by (auto simp: owns_update) (auto simp: owns_def holds_def)
  have w: "well_owned ?k" using d unfolding well_owned_def o h by auto
  show ?thesis
  proof (cases "o_results x")
    case (Some p)
    then have p: "holds k a p" "p \<in> addrinfos k" using ob d(4) by blast+
    then have "(freeaddrinfo p k)\<lparr>objects := (objects k)(a := None)\<rparr> = ?k\<lparr>addrinfos := addrinfos k - {p}\<rparr>"
      by (simp add: freeaddrinfo_def)
    moreover have "q \<noteq> p" if "holds ?k b q" for b q using that p d(5) unfolding h by metis
    ultimately show ?thesis using w Some by (auto simp: well_owned_def)
  qed (use w in simp)
qed

lemma well_owned_socket_close:
  assumes "well_owned k" "socket_close a k = Some k'"
  shows "well_owned k' \<and> (\<exists>x. objects k' a = Some x \<and> o_sock x = INVALID_SOCKET)"
proof -
  obtain x where x: "objects k a = Some x" using assms(2) by (auto simp: socket_close_def Option.bind_eq_Some_conv)
  have c: "objects (closesocket fd k) = objects k" for fd by (simp add: closesocket_def)
  show ?thesis
  proof (cases "o_sock x = INVALID_SOCKET")
    case True
    then have "(objects k)(a \<mapsto> x\<lparr>o_sock := INVALID_SOCKET\<rparr>) = objects k" using x by (auto simp: fun_eq_iff)
    with True x assms show ?thesis by (auto simp: socket_close_def)
  next
    case False
    with well_owned_close [OF assms(1) x] x c assms(2) show ?thesis by (auto simp: socket_close_def Let_def)
  qed
qed

lemma well_owned_construct:
  assumes "well_owned k" "objects k a = None" "p \<notin> addrinfos k" "\<forall>fd \<in> set rs. fd = INVALID_SOCKET \<or> descriptors k fd = None"
    and "socket_construct a e (Some p) rs k = Some k'"
  shows "well_owned k'"
proof -
  let ?n = "length (takeWhile (\<lambda>r. r = INVALID_SOCKET) rs)"
  obtain fd r where f: "drop ?n rs = fd # r"
    using assms(5) by (cases "drop ?n rs") (auto simp: socket_construct_def Let_def)
  then have "dropWhile (\<lambda>r. r = INVALID_SOCKET) rs = fd # r" by (simp add: dropWhile_eq_drop)
  then have v: "fd \<noteq> INVALID_SOCKET" by (simp add: dropWhile_eq_Cons_conv)
  have "fd \<in> set rs" using f by (metis in_set_dropD list.set_intros(1))
  with v assms(4) have "descriptors k fd = None" by blast
  moreover have "\<forall>b. \<not> holds k b p" using well_ownedD(4) [OF assms(1)] assms(3) by blast
  ultimately show ?thesis
    using v f assms(5) well_owned_new [OF assms(1,2), of "\<lparr>o_sock = fd, o_bind_loc = e, o_results = Some p, o_addrinfo = Some (p, ?n)\<rparr>" 0]
    by (auto simp: socket_construct_def Let_def)
qed

lemma well_owned_accept:
  assumes "well_owned k" "objects k b = None" "case r of Inl e \<Rightarrow> True | Inr (fd, _) \<Rightarrow> fd \<noteq> INVALID_SOCKET \<and> descriptors k fd = None"
    and "socket_accept b r k = Some k'"
  shows "well_owned k'"
proof (cases r)
  case (Inl e)
  with assms(4) have "k' = socket_default b k" by (auto simp: socket_accept_def split: if_splits)
  with well_owned_new [OF assms(1,2), of invalid_object] show ?thesis by (simp add: socket_default_def invalid_object_def)
next
  case (Inr q)
  then obtain fd peer ep where q: "q = (fd, peer)" "fd \<noteq> INVALID_SOCKET" "descriptors k fd = None"
    "k' = socket_native b fd ep (k\<lparr>descriptors := (descriptors k)(fd \<mapsto> 0)\<rparr>)"
    using assms(3,4) by (cases q) (auto simp: socket_accept_def split: sum.splits)
  with well_owned_new [OF assms(1,2), of "\<lparr>o_sock = fd, o_bind_loc = ep, o_results = None, o_addrinfo = None\<rparr>" 0]
  show ?thesis by (simp add: socket_native_def objects_descriptors)
qed

lemma well_owned_move_assign:
  assumes "well_owned k" "socket_move_assign a b k = Some k'"
  shows "well_owned k'"
proof (cases "a = b")
  case True
  with assms show ?thesis by (simp add: socket_move_assign_def)
next
  case False
  with assms(2) obtain x y where xy: "objects k a = Some x" "objects k b = Some y"
    by (auto simp: socket_move_assign_def Option.bind_eq_Some_conv)
  have i: "\<not> o_sock x < 0 \<or> o_sock x \<noteq> INVALID_SOCKET \<longleftrightarrow> o_sock x \<noteq> INVALID_SOCKET" by (auto simp: INVALID_SOCKET_def)
  show ?thesis
  proof (cases "o_sock x = INVALID_SOCKET")
    case True
    then have "\<not> (\<exists>fd. owns k a fd)" using owns_object [OF xy(1)] by auto
    from well_owned_move [OF assms(1) xy(2) False this] True False xy assms(2) show ?thesis
      by (simp add: socket_move_assign_def INVALID_SOCKET_def)
  next
    case valid: False
    let ?k = "(closesocket (o_sock x) k)\<lparr>objects := (objects k)(a \<mapsto> x\<lparr>o_sock := INVALID_SOCKET\<rparr>)\<rparr>"
    have "well_owned ?k" by (rule well_owned_close [OF assms(1) xy(1) valid])
    moreover have "objects ?k b = Some y" using xy(2) False by simp
    moreover have "\<not> (\<exists>fd. owns ?k a fd)" by (simp add: owns_update)
    ultimately have "well_owned (?k\<lparr>objects := (objects ?k)(a \<mapsto> y, b \<mapsto> moved_from y)\<rparr>)"
      using well_owned_move False by blast
    moreover have "k' = ?k\<lparr>objects := (objects ?k)(a \<mapsto> y, b \<mapsto> moved_from y)\<rparr>"
    proof -
      have "descriptors k (o_sock x) \<noteq> None"
        using well_ownedD(2) [OF assms(1)] owns_object [OF xy(1)] valid by blast
      then show ?thesis using assms(2) xy False valid i
        by (auto simp: socket_move_assign_def closesocket_def objects_descriptors)
    qed
    ultimately show ?thesis by simp
  qed
qed

text \<open>While an object is being connected nothing changes but the object itself and its descriptor: every state is the one
  without the object, with the object put in its place.\<close>

definition place :: "nat \<Rightarrow> sock_obj \<Rightarrow> int32 \<Rightarrow> sockets \<Rightarrow> sockets" where
  "place a x fl k = k\<lparr>objects := (objects k)(a \<mapsto> x),
     descriptors := (if o_sock x = INVALID_SOCKET then descriptors k else (descriptors k)(o_sock x \<mapsto> fl))\<rparr>"

definition without :: "nat \<Rightarrow> sockets \<Rightarrow> sockets" where
  "without a k = (case objects k a of
      None \<Rightarrow> k
    | Some x \<Rightarrow> k\<lparr>objects := (objects k)(a := None), descriptors := (descriptors k)(o_sock x := None)\<rparr>)"

lemma objects_place [simp]: "objects (place a x fl k) a = Some x"
  by (simp add: place_def)

lemma place_close [simp]:
  "descriptors k (o_sock x) = None \<Longrightarrow> socket_close a (place a x fl k) = Some (place a (x\<lparr>o_sock := INVALID_SOCKET\<rparr>) fl' k)"
  by (auto simp: socket_close_def place_def closesocket_def Let_def fun_upd_idem objects_descriptors)

lemma place_mode [simp]:
  "o_sock x \<noteq> INVALID_SOCKET \<Longrightarrow> set_non_blocking m (o_sock x) (place a x fl k)
    = Some (place a x (if m then fl OR O_NONBLOCK else fl AND NOT O_NONBLOCK) k)"
  by (simp add: set_non_blocking_def place_def Let_def)

lemma place_addrinfo [simp]:
  "(place a x fl k)\<lparr>objects := (objects (place a x fl k))(a \<mapsto> x\<lparr>o_addrinfo := i\<rparr>)\<rparr> = place a (x\<lparr>o_addrinfo := i\<rparr>) fl k"
  by (simp add: place_def)

lemma place_socket [simp]:
  assumes "o_sock x = INVALID_SOCKET"
  shows "(place a x fl k)\<lparr>objects := (objects (place a x fl k))(a \<mapsto> x\<lparr>o_sock := fd, o_addrinfo := i\<rparr>),
      descriptors := (if fd = INVALID_SOCKET then descriptors (place a x fl k) else (descriptors (place a x fl k))(fd \<mapsto> m))\<rparr>
    = place a (x\<lparr>o_sock := fd, o_addrinfo := i\<rparr>) m k"
  using assms by (simp add: place_def)

lemma place_flags: "o_sock x = INVALID_SOCKET \<Longrightarrow> place a x fl k = place a x fl' k"
  by (simp add: place_def)

lemma well_owned_without:
  assumes "well_owned k" "objects k a = Some x"
  shows "well_owned (without a k)"
proof -
  note d = well_ownedD [OF assms(1)] and ob = owns_object [OF assms(2)] holds_object [OF assms(2)]
  let ?k = "k\<lparr>objects := (objects k)(a := None)\<rparr>"
  have o: "owns ?k b fd \<longleftrightarrow> b \<noteq> a \<and> owns k b fd" and h: "holds ?k b p \<longleftrightarrow> b \<noteq> a \<and> holds k b p" for b fd p
    by (auto simp: owns_update) (auto simp: owns_def holds_def)
  have w: "without a k = ?k\<lparr>descriptors := (descriptors k)(o_sock x := None)\<rparr>"
    using assms(2) by (simp add: without_def)
  have "(\<exists>b. owns ?k b fd) \<longleftrightarrow> fd \<noteq> o_sock x \<and> (\<exists>b. owns k b fd)" for fd
    using o d(3) ob by (metis owns_def)
  then show ?thesis
    unfolding w well_owned_def owns_frame h o using d by (auto simp del: not_None_eq)
qed

lemma well_owned_place:
  assumes "well_owned k" "objects k a = Some x" "o_results y = o_results x"
    and "o_sock y = INVALID_SOCKET \<or> descriptors (without a k) (o_sock y) = None"
  shows "well_owned (place a y fl (without a k))"
proof -
  have r: "addrinfos (without a k) \<union> set_option (o_results y) = addrinfos (without a k)"
    using assms(2,3) well_ownedD(4) [OF assms(1)] holds_object [OF assms(2)] by (auto simp: without_def)
  have "objects (without a k) a = None" using assms(2) by (simp add: without_def)
  moreover have "\<not> holds (without a k) b p" if "o_results y = Some p" for b p
    using that assms(2,3) well_ownedD(5) [OF assms(1)] holds_object [OF assms(2)]
    by (auto simp: without_def owns_update holds_def split: if_splits)
  ultimately have "well_owned ((without a k)\<lparr>objects := (objects (without a k))(a \<mapsto> y),
      descriptors := (if o_sock y = INVALID_SOCKET then descriptors (without a k)
        else (descriptors (without a k))(o_sock y \<mapsto> fl)), addrinfos := addrinfos (without a k) \<union> set_option (o_results y)\<rparr>)"
    using assms(4) by (intro well_owned_new well_owned_without [OF assms(1,2)]) blast+
  then show ?thesis unfolding r by (simp add: place_def)
qed

lemma place_without:
  assumes "well_owned k" "objects k a = Some x"
  shows "\<exists>fl. k = place a x fl (without a k)"
proof (cases "o_sock x = INVALID_SOCKET")
  case True
  then have "\<not> (\<exists>b. owns k b (o_sock x))" by (simp add: owns_def)
  then have "descriptors k (o_sock x) = None" using well_ownedD(2) [OF assms(1)] by blast
  then have "(descriptors k)(o_sock x := None) = descriptors k" by auto
  with True assms(2) show ?thesis by (auto simp: place_def without_def fun_upd_idem)
next
  case False
  then obtain fl where "descriptors k (o_sock x) = Some fl"
    using well_ownedD(2) [OF assms(1)] owns_object [OF assms(2)] by blast
  with False assms(2) show ?thesis by (auto simp: place_def without_def fun_upd_idem intro!: exI [of _ fl])
qed

text \<open>The object may take the descriptors that the system gives out meanwhile.\<close>

definition placeable :: "sock_obj \<Rightarrow> sockets \<Rightarrow> bool" where
  "placeable x k \<longleftrightarrow> o_sock x = INVALID_SOCKET \<or> descriptors k (o_sock x) = None"

lemma try_connect_existing:
  assumes "placeable x k"
  shows "try_connect a net addr timeout False (place a x fl k) =
    (if o_sock x = INVALID_SOCKET then Some (errored, place a x fl k)
     else do {
       i \<leftarrow> addr;
       error \<leftarrow> connect_error (net i) timeout;
       let fl = (if 0 <s timeout then fl AND NOT O_NONBLOCK else fl);
       Some (if error = 0 then (valid, place a (x\<lparr>o_addrinfo := addr\<rparr>) fl k)
         else (errored, place a (x\<lparr>o_sock := INVALID_SOCKET, o_addrinfo := None\<rparr>) fl k))
     })"
proof (cases "o_sock x = INVALID_SOCKET")
  case False
  let ?x = "\<lambda>j. x\<lparr>o_addrinfo := j\<rparr>" and ?y = "x\<lparr>o_sock := INVALID_SOCKET, o_addrinfo := None\<rparr>"
  have b: "(fl OR O_NONBLOCK) AND NOT O_NONBLOCK = fl AND NOT O_NONBLOCK"
    by (rule bit_word_eqI) (auto simp: bit_simps)
  have m: "set_non_blocking m (o_sock x) (place a (?x j) f k)
      = Some (place a (?x j) (if m then f OR O_NONBLOCK else f AND NOT O_NONBLOCK) k)" for m f j
    using place_mode [of "?x j" m a f k] False by simp
  let ?z = "\<lambda>j. x\<lparr>o_addrinfo := j, o_sock := INVALID_SOCKET\<rparr>"
  have c: "socket_close a (place a (?x j) f k) = Some (place a (?z j) f k)" for f j
    using assms False by (simp add: placeable_def place_close [of k "?x j" a f f])
  have u: "(place a (?z j) f k)\<lparr>objects := (objects (place a (?z j) f k))(a \<mapsto> ?y)\<rparr> = place a ?y f k" for f j
    by (simp add: place_def)
  show ?thesis
    using False
    by (cases addr) (auto simp: try_connect_def Let_def m b c u split: bind_splits)
qed (simp add: try_connect_def)

lemma try_connect_new:
  assumes "placeable x k"
  shows "try_connect a net (Some i) timeout True (place a x fl k) =
    try_connect a net (Some i) timeout False (place a (x\<lparr>o_sock := at_socket (net i), o_addrinfo := None\<rparr>) 0 k)"
proof -
  have "socket_close a (place a x fl k) = Some (place a (x\<lparr>o_sock := INVALID_SOCKET\<rparr>) fl k)"
  proof (cases "o_sock x = INVALID_SOCKET")
    case True
    then show ?thesis by (simp add: socket_close_def) (simp add: place_def)
  next
    case False
    with assms show ?thesis by (simp add: placeable_def)
  qed
  moreover have "(place a (x\<lparr>o_sock := INVALID_SOCKET\<rparr>) fl k)\<lparr>objects := (objects (place a (x\<lparr>o_sock := INVALID_SOCKET\<rparr>) fl k))
        (a \<mapsto> x\<lparr>o_sock := fd, o_addrinfo := None\<rparr>),
      descriptors := (if fd = INVALID_SOCKET then descriptors (place a (x\<lparr>o_sock := INVALID_SOCKET\<rparr>) fl k)
        else (descriptors (place a (x\<lparr>o_sock := INVALID_SOCKET\<rparr>) fl k))(fd \<mapsto> 0))\<rparr>
    = place a (x\<lparr>o_sock := fd, o_addrinfo := None\<rparr>) 0 k" for fd
    by (simp add: place_def)
  ultimately show ?thesis by (simp add: try_connect_def Let_def)
qed

text \<open>What connecting leaves behind, whatever happens.\<close>

lemma try_connect_shape:
  assumes "placeable x k" "createsocket \<longrightarrow> addr \<noteq> None"
    and "\<forall>i. at_socket (net i) = INVALID_SOCKET \<or> descriptors k (at_socket (net i)) = None"
    and "try_connect a net addr timeout createsocket (place a x fl k) = Some (st, k')"
  shows "\<exists>y fl'. k' = place a y fl' k \<and> placeable y k \<and> o_results y = o_results x"
proof -
  have e: ?thesis if "placeable z k" "o_results z = o_results x"
    "try_connect a net addr timeout False (place a z f k) = Some (st, k')" for z f
    using that(2,3) that(1) unfolding try_connect_existing [OF that(1)]
    by (auto simp: Option.bind_eq_Some_conv placeable_def Let_def split: if_splits)
  show ?thesis
  proof (cases createsocket)
    case True
    then obtain i where i: "addr = Some i" using assms(2) by blast
    show ?thesis
      by (rule e [of "x\<lparr>o_sock := at_socket (net i), o_addrinfo := None\<rparr>" 0])
        (use assms(3,4) True i try_connect_new [OF assms(1)] in \<open>simp_all add: placeable_def\<close>)
  qed (use assms e in simp)
qed

lemma connect_others_shape:
  assumes "\<forall>i. at_socket (net i) = INVALID_SOCKET \<or> descriptors k (at_socket (net i)) = None"
    and "placeable x k" "connect_others a net c timeout is (place a x fl k) = Some k'"
  shows "\<exists>y fl'. k' = place a y fl' k \<and> placeable y k \<and> o_results y = o_results x"
  using assms(2,3)
proof (induction "is" arbitrary: x fl)
  case (Cons i "is")
  show ?case
  proof (cases "Some i = c")
    case False
    then obtain st k1 where t: "try_connect a net (Some i) timeout True (place a x fl k) = Some (st, k1)"
      "if st = valid then k' = k1 else connect_others a net c timeout is k1 = Some k'"
      using Cons.prems(2) by (fastforce simp: Option.bind_eq_Some_conv split: if_splits)
    from try_connect_shape [OF Cons.prems(1) _ assms(1) t(1)] obtain y f where
      y: "k1 = place a y f k" "placeable y k" "o_results y = o_results x" by auto
    show ?thesis using t(2) y Cons.IH [of y f] by (cases "st = valid") auto
  qed (use Cons in simp)
qed auto

lemma well_owned_connect:
  assumes "well_owned k" "fresh_sockets a net k" "socket_connect a len net timeout k = Some (st, k')"
  shows "well_owned k'"
proof -
  obtain x where x: "objects k a = Some x" using assms(3) by (auto simp: socket_connect_def Option.bind_eq_Some_conv)
  let ?k = "without a k"
  obtain fl where k: "k = place a x fl ?k" using place_without [OF assms(1) x] by blast
  have fr: "\<forall>i. at_socket (net i) = INVALID_SOCKET \<or> descriptors ?k (at_socket (net i)) = None" and "placeable x ?k"
    using assms(2) x by (auto simp: fresh_sockets_def without_def placeable_def)
  from assms(3) x obtain st1 k1 where
    1: "try_connect a net (o_addrinfo x) timeout False (place a x fl ?k) = Some (st1, k1)" and
    2: "k' = k1 \<or> connect_others a net (o_addrinfo x) timeout (case o_results x of None \<Rightarrow> [] | Some p \<Rightarrow> map (Pair p) [0..<len p]) k1 = Some k'"
    unfolding k [symmetric] by (auto simp: socket_connect_def Option.bind_eq_Some_conv Let_def split: if_splits)
  from try_connect_shape [OF \<open>placeable x ?k\<close> _ fr 1] obtain y f where
    y: "k1 = place a y f ?k" "placeable y ?k" "o_results y = o_results x" by auto
  have "\<exists>z f. k' = place a z f ?k \<and> placeable z ?k \<and> o_results z = o_results x"
    using 2 y connect_others_shape [OF fr y(2)] by metis
  then show ?thesis using well_owned_place [OF assms(1) x] by (auto simp: placeable_def)
qed

lemma well_owned_reachable: "sock_reachable k \<Longrightarrow> well_owned k"
proof (induction rule: sock_reachable.induct)
  case none
  then show ?case by (simp add: well_owned_def no_sockets_def owns_def holds_def)
next
  case (defaulted k a)
  from well_owned_new [OF defaulted.IH defaulted.hyps(2), of invalid_object] show ?case
    by (simp add: socket_default_def invalid_object_def)
next
  case (constructed k a p rs e k')
  show ?case by (rule well_owned_construct [OF constructed.IH constructed.hyps(2-5)])
next
  case (accepted k b r k')
  show ?case by (rule well_owned_accept [OF accepted.IH accepted.hyps(2-4)])
next
  case (move_constructed k a b k')
  then obtain y where y: "objects k b = Some y" "k' = k\<lparr>objects := (objects k)(a \<mapsto> y, b \<mapsto> moved_from y)\<rparr>"
    by (auto simp: socket_move_new_def Option.bind_eq_Some_conv)
  have ab: "a \<noteq> b" using y(1) move_constructed.hyps(2) by auto
  have "\<not> (\<exists>fd. owns k a fd)" using owns_none [OF move_constructed.hyps(2)] by blast
  from well_owned_move [OF move_constructed.IH y(1) ab this] y(2) show ?case by simp
next
  case (move_assigned k a b k')
  show ?case by (rule well_owned_move_assign [OF move_assigned.IH move_assigned.hyps(2)])
next
  case (connected k a net len timeout st k')
  show ?case by (rule well_owned_connect [OF connected.IH connected.hyps(2,3)])
next
  case (mode_set k m fd k')
  show ?case
    by (rule well_owned_same [OF mode_set.IH])
      (use mode_set.hyps(2) in \<open>auto simp: set_non_blocking_def Option.bind_eq_Some_conv Let_def split: if_splits\<close>)
next
  case (closed k a k')
  with well_owned_socket_close show ?case by blast
next
  case (destroyed k a k')
  then obtain k1 where k1: "socket_close a k = Some k1" by (auto simp: socket_destroy_def Option.bind_eq_Some_conv)
  from well_owned_socket_close [OF destroyed.IH k1] obtain x where x: "well_owned k1" "objects k1 a = Some x" "o_sock x = INVALID_SOCKET"
    by blast
  have o: "objects (case o_results x of None \<Rightarrow> k1 | Some p \<Rightarrow> freeaddrinfo p k1) = objects k1"
    by (simp add: freeaddrinfo_def split: option.split)
  from destroyed.hyps(2) k1 x(2) o
  have "k' = (case o_results x of None \<Rightarrow> k1 | Some p \<Rightarrow> freeaddrinfo p k1)\<lparr>objects := (objects k1)(a := None)\<rparr>"
    by (simp add: socket_destroy_def Let_def)
  with well_owned_drop [OF x] show ?case by simp
qed


text \<open>Assigning to a socket by a move leaks the results of \<open>getaddrinfo\<close> that it had: they stay allocated, and no
  object holds them any more.\<close>

theorem move_assign_leaks_results:
  assumes "sock_reachable k" "holds k a p" "a \<noteq> b" "socket_move_assign a b k = Some k'"
  shows "p \<in> addrinfos k' \<and> \<not> holds k' c p"
proof -
  note d = well_ownedD [OF well_owned_reachable [OF assms(1)]]
  from assms(4,3) obtain x y where xy: "objects k a = Some x" "objects k b = Some y"
    by (auto simp: socket_move_assign_def Option.bind_eq_Some_conv)
  have k: "objects k' = (objects k)(a \<mapsto> y, b \<mapsto> moved_from y)" "addrinfos k' = addrinfos k"
    using assms(3,4) xy by (auto simp: socket_move_assign_def closesocket_def Let_def split: if_splits)
  have "\<not> holds k b p" "c \<noteq> a \<Longrightarrow> \<not> holds k c p" using d(5) assms(2,3) by metis+
  then have "\<not> holds k' c p"
    using xy by (auto simp: holds_def k(1) moved_from_def split: if_splits)
  then show ?thesis using k(2) d(4) [OF assms(2)] by simp
qed

definition two_sockets :: sockets where
  "two_sockets = the (socket_construct 2 empty_endpoint (Some 20) [4] (the (socket_construct 1 empty_endpoint (Some 10) [- 1, 3] no_sockets)))"

lemma two_sockets:
  "sock_reachable two_sockets" "objects two_sockets 1 = Some \<lparr>o_sock = 3, o_bind_loc = empty_endpoint, o_results = Some 10, o_addrinfo = Some (10, 1)\<rparr>"
  "objects two_sockets 2 = Some \<lparr>o_sock = 4, o_bind_loc = empty_endpoint, o_results = Some 20, o_addrinfo = Some (20, 0)\<rparr>"
proof -
  let ?k = "the (socket_construct 1 empty_endpoint (Some 10) [- 1, 3] no_sockets)"
  note simps = socket_construct_def no_sockets_def INVALID_SOCKET_def Let_def
  have "sock_reachable ?k"
    by (rule constructed [OF none, of 1 10 "[- 1, 3]" empty_endpoint]) (simp_all add: simps)
  then show "sock_reachable two_sockets"
    by (rule constructed [of _ 2 20 "[4]" empty_endpoint]) (simp_all add: two_sockets_def simps)
  show "objects two_sockets 1 = Some \<lparr>o_sock = 3, o_bind_loc = empty_endpoint, o_results = Some 10, o_addrinfo = Some (10, 1)\<rparr>"
    "objects two_sockets 2 = Some \<lparr>o_sock = 4, o_bind_loc = empty_endpoint, o_results = Some 20, o_addrinfo = Some (20, 0)\<rparr>"
    by (simp_all add: two_sockets_def simps)
qed


theorem move_assign_leaks_results_witness:
  "\<exists>k'. socket_move_assign 1 2 two_sockets = Some k' \<and> 10 \<in> addrinfos k' \<and> \<not> holds k' 1 10"
proof -
  obtain k' where "socket_move_assign 1 2 two_sockets = Some k'"
    using two_sockets(2,3) by (auto simp: socket_move_assign_def Let_def)
  moreover have "holds two_sockets 1 10" using two_sockets(2) by (simp add: holds_def)
  ultimately show ?thesis using move_assign_leaks_results [OF two_sockets(1), of 1 10 2] by simp
qed

end
