(* ===== verification/Connect.thy ===== *)
theory Connect
  imports Sockets
begin

text \<open>
  What \<open>connect\<close> of \<open>kissnet.hpp\<close> does for a TCP socket: it keeps the address that the socket was made for if the
  peer answers there, and otherwise takes the first of the other results that answers.
  A socket that was closed skips the address that it had.
\<close>

definition answers :: "(node \<Rightarrow> attempt) \<Rightarrow> int64 \<Rightarrow> node \<Rightarrow> bool" where
  "answers net timeout i \<longleftrightarrow> at_socket (net i) \<noteq> INVALID_SOCKET \<and> connect_error (net i) timeout = Some 0"

lemma blocking_0 [simp]: "0 AND NOT O_NONBLOCK = 0"
  by simp

lemma try_connect_other:
  assumes "placeable x k" "at_socket (net i) = INVALID_SOCKET \<or> descriptors k (at_socket (net i)) = None"
    and "connect_error (net i) timeout \<noteq> None"
  shows "try_connect a net (Some i) timeout True (place a x fl k) =
    Some (if answers net timeout i
      then (valid, place a (x\<lparr>o_sock := at_socket (net i), o_addrinfo := Some i\<rparr>) 0 k)
      else (errored, place a (x\<lparr>o_sock := INVALID_SOCKET, o_addrinfo := None\<rparr>) 0 k))"
proof -
  have p: "placeable (x\<lparr>o_sock := at_socket (net i), o_addrinfo := None\<rparr>) k" using assms(2) by (simp add: placeable_def)
  show ?thesis
    unfolding try_connect_new [OF assms(1)] try_connect_existing [OF p]
    using assms(3) by (auto simp: answers_def Let_def)
qed

lemma connect_others_find:
  assumes "\<forall>i. at_socket (net i) = INVALID_SOCKET \<or> descriptors k (at_socket (net i)) = None"
    and "\<forall>i. connect_error (net i) timeout \<noteq> None" "placeable x k" "o_sock x = INVALID_SOCKET" "o_addrinfo x = None"
  shows "connect_others a net c timeout is (place a x fl k) = Some (
    case find (answers net timeout) (filter (\<lambda>i. Some i \<noteq> c) is) of
      None \<Rightarrow> place a x fl k
    | Some i \<Rightarrow> place a (x\<lparr>o_sock := at_socket (net i), o_addrinfo := Some i\<rparr>) 0 k)"
proof (induction "is")
  case (Cons i "is")
  have e: "place a (x\<lparr>o_sock := INVALID_SOCKET, o_addrinfo := None\<rparr>) 0 k = place a x fl k"
    using assms(4,5) by (cases x) (simp add: place_def)
  from Cons assms try_connect_other [OF assms(3), of net i timeout a fl] show ?case unfolding e by simp
qed simp

text \<open>C31: A connection goes to the address that the socket was made for if the peer answers there, and the object stays as it
  is; otherwise to the first of the other results, in their order, at which one answers, with a new descriptor; if none
  answers, it is a fatal error.  With a time-out the descriptor is left in blocking mode.  Nothing but
  the object and its descriptor changes.\<close>

theorem connect_first_answering:
  assumes "sock_reachable k" "objects k a = Some x" "is_valid x" "o_results x = Some p" "o_addrinfo x = Some c"
    and "descriptors k (o_sock x) = Some fl" "fresh_sockets a net k" "\<forall>i. connect_error (net i) timeout \<noteq> None"
  shows "socket_connect a len net timeout k =
    (if connect_error (net c) timeout = Some 0
     then Some (valid, place a x (if 0 <s timeout then fl AND NOT O_NONBLOCK else fl) (without a k))
     else case find (answers net timeout) (filter (\<lambda>i. i \<noteq> c) (map (Pair p) [0..<len p])) of
         None \<Rightarrow> None
       | Some i \<Rightarrow> Some (valid, place a (x\<lparr>o_sock := at_socket (net i), o_addrinfo := Some i\<rparr>) 0 (without a k)))"
proof -
  let ?k = "without a k" and ?y = "x\<lparr>o_sock := INVALID_SOCKET, o_addrinfo := None\<rparr>"
  let ?fl = "if 0 <s timeout then fl AND NOT O_NONBLOCK else fl"
  have v: "o_sock x \<noteq> INVALID_SOCKET" using assms(3) by (simp add: is_valid_def)
  have k: "k = place a x fl ?k"
    using assms(2,6) v by (simp add: place_def without_def fun_upd_idem)
  have fr: "\<forall>i. at_socket (net i) = INVALID_SOCKET \<or> descriptors ?k (at_socket (net i)) = None" and px: "placeable x ?k"
    using assms(2,7) by (auto simp: fresh_sockets_def without_def placeable_def)
  obtain e where e: "connect_error (net c) timeout = Some e" using assms(8) by blast
  have t: "try_connect a net (Some c) timeout False k
      = Some (if e = 0 then (valid, place a x ?fl ?k) else (errored, place a ?y ?fl ?k))"
  proof -
    have "x\<lparr>o_addrinfo := Some c\<rparr> = x" using assms(5) by (cases x) simp
    then show ?thesis
      by (subst k, subst try_connect_existing [OF px]) (simp only: v e bind.bind_lunit if_False Let_def)
  qed
  note o = connect_others_find [OF fr assms(8), of ?y a "Some c" "map (Pair p) [0..<len p]" ?fl]
  have m: "at_socket (net i) \<noteq> INVALID_SOCKET" if "find (answers net timeout) is = Some i" for i "is"
    using that by (auto simp: find_Some_iff answers_def)
  show ?thesis
    using o t e m assms(2,4,5) v
    by (auto simp: socket_connect_def placeable_def Let_def split: option.splits)
qed

text \<open>The socket of \<open>two_sockets\<close> at 1 was made for the second of its two results, where the connection is refused; at the first
  one it is established within the time-out, with the descriptor that \<open>close\<close> gave back.\<close>

definition two_hosts :: "node \<Rightarrow> attempt" where
  "two_hosts i =
    (if snd i = 0 then \<lparr>at_socket = 3, at_connect = EINPROGRESS, at_select = (\<lambda>_. Inr 1), at_so_error = Some 0\<rparr>
     else \<lparr>at_socket = - 1, at_connect = 111, at_select = (\<lambda>_. Inr 0), at_so_error = None\<rparr>)"

theorem connect_first_answering_witness:
  "\<exists>k'. socket_connect 1 (\<lambda>_. 2) two_hosts 500 two_sockets = Some (valid, k') \<and>
    objects k' 1 = Some \<lparr>o_sock = 3, o_bind_loc = empty_endpoint, o_results = Some 10, o_addrinfo = Some (10, 0)\<rparr>"
proof -
  note simps = two_hosts_def connect_error_def EINPROGRESS_def EWOULDBLOCK_def EAGAIN_def INVALID_SOCKET_def
  have d: "descriptors two_sockets 3 = Some 0"
    by (simp add: two_sockets_def socket_construct_def no_sockets_def INVALID_SOCKET_def Let_def)
  have e: "\<forall>i. connect_error (two_hosts i) 500 \<noteq> None" by (simp add: simps)
  have f: "fresh_sockets 1 two_hosts two_sockets" using two_sockets(2) by (simp add: fresh_sockets_def simps)
  have u: "find (answers two_hosts 500) (filter (\<lambda>i. i \<noteq> (10, 1)) (map (Pair 10) [0..<2])) = Some (10, 0)"
    by (simp add: upt_rec answers_def simps)
  have c: "connect_error (two_hosts (10, 1)) 500 = Some 111" and s: "at_socket (two_hosts (10, 0)) = 3" by (simp_all add: simps)
  show ?thesis
    using connect_first_answering [OF two_sockets(1,2) _ _ _ _ f e, of 10 "(10, 1)" 0 "\<lambda>_. 2"] d
    by (simp only: u c s) (simp add: is_valid_def INVALID_SOCKET_def s)
qed

section \<open>After a close\<close>

lemma connect_others_skips:
  "connect_others a (net(c := t)) (Some c) timeout is k = connect_others a net (Some c) timeout is k"
proof (induction "is" arbitrary: k)
  case (Cons i "is")
  have "try_connect a (net(c := t)) (Some i) timeout b k = try_connect a net (Some i) timeout b k" if "i \<noteq> c" for b
    using that by (simp add: try_connect_def cong: if_cong)
  with Cons show ?case by (simp del: fun_upd_apply cong: if_cong)
qed simp

lemma connect_closed:
  assumes "objects k a = Some x" "o_sock x = INVALID_SOCKET"
  shows "socket_connect a len net timeout k = do {
    k \<leftarrow> connect_others a net (o_addrinfo x) timeout (case o_results x of None \<Rightarrow> [] | Some p \<Rightarrow> map (Pair p) [0..<len p]) k;
    x \<leftarrow> objects k a;
    if o_sock x = INVALID_SOCKET then None else Some (valid, k)
  }"
  using assms by (simp add: socket_connect_def try_connect_def)

text \<open>\<open>close\<close> leaves the socket with the address that it had, and \<open>connect\<close> takes that address for one that it has tried:
  whatever happens there cannot matter.  A socket with a single address can thus never be
  connected again once it was closed; trying to is a fatal error.\<close>

theorem reconnect_skips_own_address:
  assumes "objects k a = Some x" "o_addrinfo x = Some c" "socket_close a k = Some k'"
  shows "socket_connect a len (net(c := t)) timeout k' = socket_connect a len net timeout k'
    \<and> (o_results x = Some p \<and> len p = 1 \<and> c = (p, 0) \<longrightarrow> socket_connect a len net timeout k' = None)"
proof -
  have x: "objects k' a = Some (x\<lparr>o_sock := INVALID_SOCKET\<rparr>)"
    using assms(1,3) by (auto simp: socket_close_def Let_def)
  note c = connect_closed [OF x, simplified, unfolded assms(2)]
  have "socket_connect a len (net(c := t)) timeout k' = socket_connect a len net timeout k'"
    unfolding c connect_others_skips ..
  moreover have "socket_connect a len net timeout k' = None" if "o_results x = Some p" "len p = 1" "c = (p, 0)"
    using x that by (simp add: c)
  ultimately show ?thesis by blast
qed

theorem reconnect_skips_own_address_witness:
  "\<exists>k'. socket_close 2 two_sockets = Some k' \<and> socket_connect 2 (\<lambda>_. 1) two_hosts 0 k' = None"
proof -
  obtain k' where "socket_close 2 two_sockets = Some k'"
    using two_sockets(3) by (simp add: socket_close_def Let_def)
  with reconnect_skips_own_address [OF two_sockets(3) _ this, of "(20, 0)" "\<lambda>_. 1"] show ?thesis by simp
qed

end
