(* ===== verification/Multicast.thy ===== *)
theory Multicast
  imports Sockets
begin

text \<open>
  \<open>join\<close> of \<open>kissnet.hpp\<close>, which makes a UDP socket a member of a multicast group, on the socket objects of \<open>Sockets\<close>.
  What \<open>getaddrinfo\<close>, \<open>socket(2)\<close>, \<open>bind(2)\<close> and \<open>setsockopt\<close> do is an argument.

  The lemmas show what \<open>join\<close> asks the system for, and what it leaks.
\<close>

text \<open>What is asked of the system: the group's address, and the interface, 0 for any.\<close>

datatype membership = Ip_mreq string uint32 | Ipv6_mreq string uint32

text \<open>The results of \<open>getaddrinfo\<close> are the place of the list and its nodes; a scope is that of the first node.\<close>

record multicast_host =
  gai_numeric :: "string \<Rightarrow> (nat \<times> sockaddr list) option"
  gai_passive :: "family \<Rightarrow> string \<Rightarrow> (nat \<times> sockaddr list) option"
  gai_interface :: "string \<Rightarrow> (nat \<times> uint32) option"
  ai_addrlen :: "sockaddr \<Rightarrow> nat"
  socket_dgram :: "sockaddr \<Rightarrow> int"
  binds :: "int \<Rightarrow> sockaddr \<Rightarrow> bool"
  inet_addr :: "string \<Rightarrow> uint32"
  adds_membership :: "int \<Rightarrow> membership \<Rightarrow> bool"

definition INADDR_ANY :: uint32 where
  "INADDR_ANY = 0"

definition sizeof_sockaddr_in :: nat where
  "sizeof_sockaddr_in = 16"

definition sizeof_sockaddr_in6 :: nat where
  "sizeof_sockaddr_in6 = 28"

text \<open>The request for the family of the group's address, on either branch.\<close>

definition multicast_request ::
  "multicast_host \<Rightarrow> sockaddr \<Rightarrow> string \<Rightarrow> sockets \<Rightarrow> (membership \<times> sockets) option" where
  "multicast_request h multicast_addr interface k =
    (if sa_family multicast_addr = AF_INET \<and> ai_addrlen h multicast_addr = sizeof_sockaddr_in
     then Some (Ip_mreq (sa_host multicast_addr) (if interface \<noteq> [] then inet_addr h interface else INADDR_ANY), k)
     else if sa_family multicast_addr = AF_INET6 \<and> ai_addrlen h multicast_addr = sizeof_sockaddr_in6
     then if interface \<noteq> [] then do {
            (reslocal, scope) \<leftarrow> gai_interface h interface;
            let k = k\<lparr>addrinfos := insert reslocal (addrinfos k)\<rparr>;
            Some (Ipv6_mreq (sa_host multicast_addr) scope, freeaddrinfo reslocal k)
          } else Some (Ipv6_mreq (sa_host multicast_addr) 0, k)
     else None)"

text \<open>A list of no nodes, which \<open>getaddrinfo\<close> does not give, would make \<open>join\<close> follow the null pointer.\<close>

definition first_node :: "sockaddr list \<Rightarrow> sockaddr option" where
  "first_node ns = (case ns of [] \<Rightarrow> None | n # _ \<Rightarrow> Some n)"

definition socket_join ::
  "multicast_host \<Rightarrow> nat \<Rightarrow> endpoint \<Rightarrow> string \<Rightarrow> sockets \<Rightarrow> (membership \<times> sockets) option" where
  "socket_join h a multi_cast_endpoint interface k = do {
     x \<leftarrow> objects k a;
     (multicast, nodes) \<leftarrow> gai_numeric h (address multi_cast_endpoint);
     multicast_addr \<leftarrow> first_node nodes;
     let k = k\<lparr>addrinfos := insert multicast (addrinfos k)\<rparr>;
     (local, nodes) \<leftarrow> gai_passive h (sa_family multicast_addr) (show_nat (unat (port multi_cast_endpoint)));
     local_addr \<leftarrow> first_node nodes;
     let k = k\<lparr>addrinfos := insert local (addrinfos k)\<rparr>;
     let fd = socket_dgram h local_addr;
     if fd = INVALID_SOCKET then None
     else do {
       let k = k\<lparr>objects := (objects k)(a \<mapsto> x\<lparr>o_sock := fd, o_addrinfo := Some (local, 0)\<rparr>),
         descriptors := (descriptors k)(fd \<mapsto> 0)\<rparr>;
       if \<not> binds h fd local_addr then None
       else do {
         (request, k) \<leftarrow> multicast_request h multicast_addr interface k;
         if \<not> adds_membership h fd request then None
         else Some (request, freeaddrinfo multicast k)
       }
     }
   }"

section \<open>What is leaked\<close>

text \<open>The system gives out lists and descriptors that are not in use.\<close>

definition fresh_host :: "multicast_host \<Rightarrow> sockets \<Rightarrow> bool" where
  "fresh_host h k \<longleftrightarrow> (\<forall>e p ns. gai_numeric h e = Some (p, ns) \<longrightarrow> p \<notin> addrinfos k)
    \<and> (\<forall>f s q ns. gai_passive h f s = Some (q, ns) \<longrightarrow> q \<notin> addrinfos k \<and> (\<forall>e p ms. gai_numeric h e = Some (p, ms) \<longrightarrow> p \<noteq> q))
    \<and> (\<forall>i r sc. gai_interface h i = Some (r, sc) \<longrightarrow> r \<notin> addrinfos k
        \<and> (\<forall>e p ms. gai_numeric h e = Some (p, ms) \<longrightarrow> p \<noteq> r) \<and> (\<forall>f s q ns. gai_passive h f s = Some (q, ns) \<longrightarrow> q \<noteq> r))
    \<and> (\<forall>n. socket_dgram h n = INVALID_SOCKET \<or> descriptors k (socket_dgram h n) = None)"

lemma socket_join_Some:
  assumes "socket_join h a e interface k = Some (request, k')" "fresh_host h k" "objects k a = Some x"
  obtains local nodes fd f where "gai_passive h f (show_nat (unat (port e))) = Some (local, nodes)" "fd \<noteq> INVALID_SOCKET"
    "descriptors k fd = None" "local \<notin> addrinfos k" "adds_membership h fd request"
    "k' = k\<lparr>objects := (objects k)(a \<mapsto> x\<lparr>o_sock := fd, o_addrinfo := Some (local, 0)\<rparr>),
      descriptors := (descriptors k)(fd \<mapsto> 0), addrinfos := insert local (addrinfos k)\<rparr>"
proof -
  from assms(1,3) obtain m ns ma where m: "gai_numeric h (address e) = Some (m, ns)" "first_node ns = Some ma"
    by (auto simp: socket_join_def Option.bind_eq_Some_conv)
  with assms(1,3) obtain l ls la where l: "gai_passive h (sa_family ma) (show_nat (unat (port e))) = Some (l, ls)" "first_node ls = Some la"
    by (auto simp: socket_join_def Option.bind_eq_Some_conv Let_def)
  let ?fd = "socket_dgram h la"
  let ?k = "\<lambda>s. k\<lparr>addrinfos := s, objects := (objects k)(a \<mapsto> x\<lparr>o_sock := ?fd, o_addrinfo := Some (l, 0)\<rparr>),
    descriptors := (descriptors k)(?fd \<mapsto> 0)\<rparr>"
  from assms(1,3) m l obtain k1 where v: "?fd \<noteq> INVALID_SOCKET"
    and r: "multicast_request h ma interface (?k (insert l (insert m (addrinfos k)))) = Some (request, k1)"
    and k': "adds_membership h ?fd request" "k' = freeaddrinfo m k1"
    by (auto simp: socket_join_def Option.bind_eq_Some_conv Let_def split: if_splits)
  have f: "m \<notin> addrinfos k" "l \<notin> addrinfos k" "m \<noteq> l" "descriptors k ?fd = None"
    using assms(2) m l v unfolding fresh_host_def by metis+
  have "k1 = ?k (insert l (insert m (addrinfos k)))"
  proof -
    have "r \<notin> insert l (insert m (addrinfos k))" if "gai_interface h interface = Some (r, sc)" for r sc
      using that assms(2) m(1) l(1) unfolding fresh_host_def by blast
    then show ?thesis
      using r by (auto simp: multicast_request_def Option.bind_eq_Some_conv freeaddrinfo_def Let_def split: if_splits
          intro!: sockets.equality)
  qed
  then have "k' = k\<lparr>objects := (objects k)(a \<mapsto> x\<lparr>o_sock := ?fd, o_addrinfo := Some (l, 0)\<rparr>),
      descriptors := (descriptors k)(?fd \<mapsto> 0), addrinfos := insert l (addrinfos k)\<rparr>"
    using f k'(2) by (auto simp: freeaddrinfo_def intro!: sockets.equality)
  then show thesis by (rule that [OF l(1) v f(4,2) k'(1)])
qed

text \<open>C32: \<open>join\<close> leaks.  It replaces the descriptor that the constructor opened without closing it, and never frees the results of
  \<open>getaddrinfo\<close> for the local address: after a \<open>join\<close> that succeeds the old descriptor is open and no object owns it, the
  results are allocated and no object holds them, and to destroy the object leaves both as they are.\<close>

theorem join_leaks:
  assumes "sock_reachable k" "objects k a = Some x" "is_valid x" "fresh_host h k"
    and "socket_join h a e interface k = Some (request, k')"
  shows "\<exists>local k''. descriptors k' (o_sock x) \<noteq> None \<and> (\<forall>b. \<not> owns k' b (o_sock x))
    \<and> local \<in> addrinfos k' - addrinfos k \<and> (\<forall>b. \<not> holds k' b local)
    \<and> socket_destroy a k' = Some k'' \<and> objects k'' a = None \<and> \<not> misuse k''
    \<and> descriptors k'' (o_sock x) \<noteq> None \<and> local \<in> addrinfos k''"
proof -
  note d = well_ownedD [OF well_owned_reachable [OF assms(1)]]
  have o: "owns k a (o_sock x)" using assms(2,3) by (simp add: owns_def is_valid_def)
  then have op: "descriptors k (o_sock x) \<noteq> None" using d(2) by blast
  obtain l ns fd f where j: "fd \<noteq> INVALID_SOCKET" "descriptors k fd = None" "l \<notin> addrinfos k"
    "k' = k\<lparr>objects := (objects k)(a \<mapsto> x\<lparr>o_sock := fd, o_addrinfo := Some (l, 0)\<rparr>),
      descriptors := (descriptors k)(fd \<mapsto> 0), addrinfos := insert l (addrinfos k)\<rparr>"
    using socket_join_Some [OF assms(5,4,2)] by metis
  have fd: "fd \<noteq> o_sock x" using j(2) op by auto
  have "\<not> owns k' b (o_sock x)" for b
    using d(3) [OF o, of b] fd by (auto simp: j(4) owns_update) (auto simp: owns_def)
  moreover have "\<not> holds k' b l" for b
  proof -
    have "\<not> holds k c l" for c using d(4) j(3) by blast
    then show ?thesis using assms(2) by (auto simp: j(4) holds_def split: if_splits)
  qed
  moreover have "\<exists>k''. socket_destroy a k' = Some k'' \<and> objects k'' a = None \<and> \<not> misuse k''
    \<and> descriptors k'' (o_sock x) \<noteq> None \<and> l \<in> addrinfos k''"
  proof -
    have "o_results x = Some p \<Longrightarrow> p \<in> addrinfos k \<and> p \<noteq> l" for p
      using d(4) j(3) holds_object [OF assms(2)] by metis
    then show ?thesis
      using j fd op d(1)
      by (cases "o_results x") (auto simp: socket_destroy_def socket_close_def closesocket_def freeaddrinfo_def Let_def)
  qed
  ultimately show ?thesis using op fd j(3,4) by auto
qed


definition demo_multicast :: multicast_host where
  "demo_multicast = \<lparr>gai_numeric = (\<lambda>e. Some (30, [\<lparr>sa_family = AF_INET, sa_host = e, sa_port = 0\<rparr>])),
     gai_passive = (\<lambda>f s. Some (40, [\<lparr>sa_family = f, sa_host = ''0.0.0.0'', sa_port = 0\<rparr>])), gai_interface = (\<lambda>_. None),
     ai_addrlen = (\<lambda>_. 16), socket_dgram = (\<lambda>_. 7), binds = (\<lambda>_ _. True), inet_addr = (\<lambda>_. 0), adds_membership = (\<lambda>_ _. True)\<rparr>"

theorem join_leaks_witness:
  "\<exists>k' k''. socket_join demo_multicast 1 \<lparr>address = ''224.0.0.1'', port = 5000\<rparr> [] two_sockets = Some (Ip_mreq ''224.0.0.1'' 0, k')
    \<and> socket_destroy 1 k' = Some k'' \<and> objects k'' 1 = None \<and> descriptors k'' 3 \<noteq> None"
proof -
  let ?x = "\<lparr>o_sock = 3, o_bind_loc = empty_endpoint, o_results = Some 10, o_addrinfo = Some (10, 1)\<rparr>"
  have "addrinfos two_sockets = {10, 20}" "descriptors two_sockets 7 = None"
    by (auto simp: two_sockets_def socket_construct_def no_sockets_def INVALID_SOCKET_def Let_def)
  then have "fresh_host demo_multicast two_sockets" by (simp add: fresh_host_def demo_multicast_def)
  moreover have "\<exists>k'. socket_join demo_multicast 1 \<lparr>address = ''224.0.0.1'', port = 5000\<rparr> [] two_sockets
      = Some (Ip_mreq ''224.0.0.1'' 0, k')"
    using two_sockets(2) by (simp add: socket_join_def demo_multicast_def first_node_def multicast_request_def
      sizeof_sockaddr_in_def INADDR_ANY_def INVALID_SOCKET_def Let_def)
  moreover have "is_valid ?x" by (simp add: is_valid_def INVALID_SOCKET_def)
  ultimately show ?thesis using join_leaks [OF two_sockets(1,2)] by fastforce
qed

end
