(* ===== verification/SocketIO.thy ===== *)
theory SocketIO
  imports Kissnet
begin

text \<open>
  What is left of \<open>kissnet.hpp\<close>'s sockets: sending and receiving by TCP, receiving into plain memory, the options and the
  status of a socket, and the bytes that are available.  The results of the system calls are arguments; Linux transfers
  less than \<open>2 ^ 31\<close> bytes at a time, so that a count fits the \<^verbatim>\<open>int\<close> that it is stored in.  A fatal error is \<open>None\<close>, and so is a write
  beyond the end of a buffer, which is undefined.

  The lemmas give the results on every branch, and what a buffer that is full does.
\<close>

section \<open>TCP\<close>

datatype recv_result = Received "byte list" | RecvError int

definition transfer_error :: "int \<Rightarrow> bytes_with_status" where
  "transfer_error e = (0, if e = EWOULDBLOCK then non_blocking_would_have_blocked
     else if e = EAGAIN then non_blocking_would_have_blocked else errored)"

text \<open>\<open>send\<close> of some bytes, and of a part of a buffer; \<open>assert\<close> stops the process.\<close>

definition tcp_send :: "(byte list \<Rightarrow> sendto_result) \<Rightarrow> byte list \<Rightarrow> bytes_with_status" where
  "tcp_send syscall_send read_buff = (case syscall_send read_buff of
      SendFail e \<Rightarrow> (0, if e = EWOULDBLOCK then non_blocking_would_have_blocked else errored)
    | Accepted n \<Rightarrow> (n, valid))"

definition tcp_send_buffer :: "(byte list \<Rightarrow> sendto_result) \<Rightarrow> byte list \<Rightarrow> nat \<Rightarrow> bytes_with_status option" where
  "tcp_send_buffer syscall_send buff n = (if \<not> n \<le> length buff then None else Some (tcp_send syscall_send (take n buff)))"

text \<open>What \<open>recv(2)\<close> writes at an offset.\<close>

definition write_at :: "byte list \<Rightarrow> nat \<Rightarrow> byte list \<Rightarrow> byte list option" where
  "write_at buffer offset data =
    (if length buffer < offset + length data then None
     else Some (take offset buffer @ data @ drop (offset + length data) buffer))"

text \<open>\<open>recv\<close> into a buffer from an offset on; the length that it asks for is computed in 64 bits without sign.\<close>

definition tcp_recv :: "(nat \<Rightarrow> recv_result) \<Rightarrow> byte list \<Rightarrow> nat \<Rightarrow> (bytes_with_status \<times> byte list) option" where
  "tcp_recv syscall_recv write_buff start_offset =
    (case syscall_recv (unat (of_nat (length write_buff) - of_nat start_offset :: 64 word)) of
       RecvError e \<Rightarrow> Some (transfer_error e, write_buff)
     | Received data \<Rightarrow> do {
         write_buff \<leftarrow> write_at write_buff start_offset data;
         Some ((length data, if length data = 0 then cleanly_disconnected else valid), write_buff)
       })"

definition MSG_DONTWAIT :: int32 where
  "MSG_DONTWAIT = 0x40"

definition MSG_WAITALL :: int32 where
  "MSG_WAITALL = 0x100"

text \<open>\<open>recv\<close> into memory, by TCP and by UDP.\<close>

definition tcp_recv_bytes ::
  "(nat \<Rightarrow> int32 \<Rightarrow> recv_result) \<Rightarrow> byte list \<Rightarrow> nat \<Rightarrow> bool \<Rightarrow> (bytes_with_status \<times> byte list) option" where
  "tcp_recv_bytes syscall_recv buffer len wait =
    (let flags = (if wait then MSG_WAITALL else MSG_DONTWAIT) in
     case syscall_recv len flags of
       RecvError e \<Rightarrow> Some (transfer_error e, buffer)
     | Received data \<Rightarrow> do {
         buffer \<leftarrow> write_at buffer 0 data;
         Some ((length data, if length data = 0 then cleanly_disconnected else valid), buffer)
       })"

definition udp_recv_bytes ::
  "udp_socket \<Rightarrow> byte list \<Rightarrow> nat \<Rightarrow> ('a os_scheme, bytes_with_status \<times> byte list \<times> udp_socket) call" where
  "udp_recv_bytes s buffer len w = (case recvs w of
      [] \<Rightarrow> None
    | r # rest \<Rightarrow>
        let w = w\<lparr>recvs := rest\<rparr> in
        case r of
          RecvFail e \<Rightarrow> Some ((transfer_error e, buffer, s), w)
        | Datagram data from \<Rightarrow> do {
            let data = take len data;
            let s = s\<lparr>socket_input := from\<rparr>;
            buffer \<leftarrow> write_at buffer 0 data;
            Some (((length data, if length data = 0 then cleanly_disconnected else valid), buffer, s), w)
          })"

section \<open>Options and status\<close>

definition set_broadcast :: "(int \<Rightarrow> int32 \<Rightarrow> bool) \<Rightarrow> bool \<Rightarrow> int \<Rightarrow> unit option" where
  "set_broadcast setsockopt_broadcast state fd =
    (let broadcast = (if state then 1 else 0) in if \<not> setsockopt_broadcast fd broadcast then None else Some ())"

definition set_tcp_no_delay :: "(int \<Rightarrow> int32 \<Rightarrow> bool) \<Rightarrow> bool \<Rightarrow> int \<Rightarrow> unit option" where
  "set_tcp_no_delay setsockopt_nodelay state fd =
    (let tcpnodelay = (if state then 1 else 0) in if \<not> setsockopt_nodelay fd tcpnodelay then None else Some ())"

definition SOCKET_ERROR :: int where
  "SOCKET_ERROR = - 1"

text \<open>\<open>getsockopt\<close> fails, or gives the error that is pending, 0 for none.\<close>

definition get_status :: "int option \<Rightarrow> socket_status option" where
  "get_status so_error = do {
     sockerror \<leftarrow> so_error;
     Some (if sockerror = SOCKET_ERROR then errored else valid)
   }"

definition SOMAXCONN :: int where
  "SOMAXCONN = 4096"

definition tcp_listen :: "(int \<Rightarrow> int \<Rightarrow> int) \<Rightarrow> int \<Rightarrow> unit option" where
  "tcp_listen syscall_listen fd = (if syscall_listen fd SOMAXCONN = SOCKET_ERROR then None else Some ())"

text \<open>\<open>ioctl(FIONREAD)\<close> fails, or gives the number of bytes.\<close>

definition bytes_available :: "int32 option \<Rightarrow> nat option" where
  "bytes_available fionread = do {
     size \<leftarrow> fionread;
     Some (if 0 <s size then unat size else 0)
   }"

section \<open>The rest of the interface\<close>

text \<open>Which addresses a socket asks \<open>getaddrinfo\<close> for.\<close>

datatype protocol = tcp | tcp_ssl | udp

record addrinfo_hints =
  ai_family :: int32
  ai_socktype :: int32
  ai_protocol :: int32
  ai_flags :: int32

definition initialize_addrinfo :: "protocol \<Rightarrow> addrinfo_hints" where
  "initialize_addrinfo sock_proto =
    (let (ty, iprotocol) = (if sock_proto = tcp \<or> sock_proto = tcp_ssl then (1, 6) else if sock_proto = udp then (2, 17) else (0, 0))
     in \<lparr>ai_family = 0, ai_socktype = ty, ai_protocol = iprotocol, ai_flags = 0x20\<rparr>)"

text \<open>The sets of descriptors that \<open>select\<close> hands to the system: to read, to write, and with an exception pending.\<close>

definition fds_read :: int32 where
  "fds_read = 0x1"

definition fds_write :: int32 where
  "fds_write = 0x2"

definition fds_except :: int32 where
  "fds_except = 0x4"

unbundle bit_operations_syntax

definition select_sets :: "int32 \<Rightarrow> int \<Rightarrow> int list option \<times> int list option \<times> int list option" where
  "select_sets fds fd =
    (if fds AND fds_read \<noteq> 0 then Some [fd] else None,
     if fds AND fds_write \<noteq> 0 then Some [fd] else None,
     if fds AND fds_except \<noteq> 0 then Some [fd] else None)"

text \<open>\<open>shutdown\<close>, with what the system call does as an argument, and whose result is ignored.\<close>

definition socket_shutdown :: "(int \<Rightarrow> 's \<Rightarrow> 's) \<Rightarrow> int \<Rightarrow> 's \<Rightarrow> 's" where
  "socket_shutdown syscall_shutdown fd k = (if fd \<noteq> INVALID_SOCKET then syscall_shutdown fd k else k)"

text \<open>The type of socket that is asked for fits the protocol, and each flag of \<open>select\<close> selects one set.\<close>

lemma initialize_addrinfo_type:
  "ai_socktype (initialize_addrinfo p) = 2 \<longleftrightarrow> p = udp" "ai_protocol (initialize_addrinfo p) = 6 \<longleftrightarrow> p \<noteq> udp"
  by (cases p; simp add: initialize_addrinfo_def)+

lemma select_sets_flags:
  "select_sets fds_read fd = (Some [fd], None, None)"
  "select_sets (fds_read OR fds_except) fd = (Some [fd], None, Some [fd])"
  "select_sets (fds_write OR fds_except) fd = (None, Some [fd], Some [fd])"
  by (simp_all add: select_sets_def fds_read_def fds_write_def fds_except_def)

section \<open>What receiving does to the buffer\<close>

lemma write_at_Some: "write_at buffer offset data = Some buffer' \<longleftrightarrow>
  offset + length data \<le> length buffer \<and> buffer' = take offset buffer @ data @ drop (offset + length data) buffer"
  by (auto simp: write_at_def)

lemma write_at_write_at:
  assumes "write_at buffer offset xs = Some buffer'"
  shows "write_at buffer' (offset + length xs) ys = write_at buffer offset (xs @ ys)"
proof -
  have b: "offset + length xs \<le> length buffer" "buffer' = take offset buffer @ xs @ drop (offset + length xs) buffer"
    using assms by (simp_all add: write_at_Some)
  then have "length buffer' = length buffer" "take (offset + length xs) buffer' = take offset buffer @ xs"
    "drop (offset + length xs + length ys) buffer' = drop (offset + length xs + length ys) buffer"
    by (simp_all add: add.commute)
  then show ?thesis by (simp add: write_at_def add.assoc)
qed

lemma transfer_error_status: "transfer_error e = (n, st) \<Longrightarrow> n = 0 \<and> st \<noteq> valid \<and> st \<noteq> cleanly_disconnected"
  by (auto simp: transfer_error_def split: if_splits)

text \<open>The length that is asked for is what is left of the buffer.\<close>

lemma recv_length: "offset \<le> n \<Longrightarrow> n < 2 ^ 64 \<Longrightarrow> unat (of_nat n - of_nat offset :: 64 word) = n - offset"
  by (simp add: unat_sub word_le_nat_alt unat_of_nat)

text \<open>Received in two calls, the second from the end of what the first received, a stream comes in the order that it was sent: the
  buffer is the one that a single call would have left that received all of it, and no other byte of it changes.  A buffer that
  is full then makes \<open>recv\<close> report that the peer disconnected, although it did not: the system call is asked for no bytes, and gives none.\<close>

theorem tcp_recv_in_parts:
  assumes "offset \<le> length buffer" "length buffer < 2 ^ 64"
    and "recv1 (length buffer - offset) = Received xs" "xs \<noteq> []" "length xs \<le> length buffer - offset"
    and "recv2 (length buffer - offset - length xs) = Received ys" "length ys \<le> length buffer - offset - length xs"
    and "recv3 0 = Received []"
  shows "\<exists>b1 b2. tcp_recv recv1 buffer offset = Some ((length xs, valid), b1)
    \<and> tcp_recv recv2 b1 (offset + length xs) = Some ((length ys, if ys = [] then cleanly_disconnected else valid), b2)
    \<and> b2 = take offset buffer @ xs @ ys @ drop (offset + length xs + length ys) buffer
    \<and> tcp_recv recv3 b2 (length b2) = Some ((0, cleanly_disconnected), b2)"
proof -
  obtain b1 where b1: "write_at buffer offset xs = Some b1" "length b1 = length buffer"
    using assms(1,5) by (simp add: write_at_Some)
  moreover obtain b2 where b2: "write_at b1 (offset + length xs) ys = Some b2" "length b2 = length buffer"
    "b2 = take offset buffer @ xs @ ys @ drop (offset + length xs + length ys) buffer"
    using assms(1,5,7) unfolding write_at_write_at [OF b1(1)] by (simp add: write_at_Some add.assoc)
  moreover have "write_at b2 (length b2) [] = Some b2" by (simp add: write_at_def)
  ultimately show ?thesis
    using assms recv_length [OF assms(1,2)] recv_length [of "offset + length xs" "length buffer"]
    by (simp add: tcp_recv_def diff_diff_add)
qed

theorem tcp_recv_in_parts_witness:
  "\<exists>b. tcp_recv (\<lambda>_. Received [1, 2]) [0, 0, 0] 0 = Some ((2, valid), b)
    \<and> tcp_recv (\<lambda>n. Received (replicate n 3)) b 2 = Some ((1, valid), [1, 2, 3])
    \<and> tcp_recv (\<lambda>n. Received (replicate n 3)) [1, 2, 3] 3 = Some ((0, cleanly_disconnected), [1, 2, 3])"
proof -
  have "length [0 :: byte, 0, 0] < 2 ^ 64" "length [0 :: byte, 0, 0] = 3" "Suc (Suc (Suc 0)) = 3" "Suc (Suc 0) = 2" by simp_all
  note s = this
  show ?thesis
    using tcp_recv_in_parts [of 0 "[0, 0, 0]" "\<lambda>_. Received [1, 2]" "[1, 2]" "\<lambda>n. Received (replicate n 3)" "[3]"
        "\<lambda>n. Received (replicate n 3)", OF _ s(1)]
    by (simp add: s(3,4))
qed

text \<open>An offset beyond the end is not tested: the length wraps around, and whatever comes is written beyond the buffer.\<close>

theorem tcp_recv_beyond:
  assumes "length buffer < offset" "offset < 2 ^ 64" "data \<noteq> []"
    and "recv1 (2 ^ 64 - (offset - length buffer)) = Received data"
  shows "tcp_recv recv1 buffer offset = None"
proof -
  have "unat (of_nat (length buffer) - of_nat offset :: 64 word) = 2 ^ 64 - (offset - length buffer)"
    using assms(1,2) by (simp add: unat_sub_if' unat_of_nat)
  then show ?thesis using assms(1,4) by (simp add: tcp_recv_def write_at_def)
qed

theorem tcp_recv_beyond_witness: "tcp_recv (\<lambda>_. Received [1]) [0, 0] 3 = None"
  by (rule tcp_recv_beyond [where data = "[1]"]) simp_all

text \<open>\<open>get_status\<close> never reports an error: what is pending is an error number, which is not negative.\<close>

theorem get_status_never_errored: "get_status (Some (int e)) = Some valid"
  by (simp add: get_status_def SOCKET_ERROR_def)

text \<open>Receiving by UDP into memory is receiving into the buffer of that length.\<close>

lemma take_drop_drop: "i \<le> n \<Longrightarrow> take (n - i) (drop i xs) @ drop n xs = drop i xs"
  using append_take_drop_id [of "n - i" "drop i xs"] by simp

lemma udp_recv_bytes_eq:
  assumes "len \<le> length buffer" "udp_recv s (take len buffer) w = Some ((st, buf, s'), w')"
  shows "udp_recv_bytes s buffer len w = Some ((st, buf @ drop len buffer, s'), w')"
  using assms
  by (auto simp: udp_recv_bytes_def udp_recv_def copy_into_def write_at_def transfer_error_def min_def Let_def drop_take take_drop_drop
      split: list.splits recvfrom_result.splits if_splits)

end
