(* ===== verification/Tls.thy ===== *)
theory Tls
  imports Sockets
begin

text \<open>
  The life of a TLS socket of \<open>kissnet.hpp\<close>, which is compiled with \<open>KISSNET_USE_OPENSSL\<close>: to the state of \<open>Sockets\<close> come the SSL
  objects and contexts that exist, and the two pointers of every socket to them.  What OpenSSL's functions return is an argument;
  of OpenSSL the model has only that an object exists from \<open>SSL_new\<close> to \<open>SSL_free\<close>, and that to use it afterwards is undefined, which is
  recorded in \<open>ssl_misuse\<close>.

  The lemmas show when the objects are freed as they should be, and when they are not.
\<close>

record tls =
  net :: sockets
  ssl_live :: "nat set"
  ctx_live :: "nat set"
  pSSL :: "nat \<Rightarrow> nat option"
  pContext :: "nat \<Rightarrow> nat option"
  ssl_misuse :: bool

definition SSL_free :: "nat \<Rightarrow> tls \<Rightarrow> tls" where
  "SSL_free s k = (if s \<notin> ssl_live k then k\<lparr>ssl_misuse := True\<rparr> else k\<lparr>ssl_live := ssl_live k - {s}\<rparr>)"

definition SSL_CTX_free :: "nat \<Rightarrow> tls \<Rightarrow> tls" where
  "SSL_CTX_free c k = (if c \<notin> ctx_live k then k\<lparr>ssl_misuse := True\<rparr> else k\<lparr>ctx_live := ctx_live k - {c}\<rparr>)"

text \<open>What an operation does to the socket alone.\<close>

definition on_net :: "(sockets \<Rightarrow> sockets option) \<Rightarrow> tls \<Rightarrow> tls option" where
  "on_net f k = do { n \<leftarrow> f (net k); Some (k\<lparr>net := n\<rparr>) }"

text \<open>\<open>close\<close> says good-bye and frees, and leaves the two pointers as they are.\<close>

definition tls_close :: "nat \<Rightarrow> tls \<Rightarrow> tls option" where
  "tls_close a k = do {
     x \<leftarrow> objects (net k) a;
     let k = (if o_sock x \<noteq> INVALID_SOCKET
         then (case pSSL k a of
             None \<Rightarrow> k
           | Some s \<Rightarrow>
               let k = SSL_free s k
               in (case pContext k a of None \<Rightarrow> k | Some c \<Rightarrow> SSL_CTX_free c k))
         else k);
     on_net (socket_close a) k
   }"

definition tls_destroy :: "nat \<Rightarrow> tls \<Rightarrow> tls option" where
  "tls_destroy a k = do {
     k \<leftarrow> tls_close a k;
     k \<leftarrow> on_net (socket_destroy a) k;
     Some (k\<lparr>pSSL := (pSSL k)(a := None), pContext := (pContext k)(a := None)\<rparr>)
   }"

definition tls_move_pointers :: "nat \<Rightarrow> nat \<Rightarrow> tls \<Rightarrow> tls" where
  "tls_move_pointers a other k = k\<lparr>pSSL := (pSSL k)(a := pSSL k other, other := None),
     pContext := (pContext k)(a := pContext k other, other := None)\<rparr>"

definition tls_move_new :: "nat \<Rightarrow> nat \<Rightarrow> tls \<Rightarrow> tls option" where
  "tls_move_new a other k = do {
     k \<leftarrow> on_net (socket_move_new a other) k;
     Some (tls_move_pointers a other k)
   }"

definition tls_move_assign :: "nat \<Rightarrow> nat \<Rightarrow> tls \<Rightarrow> tls option" where
  "tls_move_assign a other k =
    (if a = other then Some k
     else do {
       k \<leftarrow> on_net (socket_move_assign a other) k;
       Some (tls_move_pointers a other k)
     })"

section \<open>Connecting\<close>

text \<open>The private \<open>connect\<close>, whose \<open>close\<close> is now that of a TLS socket.\<close>

definition tls_try_connect ::
  "nat \<Rightarrow> (node \<Rightarrow> attempt) \<Rightarrow> node option \<Rightarrow> int64 \<Rightarrow> bool \<Rightarrow> tls \<Rightarrow> (socket_status \<times> tls) option" where
  "tls_try_connect a peers addr timeout createsocket k = do {
     k \<leftarrow> (if createsocket then do {
             k \<leftarrow> tls_close a k;
             x \<leftarrow> objects (net k) a;
             i \<leftarrow> addr;
             let fd = at_socket (peers i);
             let n = net k;
             Some (k\<lparr>net := n\<lparr>objects := (objects n)(a \<mapsto> x\<lparr>o_sock := fd, o_addrinfo := None\<rparr>),
               descriptors := (if fd = INVALID_SOCKET then descriptors n else (descriptors n)(fd \<mapsto> 0))\<rparr>\<rparr>)
           } else Some k);
     x \<leftarrow> objects (net k) a;
     if o_sock x = INVALID_SOCKET then Some (errored, k)
     else do {
       k \<leftarrow> on_net (\<lambda>n. Some (n\<lparr>objects := (objects n)(a \<mapsto> x\<lparr>o_addrinfo := addr\<rparr>)\<rparr>)) k;
       k \<leftarrow> (if 0 <s timeout then on_net (set_non_blocking True (o_sock x)) k else Some k);
       i \<leftarrow> addr;
       error \<leftarrow> connect_error (peers i) timeout;
       k \<leftarrow> (if 0 <s timeout then on_net (set_non_blocking False (o_sock x)) k else Some k);
       if error = 0 then Some (valid, k)
       else do {
         k \<leftarrow> tls_close a k;
         x \<leftarrow> objects (net k) a;
         k \<leftarrow> on_net (\<lambda>n. Some (n\<lparr>objects := (objects n)(a \<mapsto> x\<lparr>o_addrinfo := None\<rparr>)\<rparr>)) k;
         Some (errored, k)
       }
     }
   }"

fun tls_connect_others :: "nat \<Rightarrow> (node \<Rightarrow> attempt) \<Rightarrow> node option \<Rightarrow> int64 \<Rightarrow> node list \<Rightarrow> tls \<Rightarrow> tls option" where
  "tls_connect_others a peers curr_addr timeout [] k = Some k"
| "tls_connect_others a peers curr_addr timeout (addr # addrs) k =
    (if Some addr = curr_addr then tls_connect_others a peers curr_addr timeout addrs k
     else do {
       (status, k) \<leftarrow> tls_try_connect a peers (Some addr) timeout True k;
       if status = valid then Some k else tls_connect_others a peers curr_addr timeout addrs k
     })"

definition tls_connect_any ::
  "nat \<Rightarrow> (nat \<Rightarrow> nat) \<Rightarrow> (node \<Rightarrow> attempt) \<Rightarrow> int64 \<Rightarrow> tls \<Rightarrow> tls option" where
  "tls_connect_any a len peers timeout k = do {
     x \<leftarrow> objects (net k) a;
     let curr_addr = o_addrinfo x;
     (status, k) \<leftarrow> tls_try_connect a peers curr_addr timeout False k;
     if status \<noteq> valid
     then tls_connect_others a peers curr_addr timeout (case o_results x of None \<Rightarrow> [] | Some p \<Rightarrow> map (Pair p) [0..<len p]) k
     else Some k
   }"

text \<open>The public \<open>connect\<close>: \<open>ctx\<close> and \<open>ssl\<close> are what \<open>SSL_CTX_new\<close> and \<open>SSL_new\<close> return, and the two flags are whether
  \<open>SSL_set_fd\<close> and \<open>SSL_connect\<close> succeed.\<close>

definition tls_connect ::
  "nat \<Rightarrow> (nat \<Rightarrow> nat) \<Rightarrow> (node \<Rightarrow> attempt) \<Rightarrow> int64 \<Rightarrow> nat option \<Rightarrow> nat option \<Rightarrow> bool \<Rightarrow> bool \<Rightarrow> tls \<Rightarrow> (socket_status \<times> tls) option" where
  "tls_connect a len peers timeout ctx ssl set_fd shaken k = do {
     k \<leftarrow> tls_connect_any a len peers timeout k;
     x \<leftarrow> objects (net k) a;
     if o_sock x = INVALID_SOCKET then None
     else
       let k = k\<lparr>pContext := (pContext k)(a := ctx), ctx_live := ctx_live k \<union> set_option ctx\<rparr>;
           k = k\<lparr>pSSL := (pSSL k)(a := ssl), ssl_live := ssl_live k \<union> set_option ssl\<rparr>
       in if ssl = None then Some (errored, k)
          else if \<not> set_fd then Some (errored, k)
          else if \<not> shaken then Some (errored, k)
          else Some (valid, k)
   }"

section \<open>Freed once, and twice\<close>

text \<open>A connected TLS socket.\<close>

definition tls_connected :: "nat \<Rightarrow> sock_obj \<Rightarrow> nat \<Rightarrow> nat \<Rightarrow> tls \<Rightarrow> bool" where
  "tls_connected a x s c k \<longleftrightarrow> objects (net k) a = Some x \<and> is_valid x \<and> descriptors (net k) (o_sock x) \<noteq> None
    \<and> pSSL k a = Some s \<and> s \<in> ssl_live k \<and> pContext k a = Some c \<and> c \<in> ctx_live k \<and> \<not> ssl_misuse k"

lemma objects_closesocket [simp]: "objects (closesocket fd n) = objects n"
  by (simp add: closesocket_def)

text \<open>The state after \<open>close\<close>; the pointer to the SSL object stays and points to nothing.\<close>

lemma tls_close_connected:
  assumes "tls_connected a x s c k"
  obtains k' where "tls_close a k = Some k'" "objects (net k') a = Some (x\<lparr>o_sock := INVALID_SOCKET\<rparr>)" "\<not> ssl_misuse k'"
    "descriptors (net k') = (descriptors (net k))(o_sock x := None)" "misuse (net k') = misuse (net k)"
    "addrinfos (net k') = addrinfos (net k)"
    "ssl_live k' = ssl_live k - {s}" "ctx_live k' = ctx_live k - {c}" "pSSL k' = pSSL k" "pContext k' = pContext k"
  using assms
  by (auto simp: tls_connected_def tls_close_def on_net_def socket_close_def closesocket_def SSL_free_def SSL_CTX_free_def is_valid_def Let_def)

lemma tls_close_closed:
  assumes "objects (net k) a = Some x" "o_sock x = INVALID_SOCKET"
  shows "tls_close a k = Some k"
proof -
  have "x\<lparr>o_sock := INVALID_SOCKET\<rparr> = x" using assms(2) by (cases x) simp
  then have "(objects (net k))(a \<mapsto> x\<lparr>o_sock := INVALID_SOCKET\<rparr>) = objects (net k)" using assms(1) by auto
  then show ?thesis using assms by (simp add: tls_close_def on_net_def socket_close_def Let_def)
qed

lemma SSL_free_simps [simp]:
  "net (SSL_free s k) = net k" "net (SSL_CTX_free c k) = net k" "pContext (SSL_free s k) = pContext k"
  "ssl_misuse k \<Longrightarrow> ssl_misuse (SSL_CTX_free c k)" "s \<notin> ssl_live k \<Longrightarrow> ssl_misuse (SSL_free s k)"
  by (simp_all add: SSL_free_def SSL_CTX_free_def)

lemma tls_close_dangling:
  assumes "objects (net k) a = Some x" "o_sock x \<noteq> INVALID_SOCKET" "pSSL k a = Some s" "s \<notin> ssl_live k"
  obtains k' where "tls_close a k = Some k'" "ssl_misuse k'" "objects (net k') a = Some (x\<lparr>o_sock := INVALID_SOCKET\<rparr>)"
  using assms
  by (cases "pContext k a") (simp_all add: tls_close_def on_net_def socket_close_def Let_def)

text \<open>To try an address with an existing connection, and a new one with a pointer that was left behind.\<close>

lemma tls_try_connected:
  assumes "tls_connected a x s c k" "connect_error (peers i) timeout = Some e" "e \<noteq> 0" "\<not> 0 <s timeout"
  obtains k' where "tls_try_connect a peers (Some i) timeout False k = Some (errored, k')"
    "objects (net k') a = Some (x\<lparr>o_sock := INVALID_SOCKET, o_addrinfo := None\<rparr>)" "pSSL k' a = Some s" "s \<notin> ssl_live k'"
    "descriptors (net k') = (descriptors (net k))(o_sock x := None)"
proof -
  let ?k = "k\<lparr>net := (net k)\<lparr>objects := (objects (net k))(a \<mapsto> x\<lparr>o_addrinfo := Some i\<rparr>)\<rparr>\<rparr>"
  have c: "tls_connected a (x\<lparr>o_addrinfo := Some i\<rparr>) s c ?k" using assms(1) by (simp add: tls_connected_def is_valid_def)
  obtain k' where k': "tls_close a ?k = Some k'" "objects (net k') a = Some (x\<lparr>o_addrinfo := Some i, o_sock := INVALID_SOCKET\<rparr>)"
    "descriptors (net k') = (descriptors (net k))(o_sock x := None)" "ssl_live k' = ssl_live k - {s}" "pSSL k' = pSSL k"
    by (rule tls_close_connected [OF c]) simp
  have x: "objects (net k) a = Some x" "o_sock x \<noteq> INVALID_SOCKET" "pSSL k a = Some s"
    using assms(1) by (simp_all add: tls_connected_def is_valid_def)
  let ?k' = "k'\<lparr>net := (net k')\<lparr>objects := (objects (net k'))(a \<mapsto> x\<lparr>o_sock := INVALID_SOCKET, o_addrinfo := None\<rparr>)\<rparr>\<rparr>"
  have "tls_try_connect a peers (Some i) timeout False k = Some (errored, ?k')"
    using x assms(2-4) k'(1,2) by (simp add: tls_try_connect_def on_net_def)
  then show thesis by (rule that) (use k' x in \<open>simp_all\<close>)
qed

lemma tls_try_dangling:
  assumes "objects (net k) a = Some x" "o_sock x = INVALID_SOCKET" "pSSL k a = Some s" "s \<notin> ssl_live k"
    and "at_socket (peers i) \<noteq> INVALID_SOCKET" "connect_error (peers i) timeout = Some e" "e \<noteq> 0" "\<not> 0 <s timeout"
  shows "\<exists>k'. tls_try_connect a peers (Some i) timeout True k = Some (errored, k') \<and> ssl_misuse k'"
proof -
  let ?fd = "at_socket (peers i)"
  let ?k = "k\<lparr>net := (net k)\<lparr>descriptors := (descriptors (net k))(?fd \<mapsto> 0),
    objects := (objects (net k))(a \<mapsto> x\<lparr>o_sock := ?fd, o_addrinfo := Some i\<rparr>)\<rparr>\<rparr>"
  obtain k' where k': "tls_close a ?k = Some k'" "ssl_misuse k'"
    "objects (net k') a = Some (x\<lparr>o_sock := ?fd, o_addrinfo := Some i, o_sock := INVALID_SOCKET\<rparr>)"
    by (rule tls_close_dangling [of ?k a "x\<lparr>o_sock := ?fd, o_addrinfo := Some i\<rparr>" s]) (use assms(3-5) in simp_all)
  then show ?thesis
    using tls_close_closed [OF assms(1,2)] assms(1,5-8) by (simp add: tls_try_connect_def on_net_def Let_def)
qed


text \<open>\<open>connect(2)\<close> fails with \<open>EISCONN\<close> on a socket that is connected; the other address refuses.\<close>

definition tls_demo :: tls where
  "tls_demo = \<lparr>net = two_sockets, ssl_live = {7}, ctx_live = {8}, pSSL = [2 \<mapsto> 7], pContext = [2 \<mapsto> 8], ssl_misuse = False\<rparr>"

definition refusing :: "node \<Rightarrow> attempt" where
  "refusing i = \<lparr>at_socket = 5, at_connect = (if snd i = 0 then 106 else 111), at_select = (\<lambda>_. Inr 0), at_so_error = None\<rparr>"


end
