(* ===== verification/Winsock.thy ===== *)
theory Winsock
  imports Kissnet
begin

text \<open>
  What \<open>kissnet.hpp\<close> does on Windows only: the socket library is started for the first socket and cleaned up after the last,
  by an object \<open>WSA\<close> that all sockets share, and its error codes are translated.

  A raw pointer in a global variable finds the object; a shared pointer in every socket keeps it alive.  The state has the
  objects by address with their use counts, and the shared pointers of the sockets by address.  Following a pointer to an
  object that is gone is undefined, and \<open>None\<close>, as is a fatal error.  Nothing of this is guarded against other threads.

  The lemmas show that the library is started exactly while a socket needs it, and once.
\<close>

section \<open>The shared object\<close>

record winsock =
  global_WSA :: "nat option"
  use_count :: "nat \<Rightarrow> nat option"
  wsa_ptr :: "nat \<Rightarrow> nat option"
  startups :: int

definition no_winsock :: winsock where
  "no_winsock = \<lparr>global_WSA = None, use_count = (\<lambda>_. None), wsa_ptr = (\<lambda>_. None), startups = 0\<rparr>"

definition WSASYSNOTREADY :: int where "WSASYSNOTREADY = 10091"
definition WSAVERNOTSUPPORTED :: int where "WSAVERNOTSUPPORTED = 10092"
definition WSAEINPROGRESS :: int where "WSAEINPROGRESS = 10036"
definition WSAEPROCLIM :: int where "WSAEPROCLIM = 10067"
definition WSAEFAULT :: int where "WSAEFAULT = 10014"

definition wsa_error_message :: "int \<Rightarrow> string" where
  "wsa_error_message status =
    (if status = WSASYSNOTREADY then ''The underlying network subsystem is not ready for network communication.''
     else if status = WSAVERNOTSUPPORTED then '' The version of Windows Sockets support requested (2.2) is not provided by this particular Windows Sockets implementation. ''
     else if status = WSAEINPROGRESS then ''A blocking Windows Sockets 1.1 operation is in progress.''
     else if status = WSAEPROCLIM then ''A limit on the number of tasks supported by the Windows Sockets implementation has been reached.''
     else if status = WSAEFAULT then ''The lpWSAData parameter is not a valid pointer.''
     else ''Unknown error happened.'')"

text \<open>The constructor: the message of the fatal error, or one more start.\<close>

definition WSA_new :: "int \<Rightarrow> winsock \<Rightarrow> string + winsock" where
  "WSA_new status w = (if status \<noteq> 0 then Inl (wsa_error_message status) else Inr (w\<lparr>startups := startups w + 1\<rparr>))"

definition WSA_destroy :: "nat \<Rightarrow> winsock \<Rightarrow> winsock" where
  "WSA_destroy p w = w\<lparr>startups := startups w - 1, global_WSA := None, use_count := (use_count w)(p := None)\<rparr>"

text \<open>Get or create; \<open>status\<close> is what \<open>WSAStartup\<close> returns, and \<open>p\<close> where a new object is put.\<close>

definition getWSA :: "int \<Rightarrow> nat \<Rightarrow> winsock \<Rightarrow> (nat \<times> winsock) option" where
  "getWSA status p w = (case global_WSA w of
      Some q \<Rightarrow> do {
        n \<leftarrow> use_count w q;
        Some (q, w\<lparr>use_count := (use_count w)(q \<mapsto> Suc n)\<rparr>)
      }
    | None \<Rightarrow> (case WSA_new status w of
        Inl msg \<Rightarrow> None
      | Inr w \<Rightarrow> Some (p, w\<lparr>global_WSA := Some p, use_count := (use_count w)(p \<mapsto> 1)\<rparr>)))"

text \<open>A shared pointer lets go of its object; the last one destroys it.\<close>

definition release :: "nat option \<Rightarrow> winsock \<Rightarrow> winsock option" where
  "release ptr w = (case ptr of
      None \<Rightarrow> Some w
    | Some p \<Rightarrow> do {
        n \<leftarrow> use_count w p;
        Some (if n \<le> 1 then WSA_destroy p w else w\<lparr>use_count := (use_count w)(p \<mapsto> n - 1)\<rparr>)
      })"

section \<open>The sockets\<close>

text \<open>\<open>KISSNET_OS_INIT\<close> in a constructor, the moves of a socket, and its destructor.\<close>

definition os_init :: "nat \<Rightarrow> int \<Rightarrow> nat \<Rightarrow> winsock \<Rightarrow> winsock option" where
  "os_init a status p w = do {
     (q, w) \<leftarrow> getWSA status p w;
     let old = wsa_ptr w a;
     release old (w\<lparr>wsa_ptr := (wsa_ptr w)(a \<mapsto> q)\<rparr>)
   }"

definition wsa_move :: "nat \<Rightarrow> nat \<Rightarrow> winsock \<Rightarrow> winsock option" where
  "wsa_move a other w =
    (if a = other then Some w
     else let old = wsa_ptr w a in release old (w\<lparr>wsa_ptr := (wsa_ptr w)(a := wsa_ptr w other, other := None)\<rparr>))"

definition wsa_drop :: "nat \<Rightarrow> winsock \<Rightarrow> winsock option" where
  "wsa_drop a w = (let old = wsa_ptr w a in release old (w\<lparr>wsa_ptr := (wsa_ptr w)(a := None)\<rparr>))"

inductive wsa_reachable :: "winsock \<Rightarrow> bool" where
  none: "wsa_reachable no_winsock"
| initialized: "wsa_reachable w \<Longrightarrow> use_count w p = None \<Longrightarrow> os_init a status p w = Some w' \<Longrightarrow> wsa_reachable w'"
| moved: "wsa_reachable w \<Longrightarrow> wsa_move a b w = Some w' \<Longrightarrow> wsa_reachable w'"
| dropped: "wsa_reachable w \<Longrightarrow> wsa_drop a w = Some w' \<Longrightarrow> wsa_reachable w'"

text \<open>The errors that the header looks at, as POSIX has them.\<close>

definition WSAEWOULDBLOCK :: int where "WSAEWOULDBLOCK = 10035"
definition WSAEBADF :: int where "WSAEBADF = 10009"
definition WSAEINTR :: int where "WSAEINTR = 10004"

definition get_error_code :: "int \<Rightarrow> int \<Rightarrow> int \<Rightarrow> int \<Rightarrow> int" where
  "get_error_code ewouldblock ebadf eintr error =
    (if error = WSAEWOULDBLOCK then ewouldblock
     else if error = WSAEBADF then ebadf
     else if error = WSAEINTR then eintr
     else error)"

section \<open>Started once, while it is needed\<close>

definition wsa_users :: "winsock \<Rightarrow> nat set" where
  "wsa_users w = {a. wsa_ptr w a \<noteq> None}"

definition wsa_counted :: "winsock \<Rightarrow> bool" where
  "wsa_counted w \<longleftrightarrow> finite (wsa_users w)
    \<and> (case global_WSA w of
        None \<Rightarrow> wsa_users w = {} \<and> (\<forall>p. use_count w p = None) \<and> startups w = 0
      | Some q \<Rightarrow> wsa_users w \<noteq> {} \<and> (\<forall>a \<in> wsa_users w. wsa_ptr w a = Some q)
          \<and> use_count w = [q \<mapsto> card (wsa_users w)] \<and> startups w = 1)"

text \<open>One pointer more than there are users, which is then let go of.\<close>

definition one_more :: "nat \<Rightarrow> winsock \<Rightarrow> bool" where
  "one_more q w \<longleftrightarrow> finite (wsa_users w) \<and> global_WSA w = Some q \<and> (\<forall>a \<in> wsa_users w. wsa_ptr w a = Some q)
    \<and> use_count w = [q \<mapsto> Suc (card (wsa_users w))] \<and> startups w = 1"

lemma wsa_users_update [simp]:
  "wsa_users (w\<lparr>global_WSA := g\<rparr>) = wsa_users w" "wsa_users (w\<lparr>use_count := c\<rparr>) = wsa_users w" "wsa_users (w\<lparr>startups := n\<rparr>) = wsa_users w"
  by (simp_all add: wsa_users_def)

lemma counted_release: "one_more q w \<Longrightarrow> \<exists>w'. release (Some q) w = Some w' \<and> wsa_counted w'"
proof -
  assume o: "one_more q w"
  show ?thesis
  proof (cases "wsa_users w = {}")
    case True
    then have "wsa_users (WSA_destroy q w) = {}" by (simp add: WSA_destroy_def)
    moreover have "use_count (WSA_destroy q w) = (\<lambda>_. None)" "global_WSA (WSA_destroy q w) = None" "startups (WSA_destroy q w) = 0"
      using o True by (simp_all add: one_more_def WSA_destroy_def)
    ultimately have "wsa_counted (WSA_destroy q w)" by (simp add: wsa_counted_def)
    moreover have "release (Some q) w = Some (WSA_destroy q w)" using o True by (simp add: one_more_def release_def)
    ultimately show ?thesis by blast
  next
    case False
    with o have "card (wsa_users w) \<noteq> 0" by (simp add: one_more_def)
    let ?w = "w\<lparr>use_count := [q \<mapsto> card (wsa_users w)]\<rparr>"
    have "release (Some q) w = Some ?w" using o \<open>card _ \<noteq> 0\<close> by (simp add: one_more_def release_def)
    moreover have "wsa_counted ?w" using o False by (simp add: one_more_def wsa_counted_def)
    ultimately show ?thesis by blast
  qed
qed

lemma wsa_countedD:
  assumes "wsa_counted w"
  shows "finite (wsa_users w)" "wsa_ptr w a = Some q \<Longrightarrow> global_WSA w = Some q"
    "global_WSA w = Some q \<Longrightarrow> wsa_users w \<noteq> {} \<and> use_count w = [q \<mapsto> card (wsa_users w)] \<and> startups w = 1"
    "global_WSA w = None \<Longrightarrow> wsa_users w = {} \<and> (\<forall>p. use_count w p = None) \<and> startups w = 0"
proof -
  show "finite (wsa_users w)" using assms by (simp add: wsa_counted_def)
  show "global_WSA w = Some q" if "wsa_ptr w a = Some q"
  proof -
    have "a \<in> wsa_users w" using that by (simp add: wsa_users_def)
    with assms that show ?thesis by (cases "global_WSA w") (auto simp: wsa_counted_def)
  qed
qed (use assms in \<open>simp_all add: wsa_counted_def\<close>)

lemma wsa_users_upd:
  "wsa_users (w\<lparr>wsa_ptr := (wsa_ptr w)(a := x)\<rparr>) = (if x = None then wsa_users w - {a} else insert a (wsa_users w))"
  "a \<noteq> b \<Longrightarrow> wsa_users (w\<lparr>wsa_ptr := (wsa_ptr w)(a := x, b := None)\<rparr>) = (if x = None then wsa_users w - {a, b} else insert a (wsa_users w - {b}))"
  by (auto simp: wsa_users_def)

lemma counted_drop:
  assumes "wsa_counted w" "wsa_drop a w = Some w'"
  shows "wsa_counted w'"
proof (cases "wsa_ptr w a")
  case None
  then have "(wsa_ptr w)(a := None) = wsa_ptr w" by auto
  with None assms show ?thesis by (simp add: wsa_drop_def release_def)
next
  case (Some q)
  note d = wsa_countedD [OF assms(1)]
  have u: "a \<in> wsa_users w" using Some by (simp add: wsa_users_def)
  let ?w = "w\<lparr>wsa_ptr := (wsa_ptr w)(a := None)\<rparr>"
  note g = d(2) [OF Some]
  have "wsa_users ?w = wsa_users w - {a}" by (simp add: wsa_users_upd)
  then have "finite (wsa_users ?w)" "Suc (card (wsa_users ?w)) = card (wsa_users w)" using d(1) u by (simp_all only: card_Suc_Diff1 finite_Diff)
  moreover have "wsa_ptr ?w c = Some q" if "c \<in> wsa_users ?w" for c
    using that d(2) g by (auto simp: wsa_users_def split: if_splits)
  ultimately have "one_more q ?w" using d(3) [OF g] g by (simp add: one_more_def)
  from counted_release [OF this] assms(2) Some show ?thesis by (auto simp: wsa_drop_def)
qed

lemma counted_init:
  assumes "wsa_counted w" "use_count w p = None" "os_init a status p w = Some w'"
  shows "wsa_counted w' \<and> wsa_ptr w' a \<noteq> None"
proof (cases "global_WSA w")
  case None
  note d = wsa_countedD(4) [OF assms(1) None]
  then have "wsa_ptr w b = None" for b by (auto simp: wsa_users_def)
  with d None assms(3) show ?thesis
    by (auto simp: os_init_def getWSA_def WSA_new_def release_def wsa_counted_def wsa_users_def Let_def fun_eq_iff split: if_splits)
next
  case (Some q)
  note d = wsa_countedD(3) [OF assms(1) Some] and e = wsa_countedD(1,2) [OF assms(1)]
  let ?w = "w\<lparr>use_count := [q \<mapsto> Suc (card (wsa_users w))], wsa_ptr := (wsa_ptr w)(a \<mapsto> q)\<rparr>"
  have r: "release (wsa_ptr w a) ?w = Some w'"
    using assms(3) Some d by (simp add: os_init_def getWSA_def Let_def)
  have u: "wsa_users ?w = insert a (wsa_users w)" by (auto simp: wsa_users_def)
  have p: "wsa_ptr ?w b = Some q" if "b \<in> wsa_users ?w" for b
    using that e(2) Some by (auto simp: wsa_users_def split: if_splits)
  show ?thesis
  proof (cases "wsa_ptr w a")
    case None
    then have "a \<notin> wsa_users w" by (simp add: wsa_users_def)
    with r None u p d e(1) Some show ?thesis by (auto simp: release_def wsa_counted_def)
  next
    case (Some r)
    then have "r = q" "a \<in> wsa_users w" using e(2) \<open>global_WSA w = Some q\<close> by (auto simp: wsa_users_def)
    then have "one_more q ?w" using u p d e(1) \<open>global_WSA w = Some q\<close> by (simp add: one_more_def insert_absorb)
    moreover have "wsa_ptr w' = wsa_ptr ?w"
      using r by (auto simp: release_def WSA_destroy_def Option.bind_eq_Some_conv split: option.splits if_splits)
    ultimately show ?thesis using counted_release r Some \<open>r = q\<close> by fastforce
  qed
qed

lemma counted_move:
  assumes "wsa_counted w" "wsa_move a b w = Some w'"
  shows "wsa_counted w'"
proof (cases "a = b")
  case False
  note d = wsa_countedD [OF assms(1)]
  let ?w = "w\<lparr>wsa_ptr := (wsa_ptr w)(a := wsa_ptr w b, b := None)\<rparr>"
  have r: "release (wsa_ptr w a) ?w = Some w'" using assms(2) False by (simp add: wsa_move_def)
  show ?thesis
  proof (cases "wsa_ptr w a")
    case None
    then have w': "w' = ?w" using r by (simp add: release_def)
    show ?thesis
    proof (cases "wsa_ptr w b")
      case None
      with \<open>wsa_ptr w a = None\<close> have "(wsa_ptr w)(a := None, b := None) = wsa_ptr w" by auto
      with None w' assms(1) show ?thesis by simp
    next
      case (Some q)
      note g = d(2) [OF Some]
      have "b \<in> wsa_users w" "a \<notin> wsa_users w" using Some None by (simp_all add: wsa_users_def)
      moreover have "wsa_users ?w = insert a (wsa_users w - {b})" using Some False by (auto simp: wsa_users_def)
      ultimately have "finite (wsa_users ?w)" "card (wsa_users ?w) = card (wsa_users w)" "wsa_users ?w \<noteq> {}"
        using d(1) card_Suc_Diff1 [OF d(1), of b] by (simp_all add: card_insert_if)
      moreover have "wsa_ptr ?w c = Some q" if "c \<in> wsa_users ?w" for c
        using that d(2) g by (auto simp: wsa_users_def split: if_splits)
      ultimately show ?thesis unfolding w' using d(3) [OF g] g by (simp add: wsa_counted_def)
    qed
  next
    case (Some q)
    have g: "global_WSA w = Some q" "a \<in> wsa_users w" using d(2) Some by (auto simp: wsa_users_def)
    have "wsa_users ?w = wsa_users w - {if wsa_ptr w b = None then a else b}"
      using False Some by (auto simp: wsa_users_def)
    moreover have "(if wsa_ptr w b = None then a else b) \<in> wsa_users w" using g by (auto simp: wsa_users_def)
    ultimately have "Suc (card (wsa_users ?w)) = card (wsa_users w)" using d(1) by (simp only: card_Suc_Diff1)
    moreover have "wsa_ptr ?w c = Some q" if "c \<in> wsa_users ?w" for c
      using that d(2) g(1) by (auto simp: wsa_users_def split: if_splits)
    moreover have "finite (wsa_users ?w)" using d(1) \<open>wsa_users ?w = _\<close> by simp
    ultimately have "one_more q ?w" using d(3) [OF g(1)] g(1) by (simp add: one_more_def)
    from counted_release [OF this] r Some show ?thesis by auto
  qed
qed (use assms in \<open>simp add: wsa_move_def\<close>)

lemma counted_reachable: "wsa_reachable w \<Longrightarrow> wsa_counted w"
proof (induction rule: wsa_reachable.induct)
  case none
  show ?case by (simp add: wsa_counted_def no_winsock_def wsa_users_def)
qed (use counted_init counted_move counted_drop in blast)+

text \<open>C30: In every reachable state of the sockets on Windows, whatever was constructed, moved and destroyed in whatever order: the socket
  library is started once if some socket has a pointer to the shared object, and not at all if none has; all pointers are to
  the one object that the global pointer finds, and its use count is the number of sockets that have one.  So no pointer dangles:
  the next socket gets the object, and to destroy a socket returns.\<close>

theorem winsock_started_while_needed:
  assumes "wsa_reachable w"
  shows "startups w = (if \<exists>a. wsa_ptr w a \<noteq> None then 1 else 0)
    \<and> (\<forall>a q. wsa_ptr w a = Some q \<longrightarrow> global_WSA w = Some q \<and> use_count w q = Some (card {a. wsa_ptr w a \<noteq> None}))
    \<and> (global_WSA w \<noteq> None \<longrightarrow> (\<exists>q w'. getWSA status p w = Some (q, w') \<and> startups w' = 1))
    \<and> (\<exists>w'. wsa_drop a w = Some w')"
proof -
  note d = wsa_countedD [OF counted_reachable [OF assms]]
  have u: "(\<exists>a. wsa_ptr w a \<noteq> None) \<longleftrightarrow> wsa_users w \<noteq> {}" by (auto simp: wsa_users_def)
  have "startups w = (if \<exists>a. wsa_ptr w a \<noteq> None then 1 else 0)"
    unfolding u using d(3,4) by (cases "global_WSA w") auto
  moreover have "global_WSA w = Some q \<and> use_count w q = Some (card {a. wsa_ptr w a \<noteq> None})" if "wsa_ptr w a = Some q" for a q
    using d(2) [OF that] d(3) [OF d(2) [OF that]] by (simp add: wsa_users_def)
  moreover have "\<exists>q w'. getWSA status p w = Some (q, w') \<and> startups w' = 1" if "global_WSA w \<noteq> None"
    using that d(3) by (auto simp: getWSA_def)
  moreover have "\<exists>w'. wsa_drop a w = Some w'"
    using d(2,3) by (cases "wsa_ptr w a") (auto simp: wsa_drop_def release_def)
  ultimately show ?thesis by blast
qed

theorem winsock_started_while_needed_witness:
  "\<exists>w. os_init 1 0 100 no_winsock = Some w \<and> wsa_ptr w 1 = Some 100 \<and> startups w = 1 \<and> (\<exists>w'. wsa_drop 1 w = Some w')"
proof -
  let ?w = "\<lparr>global_WSA = Some 100, use_count = [100 \<mapsto> 1], wsa_ptr = [1 \<mapsto> 100], startups = 1\<rparr>"
  have i: "os_init 1 0 100 no_winsock = Some ?w"
    by (simp add: os_init_def getWSA_def WSA_new_def release_def no_winsock_def)
  have "wsa_reachable ?w" by (rule initialized [OF none _ i]) (simp add: no_winsock_def)
  from winsock_started_while_needed [OF this] have "\<exists>w'. wsa_drop 1 ?w = Some w'" by blast
  with i show ?thesis by simp
qed

end
