(* ===== verification/Spec2Isabelle.thy ===== *)
theory Spec2Isabelle
  imports UnitTests System Standalone TimeService Connect Multicast SocketIO Tls Winsock
begin

text \<open>
  ClockKit keeps the clocks of several hosts in step over UDP.  A \<open>ClockServer\<close> answers requests for its time.
  On every other host a \<open>ClockClient\<close> measures the phase between a local clock and the server's; a
  \<open>PhaseLockedClock\<close> steers a \<open>VariableFrequencyClock\<close>, which counts the ticks of the system's clock, so that its phase and
  frequency follow the server's; and applications read it through \<open>clockkit.cpp\<close>.  This development translates
  the C++ program under \<^verbatim>\<open>src/ClockKit\<close> into HOL functions and proves what makes it correct.

  \<^bigskip>
  \<^bold>\<open>How the parts interact, and which theory models which.\<close>

  \<^item> \<open>Prelude\<close>: machine integers as words, arithmetic of \<^verbatim>\<open>int64_t\<close>, the type \<open>call\<close> of a method: a function from
    the state to the result and the new state, or \<open>None\<close> when it does not return.
  \<^item> \<open>CStdio\<close>: what the program uses of \<^verbatim>\<open>sprintf\<close>, \<^verbatim>\<open>sscanf\<close>, \<^verbatim>\<open>strtol\<close>.  \<open>Codec\<close>: 64-bit numbers as bytes.
    \<open>Binary64\<close>: IEEE double arithmetic on rationals, with rounding, infinities and NaN.
  \<^item> \<open>Timestamp\<close> (\<^verbatim>\<open>Timestamp.h\<close>, \<^verbatim>\<open>Timestamp.cpp\<close>): time points and durations in microseconds, their invalid
    values, their text, and their bytes on the wire for hosts of either byte order.
  \<^item> \<open>Platform\<close> (\<^verbatim>\<open>Clock.h\<close>, \<^verbatim>\<open>SystemClock.cpp\<close>): the record \<open>os\<close> of what the outside does, the class \<open>Clock\<close> as a record
    of its methods, and the system's clock.
  \<^item> \<open>VariableFrequencyClock\<close>, \<open>ClockPacket\<close>, \<open>ConfigReader\<close>: the files of those names.
  \<^item> \<open>Kissnet\<close> (\<^verbatim>\<open>kissnet.hpp\<close>, the end of \<^verbatim>\<open>Clock.h\<close>): the UDP socket and the error handling that ClockKit uses.
    \<open>Sockets\<close>: the life of its socket objects, with the descriptors and the results of \<^verbatim>\<open>getaddrinfo\<close> that they own.
    \<open>Connect\<close>: to which address its TCP \<^verbatim>\<open>connect\<close> connects.  \<open>Multicast\<close>: its \<^verbatim>\<open>join\<close>.  \<open>SocketIO\<close>: sending and
    receiving by TCP, options and status.  \<open>Tls\<close>: the objects of OpenSSL that a TLS socket owns.  \<open>Winsock\<close>: the shared object
    that starts the socket library of Windows, and cleans up after it.
  \<^item> \<open>ClockClient\<close>: the record \<open>client\<close> extends \<open>os\<close>; \<open>receive_loop\<close> is the loop of \<^verbatim>\<open>receivePacket\<close>.
  \<^item> \<open>OrderedMap\<close>, \<open>ClockServer\<close>: the record \<open>server\<close> extends \<open>os\<close>; \<^verbatim>\<open>ackData_\<close> is an association list in the order of the keys.
  \<^item> \<open>PhaseLockedClock\<close>: the record \<open>plc\<close> extends \<open>client\<close>, its reference.  \<open>ControlLaw\<close> holds the bounds of its
    control loop; \<open>LoopStep\<close> derives what one update does to the variable clock, reading by reading, and \<open>Convergence\<close>
    what the loop is for.  \<open>Threads\<close> splits \<^verbatim>\<open>update\<close> into atomic steps and interleaves them with a thread that reads the clock.
  \<^item> \<open>Api\<close> (\<^verbatim>\<open>clockkit.cpp\<close>): the static variables, the objects and the threads of the library.
  \<^item> \<open>Programs\<close> (\<^verbatim>\<open>ClockServerMain.cpp\<close>, \<^verbatim>\<open>PhaseLockMain.cpp\<close>, \<^verbatim>\<open>parseInt\<close> and \<^verbatim>\<open>parseFloat\<close> of \<^verbatim>\<open>Clock.h\<close>).
  \<^item> \<open>TimeService\<close> (\<^verbatim>\<open>SmartEyeDLL/TimeService.cpp\<close>): the DLL for Smart Eye Pro.
  \<^item> \<open>UnitTests\<close> (\<^verbatim>\<open>test-unit.cpp\<close>): the tests that compare two clocks again and again.
  \<^item> \<open>Standalone\<close> (\<^verbatim>\<open>test-standalone.cpp\<close>): a server and some clients in one process.
  \<^item> \<open>System\<close> and this theory: a client and a server that exchange packets.

  Definitions have the names of the code; where a name occurs in several classes, the class comes first
  (\<open>ClockClient_getValue\<close>), and a member has no trailing underscore.  A method that overrides one of \<open>Clock\<close>
  is in the record of its class (\<open>ClockClient\<close>, \<open>SystemClock\<close>, \<open>PhaseLockedClock\<close>).

  \<^bigskip>
  \<^bold>\<open>Interfaces.\<close>  A locale states each contract, and is interpreted on the program's own definitions where they are given:
  \<open>fixed_codec\<close> and \<open>codec_pair\<close> (a reader and a writer of so many bytes; \<open>be64\<close>, \<open>tp_wire\<close>, \<open>packet_wire\<close>), \<open>rounding\<close> (\<open>ieee\<close>),
  \<open>readable\<close> (reading a clock leaves a part of the state alone; \<open>sys\<close>, \<open>sys_net\<close>, \<open>vfc_net\<close>), \<open>net_clock\<close> (what \<open>receivePacket\<close>
  needs of the clock that it reads meanwhile), \<open>client_frame\<close> (what a client cannot change), \<open>finite_map\<close> (\<open>std_map\<close>),
  \<open>served_clock\<close> (the clock that a server reads) and \<open>plc_clocks\<close> (the two clocks of a \<open>PhaseLockedClock\<close>; \<open>program\<close> for a
  client as the reference, \<open>self\<close> for the system's clock).

  \<^bigskip>
  \<^bold>\<open>What the lemmas show.\<close>

  \<^item> Measurement: over one exchange the phase that the client reports misses the true one by at most half the
    round trip (here); it stems from a timely reply to the request that this call sent, which the client finds behind any number
    of stale packets (\<open>ClockClient\<close>); the same holds of the phase that the control loop stores, about the disciplined clock
    (here), and with the convergence of the loop it bounds how far that clock is from the server's (here); the server records exactly what the client measured (here); the clock after a
    reset shows the server's time to that accuracy (here).
  \<^item> The server answers every request until it is killed, and what it stores is a finite map (\<open>ClockServer\<close>).
  \<^item> The stored measurements of the control loop are never invalid, between updates (\<open>PhaseLockedClock\<close>) and between the
    atomic steps of the threads (\<open>Threads\<close>); sync is lost and regained as intended; frequencies are bounded (\<open>ControlLaw\<close>),
    its doubles stay doubles, and the phase converges, with all rounding accounted for (\<open>Convergence\<close>).
  \<^item> The disciplined clock is monotone, and invalid after a roll-over until it is set (\<open>VariableFrequencyClock\<close>).
  \<^item> Round trips: packets, time stamps, configuration files, arguments.
  \<^item> The programs come to their end (\<open>Programs\<close>, \<open>Standalone\<close>).  Descriptors have one owner (\<open>Sockets\<close>), and the socket library of
    Windows is started exactly while it is needed (\<open>Winsock\<close>).
  \<^item> Where the code fails: races, threads that outlive their objects, sockets that leak, a TLS session that is freed twice, NaN, and numbers that are cut; the theorems
    that say so have the kind error or bounds.

  \<^bigskip>
  \<^bold>\<open>Loops and fuel.\<close>  \<open>receive_loop\<close> takes one result of \<^verbatim>\<open>select\<close> each time round, and the fuel
  \<open>Suc (length (selects w))\<close> is proved to be enough (\<open>receive_loop_fuel\<close>, \<open>client_wait_refines\<close>); \<open>server_loop\<close> takes one result of
  \<^verbatim>\<open>recvfrom\<close> each time round, and \<open>Suc (length (recvs w))\<close> is enough (\<open>server_loop_fuel\<close>).  \<open>PhaseLockedClock_run\<close>
  runs over the values of \<^verbatim>\<open>end_clocks\<close> that it reads.  \<open>phaselock_loop\<close>, which may run forever, is a partial function, with
  \<open>None\<close> for that, and so are \<open>compare_loop\<close> and \<open>clones_plc_loop\<close>; the properties
  of all three prove that they return.  \<open>standalone_loop\<close> terminates: its duration shrinks.  \<open>update_steps\<close> needs seven steps at most (\<open>update_in_steps\<close>).  All other recursion is structural or has a measure.

  \<^bigskip>
  \<^bold>\<open>The environment.\<close>  The readings of the system's clock, the results of \<^verbatim>\<open>select\<close>, \<^verbatim>\<open>recvfrom\<close> and \<^verbatim>\<open>sendto\<close>, and the
  datagrams are scripts in \<open>os\<close> that every theorem quantifies over.  \<^verbatim>\<open>getaddrinfo\<close>, \<^verbatim>\<open>socket\<close>, \<^verbatim>\<open>bind\<close>, \<^verbatim>\<open>strtod\<close>, files and
  the Windows functions are arguments.  So is, in the tests, what the threads of the clocks do while the main thread sleeps.  Signed overflow is the wrap-around of the compiled code; a flag shared by threads
  without an atomic type is taken to be sequentially consistent.

  \<^bigskip>
  \<^bold>\<open>Not modelled.\<close>  Of \<^verbatim>\<open>kissnet.hpp\<close>: the set-up of OpenSSL and its transfer of bytes, and the conversion of addresses to text on Windows, which
  only call those libraries.  Messages on standard error, \<^verbatim>\<open>DEBUG\<close> output, and the time that threads sleep.  The sign of a zero in double
  arithmetic, which no result depends on.  The simulation in Ruby, the bindings that SWIG generates, and the resources of the DLL.
\<close>

section \<open>The offset that the client measures\<close>

text \<open>C1: One exchange over the network.  The client's clock reads \<open>c1\<close> when it sends its request; the server
  answers at \<open>s\<close> of its own clock; the client's clock reads \<open>c2\<close> when it reads the reply; and it showed \<open>x\<close>
  when the server answered.  Then the phase that \<open>getPhase\<close> returns misses the true offset \<open>s - x\<close> of the two
  clocks by at most half the round trip, and one microsecond; the round trip is what the client stores.\<close>

theorem client_server_offset_error:
  fixes w :: "'a client_scheme" and v :: "'b server_scheme"
  assumes "recvs v = [Datagram (ClockPacket_write (ClockPacket_new REQUEST (next_sequence (sequence w)) (sys_time w))) peer]"
    and "sendtos v = []" "sent v = []" "length buffer = PACKET_LENGTH" "1 < n"
    and "sa_family peer \<noteq> AF_OTHER" "sa_host peer \<noteq> []"
    and "server_loop n SystemClock_getValue sk buffer v = Some (Waiting, v')"
    and "selects w = 1 # rs" "recvs w = Datagram (fst (hd (sent v'))) from' # rest" "sendtos w = []"
    and "c1 = sint (sys_time w)" "s = sint (sys_time v)" "c2 = sint (cdiv (sys_now w (Suc (sys_reads w))) 1000)"
    and "c1 \<le> x" "x \<le> c2" "c2 - c1 \<le> sint (timeout w)"
  shows "\<exists>d w'. ClockClient_getPhase_ack SystemClock_getValue False w = Some (d, w') \<and> d \<noteq> durInvalid
    \<and> sint (client_rtt w') = c2 - c1 \<and> \<bar>sint d - (s - x)\<bar> \<le> (c2 - c1) div 2 + 1"
  using exchange_offset [OF assms] by blast

theorem client_server_offset_error_witness:
  "\<exists>d w' v' w. sent v' = [(ClockPacket_write \<lparr>type = REPLY, sequenceNumber = 1, clientRequestTime = 0,
        serverReplyTime = 4025, clientReceiveTime = tpInvalid\<rparr>, Some loopback)]
    \<and> w = fresh_client [1] [Datagram (fst (hd (sent (v' :: server)))) loopback]
    \<and> ClockClient_getPhase_ack SystemClock_getValue False w = Some (d, w') \<and> \<bar>sint d - 4000\<bar> \<le> 26"
proof -
  have c: "cdiv 0 1000 = 0" "cdiv 50000 1000 = 50" by (simp_all add: cdiv_def signed_divide_int_def)
  have t: "sys_time (fresh_client ss rs) = 0" for ss rs by (simp add: sys_time_def c)
  obtain v' where v: "server_loop 2 SystemClock_getValue undefined (replicate PACKET_LENGTH 0) (demo_server 0) = Some (Waiting, v')"
    "sent v' = [(ClockPacket_write \<lparr>type = REPLY, sequenceNumber = 1, clientRequestTime = 0,
        serverReplyTime = 4025, clientReceiveTime = tpInvalid\<rparr>, Some loopback)]" by (rule demo_reply)
  let ?w = "fresh_client [1] [Datagram (fst (hd (sent v'))) loopback]"
  have "\<exists>d w'. ClockClient_getPhase_ack SystemClock_getValue False ?w = Some (d, w') \<and> d \<noteq> durInvalid
    \<and> sint (client_rtt w') = 50 - 0 \<and> \<bar>sint d - (4025 - 25)\<bar> \<le> (50 - 0) div 2 + 1"
    by (rule client_server_offset_error [of "demo_server 0" ?w loopback "replicate PACKET_LENGTH 0" 2 undefined v' "[]" loopback "[]"])
      (simp_all add: v t next_sequence_def c)
  then obtain d w' where "ClockClient_getPhase_ack SystemClock_getValue False ?w = Some (d, w')" "\<bar>sint d - 4000\<bar> \<le> 26"
    by auto
  with v(2) show ?thesis by blast
qed

section \<open>The acknowledgement\<close>

text \<open>C4: What the server records is what the client measured: with acknowledging on, the last datagram that
  a successful \<open>getPhase\<close> sends, received by a server that keeps a log, sets the entry of the
  client's address to the very phase that \<open>getPhase\<close> returned, its round trip, and the server's time.\<close>

theorem acknowledged_phase_is_recorded:
  fixes w :: "'a client_scheme" and v :: "'b server_scheme"
  assumes "readable clk net_view"
    and "ClockClient_getPhase_ack clk True w = Some (d, w')" "d \<noteq> durInvalid"
    and "log v" "increasing (ackData v)" "now <s tRecalculated v + 500000"
  shows "\<exists>v' r. handle_packet sk (fst (last (sent w'))) now addr v = Some ((True, fst (last (sent w'))), v')
    \<and> map_of (ackData v') addr = Some \<lparr>entry_time = now, entry_offset = d, entry_rtt = r\<rparr>
    \<and> sint r \<le> sint (timeout w) \<and> r \<noteq> durInvalid"
proof -
  have n: "net_clock clk" by (rule net_clockI [OF assms(1)])
  show ?thesis
  proof (rule net_clock.getPhase_Some [OF n assms(2,3)])
    fix t1 p and w2 :: "'a client_scheme"
    assume p: "rtt p \<noteq> durInvalid" "sint (rtt p) \<le> sint (timeout w)" "d = getClockOffset p"
      and a: "if True then sendPacket (setType ACKNOWLEDGE p) w2 = Some (True, w') else w' = w2"
    let ?q = "setType ACKNOWLEDGE p"
    have l: "fst (last (sent w')) = ClockPacket_write ?q" using a sendPacket_ok(1) [of ?q w2 w'] by simp
    have r: "ClockPacket_read (ClockPacket_write ?q) = ?q" by (rule ClockPacket_read_write) simp
    have "handle_packet sk (ClockPacket_write ?q) now addr v
        = Some ((True, ClockPacket_write ?q), updateEntry addr (getClockOffset ?q) (rtt ?q) now v)"
      unfolding handle_packet_def Let_def r by simp
    moreover have "map_of (ackData (updateEntry addr (getClockOffset ?q) (rtt ?q) now v)) addr
        = Some \<lparr>entry_time = now, entry_offset = d, entry_rtt = rtt p\<rparr>"
      using assms(4,5,6) by (simp add: ackData_updateEntry Let_def std_map.lookup_assign p(3) rtt_fields)
    ultimately show ?thesis unfolding l using p by blast
  qed
qed

theorem acknowledged_phase_is_recorded_witness:
  "\<exists>v' r addr. map_of (ackData (v' :: server)) addr = Some \<lparr>entry_time = 100, entry_offset = 4975, entry_rtt = r\<rparr>
    \<and> sint r \<le> 1000"
proof -
  obtain w' where "ClockClient_getPhase_ack SystemClock_getValue True
     (fresh_client [1] [Datagram (ClockPacket_write (good_reply 1)) no_sockaddr]) = Some (4975, w')"
    using demo_phase ..
  from acknowledged_phase_is_recorded [OF sys_net.readable_axioms this, of "fresh_server []" 100 undefined "''a''"]
  show ?thesis by (fastforce simp: invalid_eq usecInvalid_def word_sless_alt)
qed

section \<open>The clock after a reset\<close>

lemma reading_sys_time: "sint (sys_time (w\<lparr>sys_reads := sys_reads w + k\<rparr>)) = read_at w k"
  by (simp add: read_at_def sys_time_reading)

lemma reading_bounds: "\<bar>read_at w k\<bar> \<le> 2 ^ 63 div 1000"
  using sys_time_bounds [of "w\<lparr>sys_reads := sys_reads w + k\<rparr>"] by (simp only: reading_sys_time)

text \<open>What \<open>setClock\<close> does when the measurement of the phase succeeds.\<close>

lemma setClock_phase:
  fixes w :: "'a plc_scheme"
  assumes "ClockClient_getPhase_ack SystemClock_getValue False (w\<lparr>inSync := True\<rparr>) = Some (d, w1)" "d \<noteq> durInvalid"
  obtains w' where "setClock SystemClock ClockClient w = Some ((), w')" "inSync w'" "sys_now w' = sys_now w1"
    "sys_reads w' = Suc (Suc (sys_reads w1))"
    "variableFrequencyClock w' = (variableFrequencyClock w)\<lparr>marker := sys_time w1 + d,
       markerSrc := cdiv (sys_now w1 (Suc (sys_reads w1))) 1000, rolledOver := False\<rparr>"
proof -
  have "(control w1, variableFrequencyClock w1) = (control (w\<lparr>inSync := True\<rparr>), variableFrequencyClock (w\<lparr>inSync := True\<rparr>))"
    using control_vfc.getPhase_ack_view [OF _ assms(1)] control_vfc.SystemClock_view by blast
  then have v: "variableFrequencyClock w1 = variableFrequencyClock w" "inSync w1"
    using control_eqD(1) [of w1 "w\<lparr>inSync := True\<rparr>"] by simp_all
  let ?w' = "w1\<lparr>sys_reads := Suc (Suc (sys_reads w1)), variableFrequencyClock := (variableFrequencyClock w)
    \<lparr>marker := sys_time w1 + d, markerSrc := cdiv (sys_now w1 (Suc (sys_reads w1))) 1000, rolledOver := False\<rparr>\<rparr>"
  have "setClock SystemClock ClockClient w = Some ((), ?w')"
    using assms v by (simp add: setClock_def ClockClient_def ClockClient_getValue_def SystemClock_getValue_eq vfc_setValue_def
      vfc_call_def SystemClock_simps vfc_setValue_read [OF SystemClock_getValue_eq] sys_time_def)
  then show thesis by (rule that) (use v in simp_all)
qed

text \<open>At the nominal frequency a clock in sync shows what it was set to, and the time since.\<close>

lemma nominal_getValue:
  fixes w :: "'a plc_scheme"
  assumes "inSync w" "frequency (variableFrequencyClock w) = Fin 1000000" "\<not> rolledOver (variableFrequencyClock w)"
    and "sint (marker (variableFrequencyClock w)) = m" "sint (markerSrc (variableFrequencyClock w)) = c" "sint (sys_time w) = c'"
    and "\<bar>m\<bar> \<le> 2 ^ 57" "\<bar>c\<bar> \<le> 2 ^ 57" "c \<le> c'" "c' - c \<le> 2 ^ 53"
  obtains t w' where "PhaseLockedClock_getValue SystemClock w = Some (t, w')" "t \<noteq> tpInvalid" "sint t = m + (c' - c)"
proof -
  let ?v = "variableFrequencyClock w"
  let ?t = "marker ?v + (sys_time w - markerSrc ?v)"
  have i: "in_int64 (c' - c)" "in_int64 (m + (c' - c))" "m + (c' - c) < 2 ^ 63 - 1" "m < 2 ^ 63 - 1" "c < 2 ^ 63 - 1"
    using assms(7-10) by (simp_all add: in_int64_def abs_le_iff)
  have v: "marker ?v \<noteq> tpInvalid" "markerSrc ?v \<noteq> tpInvalid" using i(4,5) assms(4,5) by (simp_all only: valid_iff(1))
  have g: "VariableFrequencyClock_getValue SystemClock_getValue (?v, w) = Some (?t, (?v, w\<lparr>sys_reads := Suc (sys_reads w)\<rparr>))"
    by (rule vfc_tracks_source [OF SystemClock_getValue_eq]) (use v assms(2-10) in simp_all)
  have t: "sint ?t = m + (c' - c)"
    using i(1,2) assms(4-6) by (simp only: sint_add_int64 sint_diff_int64)
  show thesis
  proof (rule that)
    show "PhaseLockedClock_getValue SystemClock w = Some (?t, w\<lparr>sys_reads := Suc (sys_reads w)\<rparr>)"
      using g assms(1) by (simp add: PhaseLockedClock_getValue_def vfc_getValue_def vfc_call_def SystemClock_simps)
    show "?t \<noteq> tpInvalid" using i(3) by (simp only: valid_iff(1) t)
  qed (rule t)
qed

text \<open>C3: The clock after a reset shows the server's time.  The client's clock reads \<open>c\<^sub>0\<close> when it sends its request, \<open>c\<^sub>1\<close> at the
  reply, \<open>c\<^sub>2\<close> and \<open>c\<^sub>3\<close> when \<open>ClockClient::getValue\<close> and \<open>setValue\<close> read it, and \<open>c\<^sub>4\<close> when the application then
  asks for the time; the server's clock is \<open>s - x\<close> ahead.  At the nominal frequency, the answer misses \<open>c\<^sub>4 + (s - x)\<close>, what the
  server's clock shows at that moment, by at most half the round trip, a microsecond, and the time between those two readings.\<close>

theorem reset_shows_server_time:
  fixes w :: "'a plc_scheme" and v :: "'b server_scheme"
  assumes "recvs v = [Datagram (ClockPacket_write (ClockPacket_new REQUEST (next_sequence (sequence w)) (sys_time w))) peer]"
    and "sendtos v = []" "sent v = []" "length buffer = PACKET_LENGTH" "1 < n"
    and "sa_family peer \<noteq> AF_OTHER" "sa_host peer \<noteq> []"
    and "server_loop n SystemClock_getValue sk buffer v = Some (Waiting, v')"
    and "selects w = 1 # rs" "recvs w = Datagram (fst (hd (sent v'))) from' # rest" "sendtos w = []"
    and "s = sint (sys_time v)" "read_at w 0 \<le> x" "x \<le> read_at w 1" "read_at w 1 - read_at w 0 \<le> sint (timeout w)"
    and "frequency (variableFrequencyClock w) = Fin 1000000"
    and "read_at w 3 \<le> read_at w 4" "read_at w 4 - read_at w 3 \<le> 2 ^ 53"
  shows "\<exists>w' w'' t. setClock SystemClock ClockClient w = Some ((), w')
    \<and> PhaseLockedClock_getValue SystemClock w' = Some (t, w'') \<and> t \<noteq> tpInvalid
    \<and> \<bar>sint t - (read_at w 4 + (s - x))\<bar> \<le> (read_at w 1 - read_at w 0) div 2 + 1 + \<bar>read_at w 3 - read_at w 2\<bar>"
proof -
  let ?w0 = "w\<lparr>inSync := True\<rparr>"
  have t0: "sys_time ?w0 = sys_time w" "read_at w 0 = sint (sys_time ?w0)"
    "read_at w 1 = sint (cdiv (sys_now ?w0 (Suc (sys_reads ?w0))) 1000)"
    by (simp_all add: sys_time_def read_at_def reading_def)
  obtain d w1 where d: "ClockClient_getPhase_ack SystemClock_getValue False ?w0 = Some (d, w1)" "d \<noteq> durInvalid"
    "\<bar>sint d - (s - x)\<bar> \<le> (read_at w 1 - read_at w 0) div 2 + 1" "sys_now w1 = sys_now w" "sys_reads w1 = Suc (Suc (sys_reads w))"
    using exchange_offset [of v ?w0 peer buffer n sk v' rs from' rest "read_at w 0" s "read_at w 1" x] assms t0
    by auto
  obtain w' where w': "setClock SystemClock ClockClient w = Some ((), w')" "inSync w'" "sys_now w' = sys_now w"
    "sys_reads w' = Suc (Suc (Suc (Suc (sys_reads w))))"
    "variableFrequencyClock w' = (variableFrequencyClock w)\<lparr>marker := sys_time w1 + d,
       markerSrc := cdiv (sys_now w (Suc (Suc (Suc (sys_reads w))))) 1000, rolledOver := False\<rparr>"
    using setClock_phase [OF d(1,2)] d(4,5) by metis
  let ?v = "variableFrequencyClock w'"
  have r: "sint (sys_time w1) = read_at w 2" "sint (markerSrc ?v) = read_at w 3" "sint (sys_time w') = read_at w 4"
    by (simp_all add: w' d(4,5) sys_time_def read_at_def reading_def numeral_eq_Suc)
  note b = reading_bounds [of w 0] reading_bounds [of w 1] reading_bounds [of w 2] reading_bounds [of w 3]
    reading_bounds [of w 4] sys_time_bounds [of v]
  have e: "(read_at w 1 - read_at w 0) div 2 \<le> 2 ^ 63 div 1000"
    using b(1,2) zdiv_mono1 [of "read_at w 1 - read_at w 0" "2 * (2 ^ 63 div 1000)" 2] by (simp add: abs_le_iff)
  have D: "\<bar>sint d\<bar> \<le> 2 ^ 56" using d(3) e b(1,2,6) assms(12-14) by (simp add: abs_le_iff)
  have m: "sint (marker ?v) = read_at w 2 + sint d"
    using r(1) sint_add_int64 [of "sys_time w1" d] D b(3) by (simp add: w'(5) in_int64_def abs_le_iff)
  obtain t w'' where "PhaseLockedClock_getValue SystemClock w' = Some (t, w'')" "t \<noteq> tpInvalid"
    "sint t = read_at w 2 + sint d + (read_at w 4 - read_at w 3)"
    by (rule nominal_getValue [OF w'(2) _ _ m r(2,3)]) (use D b(3,4) assms(16-18) w'(5) in \<open>simp_all add: abs_le_iff\<close>)
  moreover from this(3) have "\<bar>sint t - (read_at w 4 + (s - x))\<bar>
      \<le> (read_at w 1 - read_at w 0) div 2 + 1 + \<bar>read_at w 3 - read_at w 2\<bar>"
    using d(3) by linarith
  ultimately show ?thesis using w'(1) by blast
qed

theorem reset_shows_server_time_witness:
  "\<exists>w w' w'' t. setClock SystemClock ClockClient w = Some ((), w')
    \<and> PhaseLockedClock_getValue SystemClock (w' :: plc) = Some (t, w'') \<and> \<bar>sint t - (250 + 3950)\<bar> \<le> 76"
proof -
  obtain v' where v: "server_loop 2 SystemClock_getValue undefined (replicate PACKET_LENGTH 0) (demo_server 50) = Some (Waiting, v')"
    "sent v' = [(ClockPacket_write \<lparr>type = REPLY, sequenceNumber = 1, clientRequestTime = 50,
        serverReplyTime = 4025, clientReceiveTime = tpInvalid\<rparr>, Some loopback)]" by (rule demo_reply)
  let ?w = "fresh_plc [1] [Datagram (fst (hd (sent v'))) loopback]"
  have "cdiv 50000 1000 = 50" "cdiv 100000 1000 = 100" "cdiv 150000 1000 = 150" "cdiv 200000 1000 = 200" "cdiv 250000 1000 = 250"
    by (simp_all add: cdiv_def signed_divide_int_def)
  then have r: "sys_time (fresh_plc ss rs) = 50" "read_at (fresh_plc ss rs) 0 = 50" "read_at (fresh_plc ss rs) 1 = 100"
    "read_at (fresh_plc ss rs) (Suc 0) = 100" "read_at (fresh_plc ss rs) 2 = 150" "read_at (fresh_plc ss rs) 3 = 200"
    "read_at (fresh_plc ss rs) 4 = 250" for ss rs
    by (simp_all add: sys_time_def read_at_def reading_def)
  have n: "next_sequence 0 = 1" by (simp add: next_sequence_def)
  have "\<exists>w' w'' t. setClock SystemClock ClockClient ?w = Some ((), w')
    \<and> PhaseLockedClock_getValue SystemClock w' = Some (t, w'') \<and> t \<noteq> tpInvalid
    \<and> \<bar>sint t - (read_at ?w 4 + (4025 - 75))\<bar> \<le> (read_at ?w 1 - read_at ?w 0) div 2 + 1 + \<bar>read_at ?w 3 - read_at ?w 2\<bar>"
    by (rule reset_shows_server_time [of "demo_server 50" ?w loopback "replicate PACKET_LENGTH 0" 2 undefined v' "[]" loopback "[]"])
      (simp_all add: v r n)
  then show ?thesis by (auto simp: r)
qed

section \<open>The offset of the disciplined clock\<close>

text \<open>The phase that \<open>updatePhase\<close> stores when the exchange succeeds.\<close>

lemma updatePhase_offset:
  fixes w :: "'a plc_scheme"
  assumes "ClockClient_getPhase_ack (vfc_getValue SystemClock) False w = Some (d, w3)" "\<not> acknowledge w"
    and "updatePhase SystemClock ClockClient w = Some (True, w')"
  shows "phase w' = d"
proof -
  have "getPhase ClockClient (vfc_getValue SystemClock) w = Some (d, w3)"
    using assms(1,2) by (simp add: ClockClient_def ClockClient_getPhase_def)
  then show ?thesis using assms(3)
    by (auto simp: updatePhase_def Let_def Option.bind_eq_Some_conv split: if_splits)
qed

text \<open>A turn of the loop takes the phase in the state that follows the adjustment of the variable clock.\<close>

lemma turn_phase:
  assumes "turn ClockClient w w'" "check_update SystemClock w = Some ((), u)" "updateClock SystemClock u = Some (True, y)"
  obtains z where "updatePhase SystemClock ClockClient y = Some (True, z)" "phase w' = phase z"
proof -
  have t: "on_time w" "update SystemClock ClockClient w = Some ((), w')" "inSync w'" using assms(1) by (simp_all add: turn_def)
  have "inSync u"
    using t(1) assms(2) by (auto simp: on_time_def check_update_def SystemClock_simps SystemClock_getValue_eq split: if_splits)
  then have "finish_update SystemClock ClockClient y = Some ((), w')" using t(2) assms(2,3) by (simp add: update_def)
  then show thesis
  proof (cases rule: program.finish_update_Some)
    case (lost ok)
    then show ?thesis using t(3) program.updatePhase_in_sync by blast
  next
    case (kept z t q)
    then have "phase w' = phase z" by (auto simp: SystemClock_simps SystemClock_getValue_eq)
    with kept(1) show ?thesis by (rule that)
  qed
qed

text \<open>What the control loop measures is the offset of the clock that it disciplines.  In sync, let the variable clock show \<open>t1\<close>
  when the client makes its request, \<open>x\<close> when the server answers, and \<open>t2\<close> when the client reads the reply.  Then \<open>updatePhase\<close> stores a
  phase that misses what the server's clock was ahead of the disciplined clock by at most half the round trip and a
  microsecond, together with the value that the disciplined clock showed next.  With \<open>plc_phase_converges\<close>, which bounds the
  phase that is stored, this bounds how far the disciplined clock is from the server's.\<close>

theorem disciplined_clock_offset:
  fixes w :: "'a plc_scheme" and v :: "'b server_scheme"
  assumes "recvs v = [Datagram (ClockPacket_write (ClockPacket_new REQUEST n t1)) peer]"
    and "sendtos v = []" "sent v = []" "length buffer = PACKET_LENGTH" "1 < m"
    and "sa_family peer \<noteq> AF_OTHER" "sa_host peer \<noteq> []"
    and "server_loop m SystemClock_getValue sk buffer v = Some (Waiting, v')"
    and "selects w = 1 # rs" "recvs w = Datagram (fst (hd (sent v'))) from' # rest" "sendtos w = []"
    and "n = next_sequence (sequence w)" "vfc_getValue SystemClock (w\<lparr>sequence := n\<rparr>) = Some (t1, w1)"
    and "vfc_getValue SystemClock (exchanged w1 (ClockPacket_new REQUEST n t1) rs rest from') = Some (t2, w3)"
    and "\<bar>sint t1\<bar> \<le> 2 ^ 60" "\<bar>sint t2\<bar> \<le> 2 ^ 60" "sint t1 \<le> x" "x \<le> sint t2" "sint t2 - sint t1 \<le> sint (timeout w)"
    and "inSync w" "\<not> acknowledge w" "t3 = vfc_value (variableFrequencyClock w3) (sys_time w3)" "t3 \<noteq> tpInvalid"
  shows "\<exists>w'. updatePhase SystemClock ClockClient w = Some (True, w') \<and> variableValue w' = t3 \<and> phasePrev w' = phase w
    \<and> \<bar>sint (phase w') - (sint (sys_time v) - x)\<bar> \<le> (sint t2 - sint t1) div 2 + 1"
proof -
  obtain d r where d: "ClockClient_getPhase_ack (vfc_getValue SystemClock) False w = Some (d, w3\<lparr>client_rtt := r\<rparr>)"
    "d \<noteq> durInvalid" "\<bar>sint d - (sint (sys_time v) - x)\<bar> \<le> (sint t2 - sint t1) div 2 + 1"
    using net_clock.exchange_error [OF vfc_net.net_clock_axioms assms(1-19)] by blast
  let ?w3 = "w3\<lparr>client_rtt := r\<rparr>"
  have g: "getPhase ClockClient (vfc_getValue SystemClock) w = Some (d, ?w3)"
    using d(1) assms(21) by (simp add: ClockClient_def ClockClient_getPhase_def)
  have k: "control ?w3 = control w" by (rule program.phase_read_control [OF g])
  note e = control_eqD [OF k, simplified]
  have s: "sys_time ?w3 = sys_time w3" by (simp add: sys_time_def)
  have "\<not> rolledOver (variableFrequencyClock w3)" using assms(22,23) vfc_value_ticks(1) by blast
  then obtain w4 where w4: "vfc_getValue SystemClock ?w3 = Some (t3, w4)" "control w4 = control ?w3"
    using program.plc_vfc_getValue(1) [of ?w3] assms(22)
    by (auto simp: vfc_getValue_def vfc_call_def SystemClock_simps vfc_getValue_read [OF _ SystemClock_getValue_eq] s)
  note e4 = control_eqD [OF w4(2), simplified]
  show ?thesis
    using assms(20,23) d(2,3) g w4(1) e e4
    by (simp add: updatePhase_def SystemClock_simps SystemClock_getValue_eq Let_def)
qed

theorem disciplined_clock_offset_witness:
  "\<exists>w w'. updatePhase SystemClock ClockClient (w :: plc) = Some (True, w') \<and> variableValue w' = 5000 \<and> \<bar>sint (phase w') - (- 975)\<bar> \<le> 1"
proof -
  obtain v' where v: "server_loop 2 SystemClock_getValue undefined (replicate PACKET_LENGTH 0) (demo_server 5000) = Some (Waiting, v')"
    "sent v' = [(ClockPacket_write \<lparr>type = REPLY, sequenceNumber = 1, clientRequestTime = 5000,
        serverReplyTime = 4025, clientReceiveTime = tpInvalid\<rparr>, Some loopback)]" by (rule demo_reply)
  let ?w = "demo_plc\<lparr>inSync := True, selects := [1], recvs := [Datagram (fst (hd (sent v'))) loopback],
    variableFrequencyClock := \<lparr>frequency = Fin 1000000, markerSrc = 0, marker = 5000, rolledOver = False\<rparr>\<rparr>"
  let ?w1 = "?w\<lparr>sequence := 1, sys_reads := Suc (sys_reads ?w)\<rparr>"
  let ?w2 = "exchanged ?w1 (ClockPacket_new REQUEST 1 5000) [] [] loopback"
  have n: "next_sequence 0 = 1" by (simp add: next_sequence_def)
  have x: "sys_now ?w2 = (\<lambda>_. 0)"
    "variableFrequencyClock ?w2 = \<lparr>frequency = Fin 1000000, markerSrc = 0, marker = 5000, rolledOver = False\<rparr>"
    by (simp_all add: exchanged_def)
  have r: "vfc_getValue SystemClock (?w\<lparr>sequence := 1\<rparr>) = Some (5000, ?w1)"
    "vfc_getValue SystemClock ?w2 = Some (5000, ?w2\<lparr>sys_reads := Suc (sys_reads ?w2)\<rparr>)"
    using still_vfc [of "?w\<lparr>sequence := 1\<rparr>"] still_vfc [OF x] by simp_all
  have t: "vfc_value \<lparr>frequency = Fin 1000000, markerSrc = 0, marker = 5000, rolledOver = False\<rparr>
      (sys_time (?w2\<lparr>sys_reads := Suc (sys_reads ?w2)\<rparr>)) = 5000"
    using scaled_ticks_nominal [of 0] x(1)
    by (simp add: vfc_value_def sys_time_def cdiv_def signed_divide_int_def diff_def invalid_eq usecInvalid_def)
  have "\<exists>w'. updatePhase SystemClock ClockClient ?w = Some (True, w') \<and> variableValue w' = 5000 \<and> phasePrev w' = phase ?w
    \<and> \<bar>sint (phase w') - (sint (sys_time (demo_server 5000)) - 5000)\<bar> \<le> (sint (5000 :: tp) - sint (5000 :: tp)) div 2 + 1"
    by (rule disciplined_clock_offset [OF demo_server_simps(1,2,3) _ _ _ _ v(1) _ _ _ _ r])
      (use x t in \<open>simp_all add: n invalid_eq usecInvalid_def\<close>)
  then show ?thesis by auto
qed

section \<open>How far the disciplined clock is from the server's\<close>

lemma offset_and_phase:
  fixes s p r :: int and q :: rat
  assumes "\<bar>p - s\<bar> \<le> r div 2 + 1" "\<bar>of_int p\<bar> \<le> q"
  shows "\<bar>of_int s\<bar> \<le> q + of_int r / 2 + 1"
proof -
  have "p - s \<le> r div 2 + 1" "s - p \<le> r div 2 + 1" using assms(1) by (simp_all add: abs_le_iff)
  then have "2 * (p - s) \<le> r + 2 \<and> 2 * (s - p) \<le> r + 2" by presburger
  then have "of_int (2 * (p - s)) \<le> (of_int (r + 2) :: rat)" "of_int (2 * (s - p)) \<le> (of_int (r + 2) :: rat)"
    by (simp_all only: of_int_le_iff)
  then show ?thesis using assms(2) by (simp add: abs_le_iff)
qed


text \<open>A clock in sync, and a server that shows the same time.\<close>

definition synced :: "byte list \<Rightarrow> plc" where
  "synced reply = steady\<lparr>selects := [1], recvs := [Datagram reply loopback]\<rparr>"

definition synced_server :: server where
  "synced_server = (demo_server 200000)\<lparr>sys_now := (\<lambda>_. 200000000)\<rparr>"

definition synced_adjusted :: "byte list \<Rightarrow> plc" where
  "synced_adjusted reply = (synced reply)\<lparr>sys_reads := 15, variableFrequencyClock := following 200000\<rparr>"

lemma synced_simps [simp]:
  "sys_now (synced r) = ticking" "sys_reads (synced r) = 10" "inSync (synced r)" "updatePrev (synced r) = 0"
  "updatePanic (synced r) = 5000000" "variableFrequencyClock (synced r) = following 0" "variableValue (synced r) = 0"
  "phase (synced r) = 0" "phasePrev (synced r) = 0" "phasePanic (synced r) = 5000"
  "primaryFrequencyAvg (synced r) = Fin 1000000" "sequence (synced r) = 0" "timeout (synced r) = 1000" "\<not> acknowledge (synced r)"
  "selects (synced r) = [1]" "recvs (synced r) = [Datagram r loopback]" "sendtos (synced r) = []"
  by (simp_all add: synced_def steady_def)

lemma synced_adjust:
  "check_update SystemClock (synced r) = Some ((), (synced r)\<lparr>sys_reads := 11\<rparr>)"
  "updateClock SystemClock ((synced r)\<lparr>sys_reads := 11\<rparr>) = Some (True, synced_adjusted r)"
proof -
  let ?w1 = "(synced r)\<lparr>sys_reads := 11\<rparr>"
  note sys = SystemClock_simps ticking_SystemClock
  show "check_update SystemClock (synced r) = Some ((), ?w1)"
    by (simp add: check_update_def sys invalid_eq usecInvalid_def word_sless_alt)
  have p: "primaryFrequency ?w1 = Fin 1000000"
    using nominal_loop(1) by (simp add: primaryFrequency_def synced_def)
  have s: "vfc_setFrequency SystemClock (Fin 1000000) ?w1 = Some ((), synced_adjusted r)"
    by (simp add: vfc_setFrequency_def vfc_call_def VariableFrequencyClock_setFrequency_def sys synced_adjusted_def
        vfc_updateMarkers_read [OF _ ticking_SystemClock ticking_SystemClock] following_value)
  have e: "?w1\<lparr>primaryFrequencyAvg := Fin 1000000\<rparr> = ?w1" by (simp add: synced_def steady_def)
  show "updateClock SystemClock ?w1 = Some (True, synced_adjusted r)"
    using s by (simp add: updateClock_def e p nominal_loop invalid_eq usecInvalid_def word_sless_alt Let_def)
qed

lemma synced_reply:
  obtains v' reply where "server_loop 2 SystemClock_getValue undefined (replicate PACKET_LENGTH 0) synced_server = Some (Waiting, v')"
    "fst (hd (sent v')) = reply"
  using serves_request [of synced_server "ClockPacket_new REQUEST 1 200000" loopback "replicate PACKET_LENGTH 0" 2 undefined]
  by (auto simp: synced_server_def ClockPacket_new_def packet_ok_def type_of_byte_def)

text \<open>The exchange of the last update, and the update as a whole.\<close>

abbreviation synced_asked :: "byte list \<Rightarrow> plc" where
  "synced_asked reply \<equiv> (synced_adjusted reply)\<lparr>sequence := 1, sys_reads := 16\<rparr>"

abbreviation synced_answered :: "byte list \<Rightarrow> plc" where
  "synced_answered reply \<equiv> exchanged (synced_asked reply) (ClockPacket_new REQUEST 1 200000) [] [] loopback"

lemma synced_reads:
  "vfc_getValue SystemClock ((synced_adjusted r)\<lparr>sequence := 1\<rparr>) = Some (200000, synced_asked r)"
  "vfc_getValue SystemClock (synced_answered r) = Some (200000, (synced_answered r)\<lparr>sys_reads := 17\<rparr>)"
  by (simp_all add: following_getValue synced_adjusted_def exchanged_def)

lemma synced_phase:
  assumes "server_loop 2 SystemClock_getValue undefined (replicate PACKET_LENGTH 0) synced_server = Some (Waiting, v')"
  obtains d t where "getPhase ClockClient (vfc_getValue SystemClock) (synced_adjusted (fst (hd (sent v'))))
      = Some (d, (synced_answered (fst (hd (sent v'))))\<lparr>sys_reads := 17, client_rtt := t\<rparr>)"
    "d \<noteq> durInvalid" "\<bar>sint d\<bar> \<le> 1"
proof -
  let ?r = "fst (hd (sent v'))"
  have v: "recvs synced_server = [Datagram (ClockPacket_write (ClockPacket_new REQUEST 1 200000)) loopback]"
    "sendtos synced_server = []" "sent synced_server = []" "sint (sys_time synced_server) = 200000"
    by (simp_all add: synced_server_def sys_time_def cdiv_def signed_divide_int_def)
  have w: "selects (synced_adjusted ?r) = 1 # []" "recvs (synced_adjusted ?r) = Datagram ?r loopback # []"
    "sendtos (synced_adjusted ?r) = []" "1 = next_sequence (sequence (synced_adjusted ?r))" "\<not> acknowledge (synced_adjusted ?r)"
    "timeout (synced_adjusted ?r) = 1000"
    by (simp_all add: synced_adjusted_def next_sequence_def)
  have "\<exists>d t. ClockClient_getPhase_ack (vfc_getValue SystemClock) False (synced_adjusted ?r)
      = Some (d, ((synced_answered ?r)\<lparr>sys_reads := 17\<rparr>)\<lparr>client_rtt := t\<rparr>) \<and> d \<noteq> durInvalid
    \<and> sint t = sint (200000 :: tp) - sint (200000 :: tp)
    \<and> \<bar>sint d - (sint (sys_time synced_server) - 200000)\<bar> \<le> (sint (200000 :: tp) - sint (200000 :: tp)) div 2 + 1"
    by (rule net_clock.exchange_error [OF vfc_net.net_clock_axioms v(1-3) _ _ _ _ assms w(1-4) synced_reads])
      (simp_all add: w(6))
  then show thesis using that w(5) v(4) by (auto simp: ClockClient_def ClockClient_getPhase_def)
qed

lemma synced_update:
  assumes "server_loop 2 SystemClock_getValue undefined (replicate PACKET_LENGTH 0) synced_server = Some (Waiting, v')"
  obtains w' where "update SystemClock ClockClient (synced (fst (hd (sent v')))) = Some ((), w')" "inSync w'" "sys_now w' = ticking"
    "sys_reads w' = 20" "variableValue w' = 200000" "\<bar>sint (phase w')\<bar> \<le> 1" "primaryFrequencyAvg w' = Fin 1000000"
proof -
  let ?r = "fst (hd (sent v'))"
  obtain d t where d: "getPhase ClockClient (vfc_getValue SystemClock) (synced_adjusted ?r)
      = Some (d, (synced_answered ?r)\<lparr>sys_reads := 17, client_rtt := t\<rparr>)" "d \<noteq> durInvalid" "\<bar>sint d\<bar> \<le> 1"
    by (rule synced_phase [OF assms])
  let ?a = "(synced_answered ?r)\<lparr>sys_reads := 17, client_rtt := t\<rparr>"
  have a: "sys_now ?a = ticking" "sys_reads ?a = 17" "variableFrequencyClock ?a = following 200000" "inSync (synced_adjusted ?r)"
    "inSync ?a" "primaryFrequencyAvg ?a = Fin 1000000"
    by (simp_all add: exchanged_def synced_adjusted_def)
  have g: "vfc_getValue SystemClock ?a = Some (200000, ?a\<lparr>sys_reads := 18\<rparr>)"
    using following_getValue [OF a(1) _ a(3)] a(2) by simp
  let ?p = "?a\<lparr>sys_reads := 19, phasePrev := phase ?a, variableValuePrev := variableValue ?a, primaryValuePrev := primaryValue ?a,
    phase := d, variableValue := 200000, primaryValue := 200000\<rparr>"
  have p: "updatePhase SystemClock ClockClient (synced_adjusted ?r) = Some (True, ?p)"
    using a d(1,2) g by (simp add: updatePhase_def SystemClock_simps ticking_SystemClock invalid_eq usecInvalid_def Let_def)
  have "finish_update SystemClock ClockClient (synced_adjusted ?r) = Some ((), ?p\<lparr>sys_reads := 20, updatePrev := 200000\<rparr>)"
    using a p by (simp add: finish_update_def SystemClock_simps ticking_SystemClock)
  then have "update SystemClock ClockClient (synced ?r) = Some ((), ?p\<lparr>sys_reads := 20, updatePrev := 200000\<rparr>)"
    using synced_adjust [of ?r] by (simp add: update_def)
  then show thesis by (rule that) (use a d(3) in simp_all)
qed

lemma synced_turn:
  assumes "update SystemClock ClockClient (synced r) = Some ((), w')" "inSync w'" "sys_now w' = ticking"
    "sys_reads w' = 20" "variableValue w' = 200000" "\<bar>sint (phase w')\<bar> \<le> 1" "primaryFrequencyAvg w' = Fin 1000000"
  shows "turn ClockClient (synced r) w'" "steered (synced r)" "nominal (synced r)" "nominal w'"
    "disturbed 1 0 (synced r) w'" "counted (synced r) w' = 200000" "avg (synced r) = 1000000"
proof -
  have r: "read_at (synced r) 1 = 200000" "read_at (synced r) 2 = 200000" "read_at (synced r) 3 = 200000"
    "read_at (synced r) 4 = 200000" "shown_at (synced r) = 0" "shown_at w' = 200000"
    by (simp_all add: read_at_def shown_at_def ticking_reading assms(3,4))
  note r = r r [unfolded One_nat_def]
  show a: "avg (synced r) = 1000000" "nominal (synced r)" "nominal w'" by (simp_all add: avg_def nominal_def assms(7))
  have a': "avg w' = 1000000" by (simp add: avg_def assms(7))
  have "on_time (synced r)"
    by (simp add: on_time_def sys_time_reading ticking_reading invalid_eq usecInvalid_def word_sless_alt)
  then show "turn ClockClient (synced r) w'" using assms(1,2) by (simp add: turn_def in_order_def r)
  show "steered (synced r)" using steady_steered by (simp add: steered_def synced_def shown_at_def reading_def)
  show c: "counted (synced r) w' = 200000" by (simp add: counted_def r)
  have e: "elapsed (synced r) w' = of_int (200000 + sint (phase w'))" by (simp add: elapsed_def reference_time_def assms(5))
  have "(of_int (- 1) :: rat) \<le> of_int (sint (phase w'))" "(of_int (sint (phase w')) :: rat) \<le> of_int 1"
    unfolding of_int_le_iff using assms(6) by (simp_all add: abs_le_iff)
  then show "disturbed 1 0 (synced r) w'"
    unfolding disturbed_def c a(1) a' e handling_def gaps_def r by (simp add: abs_le_iff field_simps)
qed


end
